(* ===== verification/Cxx_Std.thy ===== *)
theory Cxx_Std
  imports Prelude "HOL-Library.Char_ord"
begin

text \<open>
  The facilities of the C and C++ standard libraries that the code calls: decimal
  conversion, the \<^verbatim>\<open>%d\<close> and \<^verbatim>\<open>%s\<close> directives of the \<^verbatim>\<open>printf\<close> family,
  \<^verbatim>\<open>snprintf\<close> into a fixed buffer, and the extractors \<^verbatim>\<open>istream >> char\<close> and
  \<^verbatim>\<open>istream >> unsigned\<close>. The lemmas say that the conversions invert each other.
\<close>

section \<open>Decimal digits\<close>

definition digit_char :: "nat \<Rightarrow> char" where
  "digit_char d = char_of (48 + d)"

definition is_digit :: "char \<Rightarrow> bool" where
  "is_digit c \<longleftrightarrow> 48 \<le> (of_char c :: nat) \<and> (of_char c :: nat) \<le> 57"

definition digit_val :: "char \<Rightarrow> nat" where
  "digit_val c = of_char c - 48"

fun dec_digits :: "nat \<Rightarrow> string" where
  "dec_digits n =
     (if n < 10 then [digit_char n] else dec_digits (n div 10) @ [digit_char (n mod 10)])"

declare dec_digits.simps [simp del]

definition dec_val :: "string \<Rightarrow> nat" where
  "dec_val cs = foldl (\<lambda>a c. 10 * a + digit_val c) 0 cs"

lemma of_digit_char: "d < 10 \<Longrightarrow> of_char (digit_char d) = 48 + d"
  by (simp add: digit_char_def)

lemma is_digit_digit_char [simp]: "d < 10 \<Longrightarrow> is_digit (digit_char d)"
  by (simp add: is_digit_def of_digit_char)

lemma digit_val_digit_char [simp]: "d < 10 \<Longrightarrow> digit_val (digit_char d) = d"
  by (simp add: digit_val_def of_digit_char)

lemma dec_digits_nonempty [simp]: "dec_digits n \<noteq> []"
  by (subst dec_digits.simps) simp

lemma dec_digits_all: "\<forall>c \<in> set (dec_digits n). is_digit c"
proof (induction n rule: dec_digits.induct)
  case (1 n)
  then show ?case
    by (cases "n < 10") (auto simp: dec_digits.simps [of n])
qed

lemma dec_val_snoc [simp]: "dec_val (cs @ [c]) = 10 * dec_val cs + digit_val c"
  by (simp add: dec_val_def)

lemma dec_val_digits [simp]: "dec_val (dec_digits n) = n"
proof (induction n rule: dec_digits.induct)
  case (1 n)
  show ?case
  proof (cases "n < 10")
    case True
    then show ?thesis by (subst dec_digits.simps) (simp add: dec_val_def)
  next
    case False
    with 1 show ?thesis by (subst dec_digits.simps) simp
  qed
qed

lemma dec_digits_inject: "dec_digits m = dec_digits n \<longleftrightarrow> m = n"
  by (metis dec_val_digits)

lemma dec_val_zeros: "dec_val (replicate k (digit_char 0) @ cs) = dec_val cs"
  by (induction k) (simp_all add: dec_val_def)

lemma dec_digits_length: "n < 10 ^ k \<Longrightarrow> 0 < k \<Longrightarrow> length (dec_digits n) \<le> k"
proof (induction n arbitrary: k rule: dec_digits.induct)
  case (1 n)
  show ?case
  proof (cases "n < 10")
    case True
    with 1 show ?thesis by (subst dec_digits.simps) simp
  next
    case False
    with "1.prems" obtain j where k: "k = Suc j" "0 < j"
      by (cases k) (auto split: nat.splits, case_tac nat, auto)
    with "1.prems" have "n div 10 < 10 ^ j"
      by (simp add: div_less_iff_less_mult mult.commute)
    with 1 False k have "length (dec_digits (n div 10)) \<le> j" by simp
    with False k show ?thesis by (subst dec_digits.simps) simp
  qed
qed

section \<open>The printf family\<close>

text \<open>
  \<open>c_printf\<close> reads the directives \<^verbatim>\<open>%s\<close>, \<^verbatim>\<open>%Nd\<close> and \<^verbatim>\<open>%0Nd\<close>. An \<^verbatim>\<open>int\<close> argument is
  the 32-bit word passed for it: \<^verbatim>\<open>%d\<close> reads it as signed. A directive without a
  matching argument is undefined in C: the result is \<open>None\<close>.
\<close>

datatype printf_arg = IntArg u32 | StrArg string

definition fmt_int :: "bool \<Rightarrow> nat \<Rightarrow> int \<Rightarrow> string" where
  "fmt_int zero width i =
     (let body = dec_digits (nat \<bar>i\<bar>);
          sign = (if i < 0 then ''-'' else []);
          fill = width - (length sign + length body)
      in if zero then sign @ replicate fill (digit_char 0) @ body
         else replicate fill CHR '' '' @ sign @ body)"

function c_printf :: "string \<Rightarrow> printf_arg list \<Rightarrow> string option" where
  "c_printf f as =
     (case f of
        [] \<Rightarrow> Some []
      | c # f' \<Rightarrow>
          if c \<noteq> CHR ''%'' then map_option ((#) c) (c_printf f' as)
          else
            (let zero = (f' \<noteq> [] \<and> hd f' = CHR ''0'');
                 g = (if zero then tl f' else f');
                 width = dec_val (takeWhile is_digit g)
             in case (dropWhile is_digit g, as) of
                  (k # h, IntArg i # as') \<Rightarrow>
                    if k = CHR ''d''
                    then map_option ((@) (fmt_int zero width (sint i))) (c_printf h as')
                    else None
                | (k # h, StrArg s # as') \<Rightarrow>
                    if k = CHR ''s''
                    then map_option ((@) (replicate (width - length s) CHR '' '' @ s)) (c_printf h as')
                    else None
                | _ \<Rightarrow> None))"
  by pat_completeness auto

lemma length_after_directive:
  shows "k # h = dropWhile is_digit f \<Longrightarrow> length h < Suc (length f)"
    and "k # h = dropWhile is_digit (tl f) \<Longrightarrow> length h < Suc (length f)"
proof -
  have le: "length h < Suc (length g)" if "k # h = dropWhile is_digit g" for g :: string
    using length_dropWhile_le [of is_digit g] that [symmetric] by simp
  show "k # h = dropWhile is_digit f \<Longrightarrow> length h < Suc (length f)" by (rule le)
  show "k # h = dropWhile is_digit (tl f) \<Longrightarrow> length h < Suc (length f)"
    using le [of "tl f"] by simp
qed

termination c_printf
  by (relation "measure (\<lambda>(f, as). length f)") (auto dest: length_after_directive split: if_splits)

declare c_printf.simps [simp del]

lemma c_printf_Nil [simp]: "c_printf [] as = Some []"
  by (subst c_printf.simps) simp

lemma c_printf_plain [simp]:
  "c \<noteq> CHR ''%'' \<Longrightarrow> c_printf (c # f) as = map_option ((#) c) (c_printf f as)"
  by (subst c_printf.simps) simp

text \<open>\<^verbatim>\<open>snprintf(buf, n, ..)\<close> stores at most \<open>n - 1\<close> characters and a NUL; the rest of
  the buffer keeps its bytes. A C string ends at its first NUL.\<close>

definition nul :: char where
  "nul = char_of (0 :: nat)"

definition c_str :: "string \<Rightarrow> string" where
  "c_str s = takeWhile (\<lambda>c. c \<noteq> nul) s"

definition snprintf_into :: "string \<Rightarrow> nat \<Rightarrow> string \<Rightarrow> string" where
  "snprintf_into buf n out =
     (if n = 0 then buf
      else let stored = take (n - 1) out @ [nul] in stored @ drop (length stored) buf)"

section \<open>Input streams\<close>

record istream =
  ibuf :: string
  ifail :: bool

definition is_space :: "char \<Rightarrow> bool" where
  "is_space c \<longleftrightarrow> c = CHR '' '' \<or> (9 \<le> (of_char c :: nat) \<and> (of_char c :: nat) \<le> 13)"

definition skip_ws :: "istream \<Rightarrow> istream" where
  "skip_ws s = s\<lparr>ibuf := dropWhile is_space (ibuf s)\<rparr>"

text \<open>\<^verbatim>\<open>is >> c\<close> for a \<^verbatim>\<open>char\<close>; the character read is returned, or \<open>None\<close> when the
  stream failed and the variable is left as it was.\<close>

definition extract_char :: "istream \<Rightarrow> char option \<times> istream" where
  "extract_char s =
     (if ifail s then (None, s)
      else case ibuf (skip_ws s) of
             [] \<Rightarrow> (None, s\<lparr>ibuf := [], ifail := True\<rparr>)
           | c # rest \<Rightarrow> (Some c, s\<lparr>ibuf := rest\<rparr>))"

text \<open>\<^verbatim>\<open>is >> v\<close> for an \<^verbatim>\<open>unsigned int\<close>: white space, an optional sign, digits. A failed
  stream or the end of input leaves \<open>v\<close> alone; input with no digits stores 0 and fails;
  a value too large stores the maximum and fails; a minus sign negates modulo \<open>2 ^ 32\<close>.\<close>

definition extract_uint :: "u32 \<Rightarrow> istream \<Rightarrow> u32 \<times> istream" where
  "extract_uint v s =
     (if ifail s then (v, s)
      else
        let b = ibuf (skip_ws s) in
        if b = [] then (v, s\<lparr>ibuf := [], ifail := True\<rparr>)
        else
          let neg = (hd b = CHR ''-'');
              b' = (if neg \<or> hd b = CHR ''+'' then tl b else b);
              ds = takeWhile is_digit b';
              rest = dropWhile is_digit b'
          in if ds = [] then (0, s\<lparr>ibuf := rest, ifail := True\<rparr>)
             else if 2 ^ 32 \<le> dec_val ds then (- 1, s\<lparr>ibuf := rest, ifail := True\<rparr>)
             else (if neg then - of_nat (dec_val ds) else of_nat (dec_val ds),
                   s\<lparr>ibuf := rest\<rparr>))"

lemma is_digit_not_space [simp]: "is_digit c \<Longrightarrow> \<not> is_space c"
  by (auto simp: is_digit_def is_space_def)

lemma is_digit_not_sign:
  "is_digit c \<Longrightarrow> c \<noteq> CHR ''-'' \<and> c \<noteq> CHR ''+''"
  by (auto simp: is_digit_def)

text \<open>What \<open>%0Nd\<close> writes, the extractor reads back, whatever stands behind it that is
  not a digit.\<close>

lemma takeWhile_digits_stop:
  assumes "\<forall>c \<in> set ds. is_digit c" and "rest = [] \<or> \<not> is_digit (hd rest)"
  shows "takeWhile is_digit (ds @ rest) = ds" and "dropWhile is_digit (ds @ rest) = rest"
  using assms by (cases rest; auto simp: takeWhile_append2 dropWhile_append2)+

lemma extract_uint_digits:
  assumes "\<not> ifail s" and "ibuf s = ds @ rest" and "ds \<noteq> []" and "\<forall>c \<in> set ds. is_digit c"
    and "rest = [] \<or> \<not> is_digit (hd rest)" and "dec_val ds < 2 ^ 32"
  shows "extract_uint v s = (of_nat (dec_val ds), s\<lparr>ibuf := rest\<rparr>)"
proof -
  obtain d ds' where ds: "ds = d # ds'" and d: "is_digit d"
    using assms(3,4) by (cases ds) auto
  have "ibuf (skip_ws s) = d # ds' @ rest"
    using assms(2) ds d by (simp add: skip_ws_def)
  then show ?thesis
    using assms(1,6) ds is_digit_not_sign [OF d] takeWhile_digits_stop [OF assms(4,5)]
    by (simp add: extract_uint_def Let_def)
qed

definition padded :: "nat \<Rightarrow> nat \<Rightarrow> string" where
  "padded width n = replicate (width - length (dec_digits n)) (digit_char 0) @ dec_digits n"

lemma fmt_int_padded: "0 \<le> i \<Longrightarrow> fmt_int True width i = padded width (nat i)"
  by (simp add: fmt_int_def padded_def Let_def)

lemma padded_digits:
  "padded width n \<noteq> []" "\<forall>c \<in> set (padded width n). is_digit c" "dec_val (padded width n) = n"
  using dec_digits_all by (auto simp: padded_def dec_val_zeros)

lemma extract_uint_padded:
  assumes "n < 2 ^ 32" and "rest = [] \<or> \<not> is_digit (hd rest)"
  shows "extract_uint v \<lparr>ibuf = padded width n @ rest, ifail = False\<rparr> =
    (of_nat n, \<lparr>ibuf = rest, ifail = False\<rparr>)"
  using extract_uint_digits [OF _ _ padded_digits(1,2) assms(2),
      of "\<lparr>ibuf = padded width n @ rest, ifail = False\<rparr>" width n v] assms(1)
  by (simp add: padded_digits(3))

lemma extract_char_plain [simp]:
  "\<not> is_space c \<Longrightarrow>
    extract_char \<lparr>ibuf = c # rest, ifail = False\<rparr> = (Some c, \<lparr>ibuf = rest, ifail = False\<rparr>)"
  by (simp add: extract_char_def skip_ws_def)

lemma extract_uint_blank:
  "extract_uint v \<lparr>ibuf = CHR '' '' # b, ifail = False\<rparr> = extract_uint v \<lparr>ibuf = b, ifail = False\<rparr>"
proof -
  have "dropWhile is_space (CHR '' '' # b) = dropWhile is_space b"
    by (simp add: is_space_def)
  then show ?thesis
    by (simp add: extract_uint_def skip_ws_def Let_def del: dropWhile.simps dropWhile_eq_Nil_conv)
qed

lemma extract_failed [simp]:
  "ifail s \<Longrightarrow> extract_uint v s = (v, s)"
  "ifail s \<Longrightarrow> extract_char s = (None, s)"
  by (simp_all add: extract_uint_def extract_char_def)

end
