(* ===== verification/Mysql_Codec.thy ===== *)
theory Mysql_Codec
  imports Cxx_Std
begin

text \<open>
  \<^verbatim>\<open>codec/mysql_protocol.cc\<close> and \<^verbatim>\<open>codec/mysql_client_codec.cc\<close>: the codec the framework asks every
  client protocol for. Queries run on connections of the MySQL client library and never pass through
  the codec, so its operations succeed and leave their arguments alone. A non-contiguous
  buffer, a connection and a decoded message are the framework's and are type variables; output
  parameters are returned.
\<close>

section \<open>The protocol objects\<close>

record MySQLRequestProtocol =
  mysql_req_data :: string

record MySQLResponseProtocol =
  mysql_rsp_data :: string

datatype protocol = Request_protocol MySQLRequestProtocol | Response_protocol MySQLResponseProtocol

definition Request_ZeroCopyDecode :: "MySQLRequestProtocol \<Rightarrow> 'buf \<Rightarrow> bool \<times> MySQLRequestProtocol \<times> 'buf" where
  "Request_ZeroCopyDecode p buff = (True, p, buff)"

definition Request_ZeroCopyEncode :: "MySQLRequestProtocol \<Rightarrow> 'buf \<Rightarrow> bool \<times> MySQLRequestProtocol \<times> 'buf" where
  "Request_ZeroCopyEncode p buff = (True, p, buff)"

definition Response_ZeroCopyDecode :: "MySQLResponseProtocol \<Rightarrow> 'buf \<Rightarrow> bool \<times> MySQLResponseProtocol \<times> 'buf" where
  "Response_ZeroCopyDecode p buff = (True, p, buff)"

definition Response_ZeroCopyEncode :: "MySQLResponseProtocol \<Rightarrow> 'buf \<Rightarrow> bool \<times> MySQLResponseProtocol \<times> 'buf" where
  "Response_ZeroCopyEncode p buff = (True, p, buff)"

section \<open>The codec\<close>

definition codec_Name :: string where
  "codec_Name = ''mysql''"

text \<open>The number of messages found, what is left of the input, and the messages.\<close>

definition ZeroCopyCheck :: "'conn \<Rightarrow> 'buf \<Rightarrow> 'msg list \<Rightarrow> int \<times> 'buf \<times> 'msg list" where
  "ZeroCopyCheck conn inp out = (0, inp, out)"

definition ZeroCopyDecode :: "'ctx \<Rightarrow> 'msg \<Rightarrow> protocol \<Rightarrow> bool \<times> protocol" where
  "ZeroCopyDecode ctx inp out = (True, out)"

definition ZeroCopyEncode :: "'ctx \<Rightarrow> protocol \<Rightarrow> 'buf \<Rightarrow> bool \<times> 'buf" where
  "ZeroCopyEncode ctx inp out = (True, out)"

definition FillRequest :: "'ctx \<Rightarrow> protocol \<Rightarrow> 'body \<Rightarrow> bool \<times> 'body" where
  "FillRequest ctx inp out = (True, out)"

definition FillResponse :: "'ctx \<Rightarrow> protocol \<Rightarrow> 'body \<Rightarrow> bool \<times> 'body" where
  "FillResponse ctx inp out = (True, out)"

definition CreateRequestPtr :: protocol where
  "CreateRequestPtr = Request_protocol \<lparr>mysql_req_data = []\<rparr>"

definition CreateResponsePtr :: protocol where
  "CreateResponsePtr = Response_protocol \<lparr>mysql_rsp_data = []\<rparr>"

end
