(* ===== verification/Mysql_Type.thy ===== *)
theory Mysql_Type
  imports Cxx_Std
begin

text \<open>
  \<^verbatim>\<open>executor/mysql_type.{h,cc}\<close>: \<^verbatim>\<open>MysqlTime\<close>, the wrapper of the client library's
  \<^verbatim>\<open>MYSQL_TIME\<close> with checked setters and its text format, and \<^verbatim>\<open>MysqlBlob\<close>, an owned byte
  string. \<^verbatim>\<open>time::StringFormat\<close> is the framework's \<^verbatim>\<open>printf\<close>: a parameter of \<open>ToString\<close>.
  The setters share one contract, the locale \<open>checked_field\<close>, interpreted for each.
\<close>

section \<open>MysqlTime\<close>

datatype enum_mysql_timestamp_type =
    MYSQL_TIMESTAMP_NONE | MYSQL_TIMESTAMP_ERROR | MYSQL_TIMESTAMP_DATE
  | MYSQL_TIMESTAMP_DATETIME | MYSQL_TIMESTAMP_TIME

text \<open>The struct \<^verbatim>\<open>MYSQL_TIME\<close> of the client library, the only member \<^verbatim>\<open>mt_\<close> of the class.\<close>

record MysqlTime =
  year :: u32
  month :: u32
  day :: u32
  hour :: u32
  minute :: u32
  second :: u32
  second_part :: u64
  neg :: bool
  time_type :: enum_mysql_timestamp_type

definition MysqlTime_default :: MysqlTime where
  "MysqlTime_default =
     \<lparr>year = 2024, month = 1, day = 1, hour = 0, minute = 0, second = 0, second_part = 0,
      neg = False, time_type = MYSQL_TIMESTAMP_DATETIME\<rparr>"

definition SetYear :: "u32 \<Rightarrow> MysqlTime \<Rightarrow> MysqlTime" where
  "SetYear v t = t\<lparr>year := v\<rparr>"

definition SetMonth :: "u32 \<Rightarrow> MysqlTime \<Rightarrow> MysqlTime" where
  "SetMonth v t = (if v > 0 \<and> v \<le> 12 then t\<lparr>month := v\<rparr> else t)"

definition SetDay :: "u32 \<Rightarrow> MysqlTime \<Rightarrow> MysqlTime" where
  "SetDay v t = t\<lparr>day := v\<rparr>"

definition SetHour :: "u32 \<Rightarrow> MysqlTime \<Rightarrow> MysqlTime" where
  "SetHour v t = (if v \<le> 24 then t\<lparr>hour := v\<rparr> else t)"

definition SetMinute :: "u32 \<Rightarrow> MysqlTime \<Rightarrow> MysqlTime" where
  "SetMinute v t = (if v \<le> 60 then t\<lparr>minute := v\<rparr> else t)"

definition SetSecond :: "u32 \<Rightarrow> MysqlTime \<Rightarrow> MysqlTime" where
  "SetSecond v t = (if v \<le> 60 then t\<lparr>second := v\<rparr> else t)"

definition SetSecondPart :: "u64 \<Rightarrow> MysqlTime \<Rightarrow> MysqlTime" where
  "SetSecondPart v t = t\<lparr>second_part := v\<rparr>"

definition SetTimeType :: "enum_mysql_timestamp_type \<Rightarrow> MysqlTime \<Rightarrow> MysqlTime" where
  "SetTimeType v t = t\<lparr>time_type := v\<rparr>"

definition GetYear :: "MysqlTime \<Rightarrow> u32" where "GetYear t = year t"
definition GetMonth :: "MysqlTime \<Rightarrow> u32" where "GetMonth t = month t"
definition GetDay :: "MysqlTime \<Rightarrow> u32" where "GetDay t = day t"
definition GetHour :: "MysqlTime \<Rightarrow> u32" where "GetHour t = hour t"
definition GetMinute :: "MysqlTime \<Rightarrow> u32" where "GetMinute t = minute t"
definition GetSecond :: "MysqlTime \<Rightarrow> u32" where "GetSecond t = second t"
definition GetTimeType :: "MysqlTime \<Rightarrow> enum_mysql_timestamp_type" where
  "GetTimeType t = time_type t"

text \<open>The second-part getter is spelled \<^verbatim>\<open>SetSecondPart() const\<close> in the source.\<close>

definition SetSecondPart_const :: "MysqlTime \<Rightarrow> u64" where
  "SetSecondPart_const t = second_part t"

definition ToString :: "(string \<Rightarrow> printf_arg list \<Rightarrow> string) \<Rightarrow> MysqlTime \<Rightarrow> string" where
  "ToString StringFormat t =
     StringFormat ''%04d-%02d-%02d %02d:%02d:%02d''
       [IntArg (year t), IntArg (month t), IntArg (day t), IntArg (hour t), IntArg (minute t),
        IntArg (second t)]"

definition FromString :: "string \<Rightarrow> MysqlTime \<Rightarrow> MysqlTime" where
  "FromString time_str t =
     (let iss = \<lparr>ibuf = time_str, ifail = False\<rparr>;
          (y, iss) = extract_uint (year t) iss;
          (_, iss) = extract_char iss;
          (mo, iss) = extract_uint (month t) iss;
          (_, iss) = extract_char iss;
          (d, iss) = extract_uint (day t) iss;
          (h, iss) = extract_uint (hour t) iss;
          (_, iss) = extract_char iss;
          (mi, iss) = extract_uint (minute t) iss;
          (_, iss) = extract_char iss;
          (sec, iss) = extract_uint (second t) iss
      in t\<lparr>year := y, month := mo, day := d, hour := h, minute := mi, second := sec\<rparr>)"

subsection \<open>The contract of the setters\<close>

locale checked_field =
  fixes get :: "'t \<Rightarrow> 'v" and set_to :: "'v \<Rightarrow> 't \<Rightarrow> 't" and ok :: "'v \<Rightarrow> bool"
  assumes get_set: "ok v \<Longrightarrow> get (set_to v t) = v"
    and set_set: "ok v \<Longrightarrow> ok w \<Longrightarrow> set_to v (set_to w t) = set_to v t"
    and set_get: "set_to (get t) t = t"
    and rejected: "\<not> ok v \<Longrightarrow> set_to v t = t"
begin

lemma get_after_set: "get (set_to v t) = (if ok v then v else get t)"
  by (simp add: get_set rejected)

lemma set_idem: "set_to v (set_to v t) = set_to v t"
  by (cases "ok v") (simp_all add: set_set rejected)

text \<open>Any number of calls leaves what the last accepted one stored.\<close>

lemma get_after_sets: "get (fold set_to vs t) = last (get t # filter ok vs)"
  by (induction vs arbitrary: t) (auto simp: get_set rejected)

lemma sets_collapse: "fold set_to vs t = set_to (last (get t # filter ok vs)) t"
proof (induction vs arbitrary: t)
  case Nil
  then show ?case by (simp add: set_get)
next
  case (Cons v vs)
  have "set_to w (set_to v t) = set_to w t" if "ok v" and "w = v \<or> ok w" for w
    using that by (auto simp: set_idem set_set)
  moreover have "last (v # filter ok vs) = v \<or> ok (last (v # filter ok vs))"
    using last_in_set [of "filter ok vs"] by auto
  ultimately show ?case
    using Cons.IH [of "set_to v t"] by (auto simp: get_set rejected)
qed

end

interpretation year: checked_field GetYear SetYear "\<lambda>_. True"
  by unfold_locales (simp_all add: GetYear_def SetYear_def)

interpretation month: checked_field GetMonth SetMonth "\<lambda>v. v > 0 \<and> v \<le> 12"
  by unfold_locales (auto simp: GetMonth_def SetMonth_def)

interpretation day: checked_field GetDay SetDay "\<lambda>_. True"
  by unfold_locales (simp_all add: GetDay_def SetDay_def)

interpretation hour: checked_field GetHour SetHour "\<lambda>v. v \<le> 24"
  by unfold_locales (auto simp: GetHour_def SetHour_def)

interpretation minute: checked_field GetMinute SetMinute "\<lambda>v. v \<le> 60"
  by unfold_locales (auto simp: GetMinute_def SetMinute_def)

interpretation second: checked_field GetSecond SetSecond "\<lambda>v. v \<le> 60"
  by unfold_locales (auto simp: GetSecond_def SetSecond_def)

interpretation second_part: checked_field SetSecondPart_const SetSecondPart "\<lambda>_. True"
  by unfold_locales (simp_all add: SetSecondPart_const_def SetSecondPart_def)

interpretation time_type: checked_field GetTimeType SetTimeType "\<lambda>_. True"
  by unfold_locales (simp_all add: GetTimeType_def SetTimeType_def)

subsection \<open>Values the setters keep\<close>

definition time_in_range :: "MysqlTime \<Rightarrow> bool" where
  "time_in_range t \<longleftrightarrow>
     1 \<le> month t \<and> month t \<le> 12 \<and> hour t \<le> 24 \<and> minute t \<le> 60 \<and> second t \<le> 60"

datatype time_call =
    CallSetYear u32 | CallSetMonth u32 | CallSetDay u32 | CallSetHour u32 | CallSetMinute u32
  | CallSetSecond u32 | CallSetSecondPart u64 | CallSetTimeType enum_mysql_timestamp_type

fun run_time_call :: "time_call \<Rightarrow> MysqlTime \<Rightarrow> MysqlTime" where
  "run_time_call (CallSetYear v) t = SetYear v t"
| "run_time_call (CallSetMonth v) t = SetMonth v t"
| "run_time_call (CallSetDay v) t = SetDay v t"
| "run_time_call (CallSetHour v) t = SetHour v t"
| "run_time_call (CallSetMinute v) t = SetMinute v t"
| "run_time_call (CallSetSecond v) t = SetSecond v t"
| "run_time_call (CallSetSecondPart v) t = SetSecondPart v t"
| "run_time_call (CallSetTimeType v) t = SetTimeType v t"

lemmas setter_defs =
  SetYear_def SetMonth_def SetDay_def SetHour_def SetMinute_def SetSecond_def SetSecondPart_def
  SetTimeType_def

lemma time_in_range_default: "time_in_range MysqlTime_default"
  by (simp add: time_in_range_def MysqlTime_default_def)

lemma word_positive_iff: "(0 :: u32) < v \<longleftrightarrow> 1 \<le> v"
  by (simp add: word_less_nat_alt word_le_nat_alt Suc_le_eq)

lemma time_in_range_call: "time_in_range t \<Longrightarrow> time_in_range (run_time_call c t)"
  by (cases c) (auto simp: time_in_range_def setter_defs word_positive_iff)

lemma time_in_range_calls: "time_in_range t \<Longrightarrow> time_in_range (fold run_time_call cs t)"
  by (induction cs arbitrary: t) (auto intro: time_in_range_call)

subsection \<open>The text format\<close>

text \<open>\<^verbatim>\<open>time::StringFormat\<close> behaves as \<^verbatim>\<open>printf\<close> wherever that is defined.\<close>

definition printf_like :: "(string \<Rightarrow> printf_arg list \<Rightarrow> string) \<Rightarrow> bool" where
  "printf_like F \<longleftrightarrow> (\<forall>f as r. c_printf f as = Some r \<longrightarrow> F f as = r)"

lemma c_printf_02d:
  "c_printf (CHR ''%'' # CHR ''0'' # CHR ''2'' # CHR ''d'' # h) (IntArg i # as) =
   map_option ((@) (fmt_int True 2 (sint i))) (c_printf h as)"
  by (subst c_printf.simps) (simp add: is_digit_def dec_val_def digit_val_def)

lemma c_printf_04d:
  "c_printf (CHR ''%'' # CHR ''0'' # CHR ''4'' # CHR ''d'' # h) (IntArg i # as) =
   map_option ((@) (fmt_int True 4 (sint i))) (c_printf h as)"
  by (subst c_printf.simps) (simp add: is_digit_def dec_val_def digit_val_def)

definition small :: "u32 \<Rightarrow> bool" where
  "small w \<longleftrightarrow> unat w < 2 ^ 31"

lemma fmt_int_small: "small w \<Longrightarrow> fmt_int True k (sint w) = padded k (unat w)"
proof -
  assume "small w"
  then have "sint w = int (unat w)"
  proof -
    have "int (unat w) < int (2 ^ 31)" using \<open>small w\<close> unfolding small_def by (rule of_nat_less_iff [THEN iffD2])
    then have "uint w < 2 ^ 31" by simp
    moreover have "- (2 ^ 31) \<le> uint w" by (rule order_trans [OF _ uint_ge_0]) simp
    ultimately show ?thesis
      by (simp add: sint_uint signed_take_bit_int_eq_self)
  qed
  then show ?thesis by (simp add: fmt_int_padded)
qed

definition fields_small :: "MysqlTime \<Rightarrow> bool" where
  "fields_small t \<longleftrightarrow> small (year t) \<and> small (month t) \<and> small (day t) \<and> small (hour t) \<and>
     small (minute t) \<and> small (second t)"

lemma ToString_padded:
  assumes "printf_like F" and "fields_small t"
  shows "ToString F t =
    padded 4 (unat (year t)) @ CHR ''-'' # padded 2 (unat (month t)) @ CHR ''-'' #
    padded 2 (unat (day t)) @ CHR '' '' # padded 2 (unat (hour t)) @ CHR '':'' #
    padded 2 (unat (minute t)) @ CHR '':'' # padded 2 (unat (second t)) @ []"
    (is "_ = ?r")
proof -
  have "c_printf ''%04d-%02d-%02d %02d:%02d:%02d''
      [IntArg (year t), IntArg (month t), IntArg (day t), IntArg (hour t), IntArg (minute t),
       IntArg (second t)] = Some ?r"
    using assms(2) by (simp add: c_printf_02d c_printf_04d fmt_int_small fields_small_def)
  then show ?thesis
    using assms(1) by (simp add: ToString_def printf_like_def)
qed

lemma extract_uint_padded_then:
  "small w \<Longrightarrow> \<not> is_digit c \<Longrightarrow>
    extract_uint v \<lparr>ibuf = padded k (unat w) @ c # rest, ifail = False\<rparr> =
    (w, \<lparr>ibuf = c # rest, ifail = False\<rparr>)"
  "small w \<Longrightarrow>
    extract_uint v \<lparr>ibuf = padded k (unat w), ifail = False\<rparr> = (w, \<lparr>ibuf = [], ifail = False\<rparr>)"
  using extract_uint_padded [of "unat w" "c # rest" v k] extract_uint_padded [of "unat w" "[]" v k]
  by (simp_all add: small_def)

lemma separators [simp]:
  "\<not> is_digit CHR ''-''" "\<not> is_digit CHR '':''" "\<not> is_digit CHR '' ''"
  "\<not> is_space CHR ''-''" "\<not> is_space CHR '':''"
  by (simp_all add: is_digit_def is_space_def)

text \<open>C30: The text format of a time is read back exactly: for every time whose six fields are
  below \<open>2 ^ 31\<close>, and whatever object receives it, \<open>FromString\<close> of \<open>ToString\<close> copies the year,
  month, day, hour, minute and second and leaves the other fields of the receiver alone.\<close>

theorem FromString_ToString:
  assumes "printf_like F" and "fields_small t"
  shows "FromString (ToString F t) u =
    u\<lparr>year := year t, month := month t, day := day t, hour := hour t, minute := minute t,
      second := second t\<rparr>"
  using assms(2) unfolding ToString_padded [OF assms]
  by (simp add: FromString_def fields_small_def extract_uint_padded_then extract_uint_blank)

definition demo_format :: "string \<Rightarrow> printf_arg list \<Rightarrow> string" where
  "demo_format f as = (case c_printf f as of Some r \<Rightarrow> r | None \<Rightarrow> [])"

lemma demo_format_printf_like: "printf_like demo_format"
  by (simp add: printf_like_def demo_format_def)

definition demo_time :: MysqlTime where
  "demo_time = MysqlTime_default\<lparr>year := 999, month := 9, day := 8, hour := 13, second := 24\<rparr>"

theorem FromString_ToString_witness:
  "FromString (ToString demo_format demo_time) MysqlTime_default = demo_time"
proof -
  have small: "fields_small demo_time"
    by (simp add: fields_small_def small_def demo_time_def MysqlTime_default_def)
  show ?thesis
    unfolding FromString_ToString [OF demo_format_printf_like small]
    by (simp add: demo_time_def MysqlTime_default_def)
qed

text \<open>No sequence of setter calls on a fresh time object stores a month outside 1 to 12, an
  hour above 24, or a minute or second above 60, and a month keeps the last value that was
  in range.\<close>

theorem setters_keep_range:
  "time_in_range (fold run_time_call cs MysqlTime_default) \<and>
   GetMonth (fold SetMonth vs t) = last (GetMonth t # filter (\<lambda>v. v > 0 \<and> v \<le> 12) vs)"
  using time_in_range_calls [OF time_in_range_default] month.get_after_sets by simp

section \<open>MysqlBlob\<close>

text \<open>
  The only member is the string \<^verbatim>\<open>data_\<close>. A move leaves the source in a state the
  standard does not fix: the operations take it as an argument \<open>leftover\<close>.
\<close>

record MysqlBlob =
  data :: string

definition MysqlBlob_default :: MysqlBlob where
  "MysqlBlob_default = \<lparr>data = []\<rparr>"

definition MysqlBlob_of_string :: "string \<Rightarrow> MysqlBlob" where
  "MysqlBlob_of_string d = \<lparr>data = d\<rparr>"

text \<open>\<^verbatim>\<open>MysqlBlob(const char*, size_t)\<close> copies \<open>n\<close> bytes from memory holding \<open>mem\<close>; reading
  past it is a fault.\<close>

definition MysqlBlob_of_bytes :: "string \<Rightarrow> nat \<Rightarrow> MysqlBlob result" where
  "MysqlBlob_of_bytes mem n =
     (if n \<le> length mem then Inr \<lparr>data = take n mem\<rparr> else Inl Out_of_range)"

definition MysqlBlob_move :: "string \<Rightarrow> MysqlBlob \<Rightarrow> MysqlBlob \<times> MysqlBlob" where
  "MysqlBlob_move leftover other = (\<lparr>data = data other\<rparr>, other\<lparr>data := leftover\<rparr>)"

text \<open>Assignment between the objects at two addresses, which may be the same one.\<close>

definition MysqlBlob_assign :: "nat \<Rightarrow> nat \<Rightarrow> (nat \<Rightarrow> MysqlBlob) \<Rightarrow> (nat \<Rightarrow> MysqlBlob)" where
  "MysqlBlob_assign this other m =
     (if this \<noteq> other then m(this := (m this)\<lparr>data := data (m other)\<rparr>) else m)"

definition MysqlBlob_move_assign ::
  "string \<Rightarrow> nat \<Rightarrow> nat \<Rightarrow> (nat \<Rightarrow> MysqlBlob) \<Rightarrow> (nat \<Rightarrow> MysqlBlob)" where
  "MysqlBlob_move_assign leftover this other m =
     (if this \<noteq> other
      then m(this := (m this)\<lparr>data := data (m other)\<rparr>, other := (m other)\<lparr>data := leftover\<rparr>)
      else m)"

definition MysqlBlob_eq :: "MysqlBlob \<Rightarrow> MysqlBlob \<Rightarrow> bool" where
  "MysqlBlob_eq a b \<longleftrightarrow> data a = data b"

definition MysqlBlob_Size :: "MysqlBlob \<Rightarrow> nat" where
  "MysqlBlob_Size b = length (data b)"

definition MysqlBlob_AsStringView :: "MysqlBlob \<Rightarrow> string" where
  "MysqlBlob_AsStringView b = data b"

lemma MysqlBlob_eq_iff: "MysqlBlob_eq a b \<longleftrightarrow> a = b"
  by (cases a; cases b) (simp add: MysqlBlob_eq_def)

lemma MysqlBlob_of_bytes_size:
  "MysqlBlob_of_bytes mem n = Inr b \<Longrightarrow> MysqlBlob_Size b = n"
  by (auto simp: MysqlBlob_of_bytes_def MysqlBlob_Size_def split: if_splits)

text \<open>Assigning a blob, by copy or by move, stores the source's bytes in the target also
  when both are the same object (self-move keeps the bytes whatever a moved-from string is
  left with), and changes no third object.\<close>

theorem MysqlBlob_assign_correct:
  assumes "k \<noteq> i" and "k \<noteq> j"
  shows "data (MysqlBlob_assign i j m i) = data (m j) \<and>
    data (MysqlBlob_move_assign leftover i j m i) = data (m j) \<and>
    MysqlBlob_assign i j m k = m k \<and> MysqlBlob_move_assign leftover i j m k = m k"
  using assms by (simp add: MysqlBlob_assign_def MysqlBlob_move_assign_def)

theorem MysqlBlob_assign_correct_witness:
  "MysqlBlob_move_assign ''gone'' 1 1 (\<lambda>_. MysqlBlob_of_string ''abc'') 2 =
     MysqlBlob_of_string ''abc'' \<and>
   data (MysqlBlob_move_assign ''gone'' 1 1 (\<lambda>_. MysqlBlob_of_string ''abc'') 1) = ''abc''"
  using MysqlBlob_assign_correct
    [of 2 1 1 "\<lambda>_. MysqlBlob_of_string ''abc''" "''gone''"]
  by (simp add: MysqlBlob_of_string_def)

end
