(* ===== verification/Mysql_Api.thy ===== *)
theory Mysql_Api
  imports Mysql_Type
begin

text \<open>
  What the code calls and does not define: the MySQL C client library (libmysqlclient),
  the steady clock and \<^verbatim>\<open>sleep_for\<close>. They are one parameter, the record \<open>mysql_api\<close> of functions
  on an opaque world \<open>'w\<close> (server, network and library internals).

  Memory is modelled as in CompCert: an object the library allocates is a block with an
  identity that is never used again, and the state records which blocks are live. Using
  a block after it was freed, or a null pointer, is a fault. The C API documents that
  \<^verbatim>\<open>mysql_close\<close> deallocates a handle made by \<^verbatim>\<open>mysql_init(nullptr)\<close>, and that it must not
  be used afterwards.
\<close>

section \<open>Types of the client library's header\<close>

datatype enum_field_types =
    MYSQL_TYPE_DECIMAL | MYSQL_TYPE_TINY | MYSQL_TYPE_SHORT | MYSQL_TYPE_LONG | MYSQL_TYPE_FLOAT
  | MYSQL_TYPE_DOUBLE | MYSQL_TYPE_NULL | MYSQL_TYPE_TIMESTAMP | MYSQL_TYPE_LONGLONG
  | MYSQL_TYPE_INT24 | MYSQL_TYPE_DATE | MYSQL_TYPE_TIME | MYSQL_TYPE_DATETIME | MYSQL_TYPE_YEAR
  | MYSQL_TYPE_VARCHAR | MYSQL_TYPE_BIT | MYSQL_TYPE_JSON | MYSQL_TYPE_NEWDECIMAL
  | MYSQL_TYPE_ENUM | MYSQL_TYPE_SET | MYSQL_TYPE_TINY_BLOB | MYSQL_TYPE_MEDIUM_BLOB
  | MYSQL_TYPE_LONG_BLOB | MYSQL_TYPE_BLOB | MYSQL_TYPE_VAR_STRING | MYSQL_TYPE_STRING
  | MYSQL_TYPE_GEOMETRY

record MYSQL_FIELD =
  field_name :: string
  field_type :: enum_field_types

text \<open>A pointer: null, or the block it points into.\<close>

type_synonym ptr = "nat option"

text \<open>What the pointer \<^verbatim>\<open>buffer\<close> of an input bind points to: the caller's argument object
  itself, or the bytes or the \<^verbatim>\<open>MYSQL_TIME\<close> it holds. These objects do not change while
  the call runs.\<close>

datatype scalar =
    Int8 "8 word" | UInt8 "8 word" | Int16 "16 word" | UInt16 "16 word"
  | Int32 "32 word" | UInt32 "32 word" | Int64 "64 word" | UInt64 "64 word"
  | Float "32 word" | Double "64 word"

datatype source_object = ScalarAt scalar | BytesAt string | TimeAt MysqlTime

text \<open>An argument of \<^verbatim>\<open>util::FormatString\<close>, the framework's formatter, which is a function on
  a format and such arguments.\<close>

datatype fmt_arg = FScalar scalar | FText string

type_synonym formatter = "string \<Rightarrow> fmt_arg list \<Rightarrow> string"

text \<open>An input \<^verbatim>\<open>MYSQL_BIND\<close>. Its pointer \<^verbatim>\<open>length\<close> is null or points at its own
  \<^verbatim>\<open>buffer_length\<close>.\<close>

record input_bind =
  ib_type :: enum_field_types
  ib_buffer :: "source_object option"
  ib_buffer_length :: nat
  ib_length_set :: bool
  ib_is_unsigned :: bool

section \<open>Connection options\<close>

text \<open>\<^verbatim>\<open>struct MysqlConnOption\<close> of \<^verbatim>\<open>executor/mysql_executor.h\<close>.\<close>

record MysqlConnOption =
  hostname :: string
  username :: string
  password :: string
  database :: string
  port :: u16
  char_set :: string

definition MysqlConnOption_default :: MysqlConnOption where
  "MysqlConnOption_default =
     \<lparr>hostname = [], username = [], password = [], database = [], port = 0,
      char_set = ''utf8mb4''\<rparr>"

datatype mysql_option = CONNECT_TIMEOUT | READ_TIMEOUT | WRITE_TIMEOUT

section \<open>The library\<close>

text \<open>What one call of \<^verbatim>\<open>mysql_stmt_fetch\<close> finds: a row (per column \<open>None\<close> for NULL, or
  the bytes of the value in the representation the bind asks for), the end, or an error.\<close>

datatype fetched = Row "string option list" | No_data | Fetch_error

record 'w mysql_api =
  c_init :: "nat \<Rightarrow> 'w \<Rightarrow> bool \<times> 'w"
  c_set_character_set :: "nat \<Rightarrow> string \<Rightarrow> 'w \<Rightarrow> 'w"
  c_options :: "nat \<Rightarrow> mysql_option \<Rightarrow> u32 \<Rightarrow> 'w \<Rightarrow> 'w"
  c_real_connect :: "nat \<Rightarrow> MysqlConnOption \<Rightarrow> 'w \<Rightarrow> bool \<times> 'w"
  c_close :: "nat \<Rightarrow> 'w \<Rightarrow> 'w"
  c_ping :: "nat \<Rightarrow> 'w \<Rightarrow> int \<times> 'w"
  c_errno :: "ptr \<Rightarrow> 'w \<Rightarrow> int"
  c_error :: "ptr \<Rightarrow> 'w \<Rightarrow> string"
  c_autocommit :: "nat \<Rightarrow> bool \<Rightarrow> 'w \<Rightarrow> bool \<times> 'w"
  c_real_query :: "nat \<Rightarrow> string \<Rightarrow> 'w \<Rightarrow> int \<times> 'w"
  c_affected_rows :: "nat \<Rightarrow> 'w \<Rightarrow> u64"
  c_store_result :: "nat \<Rightarrow> nat \<Rightarrow> 'w \<Rightarrow> bool \<times> 'w"
  c_fetch_fields :: "nat \<Rightarrow> 'w \<Rightarrow> MYSQL_FIELD list"
  c_rows :: "nat \<Rightarrow> 'w \<Rightarrow> (string option list) list"
  c_free_result :: "nat \<Rightarrow> 'w \<Rightarrow> 'w"
  s_init :: "nat \<Rightarrow> nat \<Rightarrow> 'w \<Rightarrow> bool \<times> 'w"
  s_prepare :: "nat \<Rightarrow> string \<Rightarrow> 'w \<Rightarrow> int \<times> 'w"
  s_field_count :: "nat \<Rightarrow> 'w \<Rightarrow> u32"
  s_param_count :: "nat \<Rightarrow> 'w \<Rightarrow> u64"
  s_bind_param :: "nat \<Rightarrow> input_bind list \<Rightarrow> 'w \<Rightarrow> int \<times> 'w"
  s_result_metadata :: "nat \<Rightarrow> nat \<Rightarrow> 'w \<Rightarrow> bool \<times> 'w"
  s_bind_result :: "nat \<Rightarrow> 'w \<Rightarrow> int \<times> 'w"
  s_execute :: "nat \<Rightarrow> 'w \<Rightarrow> int \<times> 'w"
  s_store_result :: "nat \<Rightarrow> 'w \<Rightarrow> int \<times> 'w"
  s_fetch :: "nat \<Rightarrow> 'w \<Rightarrow> fetched \<times> 'w"
  s_fetch_column :: "nat \<Rightarrow> nat \<Rightarrow> nat \<Rightarrow> 'w \<Rightarrow> int \<times> 'w"
  s_free_result :: "nat \<Rightarrow> 'w \<Rightarrow> int \<times> 'w"
  s_close :: "nat \<Rightarrow> 'w \<Rightarrow> 'w"
  s_errno :: "nat \<Rightarrow> 'w \<Rightarrow> int"
  s_error :: "nat \<Rightarrow> 'w \<Rightarrow> string"
  steady_ms :: "'w \<Rightarrow> u64"
  sleep_ms :: "nat \<Rightarrow> 'w \<Rightarrow> 'w"

section \<open>Blocks of the library, and the calls\<close>

record 'w clib =
  lib :: 'w
  next_block :: nat
  mysqls :: "nat set"
  stmts :: "nat set"
  ress :: "nat set"

definition use_block :: "nat set \<Rightarrow> ptr \<Rightarrow> nat result" where
  "use_block live p =
     (case p of None \<Rightarrow> Inl Null_dereference
      | Some b \<Rightarrow> if b \<in> live then Inr b else Inl Use_after_free)"

lemma use_block_simps [simp]:
  "use_block live None = Inl Null_dereference"
  "b \<in> live \<Longrightarrow> use_block live (Some b) = Inr b"
  "b \<notin> live \<Longrightarrow> use_block live (Some b) = Inl Use_after_free"
  by (simp_all add: use_block_def)

lemma use_block_Inr: "use_block live p = Inr b \<longleftrightarrow> p = Some b \<and> b \<in> live"
  by (auto simp: use_block_def split: option.splits if_splits)

definition mysql_init :: "'w mysql_api \<Rightarrow> ('w, 'z) clib_scheme \<Rightarrow> ptr \<times> ('w, 'z) clib_scheme" where
  "mysql_init api s =
     (let b = next_block s; (ok, w) = c_init api b (lib s)
      in if ok then (Some b, s\<lparr>lib := w, next_block := Suc b, mysqls := insert b (mysqls s)\<rparr>)
         else (None, s\<lparr>lib := w\<rparr>))"

definition mysql_close :: "'w mysql_api \<Rightarrow> ptr \<Rightarrow> ('w, 'z) clib_scheme \<Rightarrow> ('w, 'z) clib_scheme result" where
  "mysql_close api p s =
     (case p of None \<Rightarrow> Inr s
      | Some _ \<Rightarrow> bindE (use_block (mysqls s) p) (\<lambda>b.
          Inr (s\<lparr>lib := c_close api b (lib s), mysqls := mysqls s - {b}\<rparr>)))"

text \<open>A call that needs a live block and only changes the library's world.\<close>

definition on_block ::
  "nat set \<Rightarrow> ptr \<Rightarrow> (nat \<Rightarrow> 'w \<Rightarrow> 'a \<times> 'w) \<Rightarrow> ('w, 'z) clib_scheme \<Rightarrow>
   ('a \<times> ('w, 'z) clib_scheme) result" where
  "on_block live p f s =
     bindE (use_block live p) (\<lambda>b. let (a, w) = f b (lib s) in Inr (a, s\<lparr>lib := w\<rparr>))"

definition mysql_call ::
  "ptr \<Rightarrow> (nat \<Rightarrow> 'w \<Rightarrow> 'a \<times> 'w) \<Rightarrow> ('w, 'z) clib_scheme \<Rightarrow> ('a \<times> ('w, 'z) clib_scheme) result" where
  "mysql_call p f s = on_block (mysqls s) p f s"

definition stmt_call ::
  "ptr \<Rightarrow> (nat \<Rightarrow> 'w \<Rightarrow> 'a \<times> 'w) \<Rightarrow> ('w, 'z) clib_scheme \<Rightarrow> ('a \<times> ('w, 'z) clib_scheme) result" where
  "stmt_call p f s = on_block (stmts s) p f s"

text \<open>Reading the last error: a null handle is allowed, a freed one is not.\<close>

definition mysql_errno :: "'w mysql_api \<Rightarrow> ptr \<Rightarrow> ('w, 'z) clib_scheme \<Rightarrow> int result" where
  "mysql_errno api p s =
     (if p = None then Inr (c_errno api p (lib s))
      else bindE (use_block (mysqls s) p) (\<lambda>_. Inr (c_errno api p (lib s))))"

definition mysql_error :: "'w mysql_api \<Rightarrow> ptr \<Rightarrow> ('w, 'z) clib_scheme \<Rightarrow> string result" where
  "mysql_error api p s =
     (if p = None then Inr (c_error api p (lib s))
      else bindE (use_block (mysqls s) p) (\<lambda>_. Inr (c_error api p (lib s))))"

lemma on_block_Inr:
  "on_block live p f s = Inr (a, t) \<longleftrightarrow>
   (\<exists>b. p = Some b \<and> b \<in> live \<and> a = fst (f b (lib s)) \<and> t = s\<lparr>lib := snd (f b (lib s))\<rparr>)"
  by (auto simp: on_block_def bindE_Inr_iff use_block_Inr split_beta Let_def)

lemma on_block_live [simp]:
  "b \<in> live \<Longrightarrow> on_block live (Some b) f s = Inr (fst (f b (lib s)), s\<lparr>lib := snd (f b (lib s))\<rparr>)"
  by (simp add: on_block_def split: prod.splits)

lemma on_block_dead [simp]:
  "b \<notin> live \<Longrightarrow> on_block live (Some b) f s = Inl Use_after_free"
  "on_block live None f s = Inl Null_dereference"
  by (simp_all add: on_block_def)

lemma mysql_close_simps [simp]:
  "mysql_close api None s = Inr s"
  "b \<in> mysqls s \<Longrightarrow> mysql_close api (Some b) s =
     Inr (s\<lparr>lib := c_close api b (lib s), mysqls := mysqls s - {b}\<rparr>)"
  "b \<notin> mysqls s \<Longrightarrow> mysql_close api (Some b) s = Inl Use_after_free"
  by (simp_all add: mysql_close_def)

lemma mysql_error_simps [simp]:
  "mysql_error api None s = Inr (c_error api None (lib s))"
  "b \<in> mysqls s \<Longrightarrow> mysql_error api (Some b) s = Inr (c_error api (Some b) (lib s))"
  "b \<notin> mysqls s \<Longrightarrow> mysql_error api (Some b) s = Inl Use_after_free"
  "mysql_errno api None s = Inr (c_errno api None (lib s))"
  "b \<in> mysqls s \<Longrightarrow> mysql_errno api (Some b) s = Inr (c_errno api (Some b) (lib s))"
  "b \<notin> mysqls s \<Longrightarrow> mysql_errno api (Some b) s = Inl Use_after_free"
  by (simp_all add: mysql_error_def mysql_errno_def)

end
