(* ===== verification/Mysql_Executor.thy ===== *)
theory Mysql_Executor
  imports Mysql_Api
begin

text \<open>
  The connection life cycle of \<^verbatim>\<open>executor/mysql_executor.{h,cc}\<close>: the \<^verbatim>\<open>MysqlExecutor\<close> objects
  and their reference counts, \<^verbatim>\<open>Connect\<close>, \<^verbatim>\<open>Close\<close>, \<^verbatim>\<open>CheckAlive\<close>, the reconnect loop and the
  destructor. Queries are in \<open>Mysql_Query\<close>. Executors are shared (a pool and its users hold
  \<^verbatim>\<open>RefPtr\<close>s to them), so they live in a store \<open>execs\<close> and are named by their block.
\<close>

section \<open>State\<close>

record executor =
  is_connected :: bool
  auto_commit :: bool
  mysql :: ptr
  m_alivetime :: u64
  executor_id :: u64
  conn_option :: MysqlConnOption
  refcount :: nat

record 'w sys = "'w clib" +
  execs :: "nat \<rightharpoonup> executor"

definition get_exec :: "nat \<Rightarrow> 'w sys \<Rightarrow> executor result" where
  "get_exec r s = (case execs s r of None \<Rightarrow> Inl Use_after_free | Some e \<Rightarrow> Inr e)"

definition put_exec :: "nat \<Rightarrow> executor \<Rightarrow> 'w sys \<Rightarrow> 'w sys" where
  "put_exec r e s = s\<lparr>execs := (execs s)(r \<mapsto> e)\<rparr>"

definition deref :: "ptr \<Rightarrow> nat result" where
  "deref p = (case p of None \<Rightarrow> Inl Null_dereference | Some r \<Rightarrow> Inr r)"

section \<open>Construction, connection, closing\<close>

definition TRPC_MYSQL_API_TIMEOUT :: u32 where "TRPC_MYSQL_API_TIMEOUT = 5"
definition RECONNECT_INIT_RETRY_INTERVAL :: nat where "RECONNECT_INIT_RETRY_INTERVAL = 100"
definition RECONNECT_MAX_RETRY :: nat where "RECONNECT_MAX_RETRY = 5"

text \<open>The constructor, run by \<^verbatim>\<open>MakeRefCounted\<close>: the new object has one reference.\<close>

definition MysqlExecutor_new ::
  "'w mysql_api \<Rightarrow> MysqlConnOption \<Rightarrow> 'w sys \<Rightarrow> (nat \<times> 'w sys) result" where
  "MysqlExecutor_new api opt s =
     (let r = next_block s;
          s = s\<lparr>next_block := Suc r\<rparr>;
          (p, s) = mysql_init api s;
          opts = (\<lambda>h w.
            let w = c_set_character_set api h (char_set opt) w;
                w = c_options api h CONNECT_TIMEOUT TRPC_MYSQL_API_TIMEOUT w;
                w = c_options api h READ_TIMEOUT TRPC_MYSQL_API_TIMEOUT w;
                w = c_options api h WRITE_TIMEOUT TRPC_MYSQL_API_TIMEOUT w
            in ((), w))
      in bindE (mysql_call p opts s) (\<lambda>(_, s).
           Inr (r, put_exec r
             \<lparr>is_connected = False, auto_commit = True, mysql = p, m_alivetime = 0,
              executor_id = 0, conn_option = opt, refcount = 1\<rparr> s)))"

definition Connect :: "'w mysql_api \<Rightarrow> nat \<Rightarrow> 'w sys \<Rightarrow> (bool \<times> 'w sys) result" where
  "Connect api r s =
     bindE (get_exec r s) (\<lambda>e.
       if is_connected e then Inr (True, s)
       else
         let (p, s) = (if mysql e = None then mysql_init api s else (mysql e, s));
             e = e\<lparr>mysql := p\<rparr>
         in bindE (mysql_call p (\<lambda>h. c_real_connect api h (conn_option e)) s) (\<lambda>(ret, s).
              if \<not> ret
              then bindE (mysql_close api p s) (\<lambda>s.
                     Inr (False, put_exec r (e\<lparr>is_connected := False\<rparr>) s))
              else Inr (True, put_exec r (e\<lparr>is_connected := True\<rparr>) s)))"

definition Close :: "'w mysql_api \<Rightarrow> nat \<Rightarrow> 'w sys \<Rightarrow> 'w sys result" where
  "Close api r s =
     bindE (get_exec r s) (\<lambda>e.
       if mysql e \<noteq> None \<and> is_connected e
       then bindE (mysql_close api (mysql e) s) (\<lambda>s.
              Inr (put_exec r (e\<lparr>mysql := None, is_connected := False\<rparr>) s))
       else Inr (put_exec r (e\<lparr>is_connected := False\<rparr>) s))"

text \<open>\<^verbatim>\<open>~MysqlExecutor\<close>: the assertion, then \<^verbatim>\<open>Close\<close>; the object is gone afterwards.\<close>

definition MysqlExecutor_destroy :: "'w mysql_api \<Rightarrow> nat \<Rightarrow> 'w sys \<Rightarrow> 'w sys result" where
  "MysqlExecutor_destroy api r s =
     bindE (get_exec r s) (\<lambda>e.
     bindE (assertE (\<not> is_connected e)) (\<lambda>_.
     bindE (Close api r s) (\<lambda>s.
       Inr (s\<lparr>execs := (execs s)(r := None)\<rparr>))))"

definition CheckAlive :: "'w mysql_api \<Rightarrow> nat \<Rightarrow> 'w sys \<Rightarrow> (bool \<times> 'w sys) result" where
  "CheckAlive api r s =
     bindE (get_exec r s) (\<lambda>e.
       if \<not> is_connected e then Inr (False, s)
       else if mysql e \<noteq> None
       then bindE (mysql_call (mysql e) (c_ping api) s) (\<lambda>(ret, s).
              if ret = 0 then Inr (True, s)
              else Inr (False, put_exec r (e\<lparr>is_connected := False\<rparr>) s))
       else Inr (False, put_exec r (e\<lparr>is_connected := False\<rparr>) s))"

definition Reconnect :: "'w mysql_api \<Rightarrow> nat \<Rightarrow> 'w sys \<Rightarrow> (bool \<times> 'w sys) result" where
  "Reconnect api r s = Connect api r s"

text \<open>The retry loop: \<open>n\<close> rounds are left and the next pause is \<open>retry_interval\<close>.\<close>

fun reconnect_loop ::
  "'w mysql_api \<Rightarrow> nat \<Rightarrow> nat \<Rightarrow> nat \<Rightarrow> 'w sys \<Rightarrow> (bool \<times> 'w sys) result" where
  "reconnect_loop api r 0 retry_interval s = Inr (False, s)"
| "reconnect_loop api r (Suc n) retry_interval s =
     bindE (Reconnect api r s) (\<lambda>(ok, s).
       if ok then Inr (True, s)
       else reconnect_loop api r n (min (retry_interval * 2) 3000)
              (s\<lparr>lib := sleep_ms api retry_interval (lib s)\<rparr>))"

definition StartReconnect :: "'w mysql_api \<Rightarrow> nat \<Rightarrow> 'w sys \<Rightarrow> (bool \<times> 'w sys) result" where
  "StartReconnect api r s =
     reconnect_loop api r RECONNECT_MAX_RETRY RECONNECT_INIT_RETRY_INTERVAL s"

definition AutoCommit :: "'w mysql_api \<Rightarrow> nat \<Rightarrow> bool \<Rightarrow> 'w sys \<Rightarrow> (bool \<times> 'w sys) result" where
  "AutoCommit api r mode s =
     bindE (get_exec r s) (\<lambda>e.
     bindE (mysql_call (mysql e) (\<lambda>h. c_autocommit api h mode) s) (\<lambda>(err, s).
       if err then Inr (False, s)
       else Inr (True, put_exec r (e\<lparr>auto_commit := mode\<rparr>) s)))"

section \<open>Small members\<close>

definition GetAliveTime :: "'w mysql_api \<Rightarrow> nat \<Rightarrow> 'w sys \<Rightarrow> u64 result" where
  "GetAliveTime api r s =
     bindE (get_exec r s) (\<lambda>e. Inr (steady_ms api (lib s) - m_alivetime e))"

definition RefreshAliveTime :: "'w mysql_api \<Rightarrow> nat \<Rightarrow> 'w sys \<Rightarrow> 'w sys result" where
  "RefreshAliveTime api r s =
     bindE (get_exec r s) (\<lambda>e. Inr (put_exec r (e\<lparr>m_alivetime := steady_ms api (lib s)\<rparr>) s))"

definition IsConnected :: "nat \<Rightarrow> 'w sys \<Rightarrow> bool result" where
  "IsConnected r s = bindE (get_exec r s) (\<lambda>e. Inr (is_connected e))"

definition SetExecutorId :: "nat \<Rightarrow> u64 \<Rightarrow> 'w sys \<Rightarrow> 'w sys result" where
  "SetExecutorId r eid s = bindE (get_exec r s) (\<lambda>e. Inr (put_exec r (e\<lparr>executor_id := eid\<rparr>) s))"

definition GetExecutorId :: "nat \<Rightarrow> 'w sys \<Rightarrow> u64 result" where
  "GetExecutorId r s = bindE (get_exec r s) (\<lambda>e. Inr (executor_id e))"

definition GetIp :: "nat \<Rightarrow> 'w sys \<Rightarrow> string result" where
  "GetIp r s = bindE (get_exec r s) (\<lambda>e. Inr (hostname (conn_option e)))"

definition GetPort :: "nat \<Rightarrow> 'w sys \<Rightarrow> u16 result" where
  "GetPort r s = bindE (get_exec r s) (\<lambda>e. Inr (port (conn_option e)))"

definition GetErrorNumber :: "'w mysql_api \<Rightarrow> nat \<Rightarrow> 'w sys \<Rightarrow> int result" where
  "GetErrorNumber api r s = bindE (get_exec r s) (\<lambda>e. mysql_errno api (mysql e) s)"

definition GetErrorMessage :: "'w mysql_api \<Rightarrow> nat \<Rightarrow> 'w sys \<Rightarrow> string result" where
  "GetErrorMessage api r s = bindE (get_exec r s) (\<lambda>e. mysql_error api (mysql e) s)"

text \<open>\<^verbatim>\<open>RefPtr<MysqlExecutor>\<close>: copying one adds a reference, destroying the last one runs the
  destructor.\<close>

definition ref_copy :: "nat \<Rightarrow> 'w sys \<Rightarrow> 'w sys result" where
  "ref_copy r s = bindE (get_exec r s) (\<lambda>e. Inr (put_exec r (e\<lparr>refcount := Suc (refcount e)\<rparr>) s))"

definition ref_drop :: "'w mysql_api \<Rightarrow> ptr \<Rightarrow> 'w sys \<Rightarrow> 'w sys result" where
  "ref_drop api p s =
     (case p of None \<Rightarrow> Inr s
      | Some r \<Rightarrow> bindE (get_exec r s) (\<lambda>e.
          if refcount e \<le> 1 then MysqlExecutor_destroy api r s
          else Inr (put_exec r (e\<lparr>refcount := refcount e - 1\<rparr>) s)))"

section \<open>Basic facts\<close>

lemma get_exec_Some [simp]: "execs s r = Some e \<Longrightarrow> get_exec r s = Inr e"
  by (simp add: get_exec_def)

lemma get_exec_None [simp]: "execs s r = None \<Longrightarrow> get_exec r s = Inl Use_after_free"
  by (simp add: get_exec_def)

lemma get_exec_Inr: "get_exec r s = Inr e \<longleftrightarrow> execs s r = Some e"
  by (simp add: get_exec_def split: option.splits)

lemma put_exec_simps [simp]:
  "execs (put_exec r e s) = (execs s)(r \<mapsto> e)"
  "lib (put_exec r e s) = lib s"
  "next_block (put_exec r e s) = next_block s"
  "mysqls (put_exec r e s) = mysqls s"
  "stmts (put_exec r e s) = stmts s"
  "ress (put_exec r e s) = ress s"
  by (simp_all add: put_exec_def)

lemma sys_eqI:
  fixes s t :: "'w sys"
  assumes "lib s = lib t" "next_block s = next_block t" "mysqls s = mysqls t" "stmts s = stmts t"
    "ress s = ress t" "execs s = execs t"
  shows "s = t"
  using assms by simp

lemma put_exec_same: "execs s r = Some e \<Longrightarrow> put_exec r e s = s"
  by (rule sys_eqI) (simp_all add: fun_upd_idem)

text \<open>Each operation, on an executor whose record is known.\<close>

lemma Connect_connected: "execs s r = Some e \<Longrightarrow> is_connected e \<Longrightarrow> Connect api r s = Inr (True, s)"
  by (simp add: Connect_def)

lemma Connect_live:
  assumes "execs s r = Some e" and "\<not> is_connected e" and "mysql e = Some h" and "h \<in> mysqls s"
  shows "Connect api r s =
    (let (ret, w) = c_real_connect api h (conn_option e) (lib s)
     in if ret then Inr (True, put_exec r (e\<lparr>is_connected := True\<rparr>) (s\<lparr>lib := w\<rparr>))
        else Inr (False, put_exec r (e\<lparr>is_connected := False\<rparr>)
               (s\<lparr>lib := c_close api h w, mysqls := mysqls s - {h}\<rparr>)))"
proof -
  have same: "e\<lparr>mysql := Some h\<rparr> = e" using assms(3) by simp
  show ?thesis
    by (simp add: Connect_def mysql_call_def split_beta Let_def assms same del: executor.update_convs)
qed

lemma Connect_dangling:
  assumes "execs s r = Some e" and "\<not> is_connected e" and "mysql e = Some h" and "h \<notin> mysqls s"
  shows "Connect api r s = Inl Use_after_free"
  using assms by (simp add: Connect_def mysql_call_def)

lemma Close_eq:
  assumes "execs s r = Some e" and "is_connected e" and "mysql e = Some h" and "h \<in> mysqls s"
  shows "Close api r s = Inr (put_exec r (e\<lparr>mysql := None, is_connected := False\<rparr>)
    (s\<lparr>lib := c_close api h (lib s), mysqls := mysqls s - {h}\<rparr>))"
  using assms by (simp add: Close_def)

lemma Close_disconnected:
  assumes "execs s r = Some e" and "\<not> is_connected e"
  shows "Close api r s = Inr s"
proof -
  have "e\<lparr>is_connected := False\<rparr> = e" using assms(2) by simp
  with assms show ?thesis by (simp add: Close_def put_exec_same)
qed

lemma CheckAlive_disconnected:
  "execs s r = Some e \<Longrightarrow> \<not> is_connected e \<Longrightarrow> CheckAlive api r s = Inr (False, s)"
  by (simp add: CheckAlive_def)

lemma CheckAlive_live:
  assumes "execs s r = Some e" and "is_connected e" and "mysql e = Some h" and "h \<in> mysqls s"
  shows "CheckAlive api r s =
    (let (ret, w) = c_ping api h (lib s)
     in if ret = 0 then Inr (True, s\<lparr>lib := w\<rparr>)
        else Inr (False, put_exec r (e\<lparr>is_connected := False\<rparr>) (s\<lparr>lib := w\<rparr>)))"
  using assms by (simp add: CheckAlive_def mysql_call_def split_beta Let_def)

lemma destroy_connected:
  "execs s r = Some e \<Longrightarrow> is_connected e \<Longrightarrow> MysqlExecutor_destroy api r s = Inl Assertion_failed"
  by (simp add: MysqlExecutor_destroy_def)

lemma destroy_disconnected:
  "execs s r = Some e \<Longrightarrow> \<not> is_connected e \<Longrightarrow>
    MysqlExecutor_destroy api r s = Inr (s\<lparr>execs := (execs s)(r := None)\<rparr>)"
  by (simp add: MysqlExecutor_destroy_def Close_disconnected)

section \<open>Well-formed connections\<close>

text \<open>
  \<open>wf_on R\<close>: the executors in \<open>R\<close> exist, the handle one stores is live, a connected one has
  a handle, no two share one, and blocks in use are below the allocator's next one. An
  executor whose \<^verbatim>\<open>Connect\<close> failed keeps a dangling handle and drops out of \<open>R\<close>.
\<close>

definition handle :: "'w sys \<Rightarrow> nat \<Rightarrow> ptr" where
  "handle s r = (case execs s r of None \<Rightarrow> None | Some e \<Rightarrow> mysql e)"

definition connected :: "'w sys \<Rightarrow> nat \<Rightarrow> bool" where
  "connected s r = (case execs s r of None \<Rightarrow> False | Some e \<Rightarrow> is_connected e)"

definition wf_on :: "nat set \<Rightarrow> 'w sys \<Rightarrow> bool" where
  "wf_on R s \<longleftrightarrow>
     R \<subseteq> dom (execs s) \<and>
     (\<forall>r \<in> R. \<forall>h. handle s r = Some h \<longrightarrow> h \<in> mysqls s) \<and>
     (\<forall>r \<in> R. connected s r \<longrightarrow> handle s r \<noteq> None) \<and>
     (\<forall>r \<in> R. \<forall>r' \<in> R. \<forall>h. handle s r = Some h \<longrightarrow> handle s r' = Some h \<longrightarrow> r = r') \<and>
     (\<forall>h \<in> mysqls s. h < next_block s) \<and> (\<forall>r \<in> dom (execs s). r < next_block s)"

lemma handle_simps [simp]:
  "handle (put_exec r e s) = (handle s)(r := mysql e)"
  "connected (put_exec r e s) = (connected s)(r := is_connected e)"
  "handle (s\<lparr>lib := w\<rparr>) = handle s"
  "connected (s\<lparr>lib := w\<rparr>) = connected s"
  "handle (s\<lparr>mysqls := H\<rparr>) = handle s"
  "connected (s\<lparr>mysqls := H\<rparr>) = connected s"
  "handle (s\<lparr>next_block := n\<rparr>) = handle s"
  "connected (s\<lparr>next_block := n\<rparr>) = connected s"
  "handle (s\<lparr>execs := E\<rparr>) = (\<lambda>r. case E r of None \<Rightarrow> None | Some e \<Rightarrow> mysql e)"
  "connected (s\<lparr>execs := E\<rparr>) = (\<lambda>r. case E r of None \<Rightarrow> False | Some e \<Rightarrow> is_connected e)"
  by (auto simp: handle_def connected_def fun_eq_iff)

lemma handle_Some [simp]: "execs s r = Some e \<Longrightarrow> handle s r = mysql e"
  by (simp add: handle_def)

lemma connected_Some [simp]: "execs s r = Some e \<Longrightarrow> connected s r = is_connected e"
  by (simp add: connected_def)

lemma wf_on_cases:
  assumes "wf_on R s" and "r \<in> R"
  obtains (no_handle) e where "execs s r = Some e" "mysql e = None" "\<not> is_connected e"
  | (live) e h where "execs s r = Some e" "mysql e = Some h" "h \<in> mysqls s"
proof -
  from assms obtain e where e: "execs s r = Some e" by (auto simp: wf_on_def)
  show thesis
  proof (cases "mysql e")
    case None
    with assms e no_handle show thesis by (auto simp: wf_on_def)
  next
    case (Some h)
    with assms e live show thesis by (auto simp: wf_on_def)
  qed
qed

lemma wf_on_subset: "wf_on R s \<Longrightarrow> R' \<subseteq> R \<Longrightarrow> wf_on R' s"
  unfolding wf_on_def by (meson subsetD subset_trans)

lemma wf_on_lib [simp]: "wf_on R (s\<lparr>lib := w\<rparr>) = wf_on R s"
  by (simp add: wf_on_def)

text \<open>A state in which every executor of \<open>R\<close> kept its handle or lost it.\<close>

lemma wf_onI:
  assumes "R \<subseteq> dom (execs t)" and "\<And>r h. r \<in> R \<Longrightarrow> handle t r = Some h \<Longrightarrow> h \<in> mysqls t"
    and "\<And>r. r \<in> R \<Longrightarrow> connected t r \<Longrightarrow> handle t r \<noteq> None"
    and "\<And>r r' h. r \<in> R \<Longrightarrow> r' \<in> R \<Longrightarrow> handle t r = Some h \<Longrightarrow> handle t r' = Some h \<Longrightarrow> r = r'"
    and "\<And>h. h \<in> mysqls t \<Longrightarrow> h < next_block t"
    and "\<And>r. r \<in> dom (execs t) \<Longrightarrow> r < next_block t"
  shows "wf_on R t"
  unfolding wf_on_def using assms by (intro conjI ballI allI impI) assumption?

lemma wf_onD:
  assumes "wf_on R s"
  shows "R \<subseteq> dom (execs s)" and "r \<in> R \<Longrightarrow> handle s r = Some h \<Longrightarrow> h \<in> mysqls s"
    and "r \<in> R \<Longrightarrow> connected s r \<Longrightarrow> handle s r \<noteq> None"
    and "r \<in> R \<Longrightarrow> r' \<in> R \<Longrightarrow> handle s r = Some h \<Longrightarrow> handle s r' = Some h \<Longrightarrow> r = r'"
    and "h \<in> mysqls s \<Longrightarrow> h < next_block s" and "r \<in> dom (execs s) \<Longrightarrow> r < next_block s"
  using assms unfolding wf_on_def by simp_all

lemma wf_on_fewer_handles:
  assumes wf: "wf_on R s" and R': "R' \<subseteq> R" and "R' \<subseteq> dom (execs t)"
    and H: "\<And>r h. r \<in> R' \<Longrightarrow> handle t r = Some h \<Longrightarrow> handle s r = Some h \<and> h \<in> mysqls t"
    and "\<And>r. r \<in> R' \<Longrightarrow> connected t r \<Longrightarrow> handle t r \<noteq> None"
    and "\<And>h. h \<in> mysqls t \<Longrightarrow> h < next_block t"
    and "\<And>r. r \<in> dom (execs t) \<Longrightarrow> r < next_block t"
  shows "wf_on R' t"
proof (rule wf_onI)
  fix r r' h assume "r \<in> R'" "r' \<in> R'" "handle t r = Some h" "handle t r' = Some h"
  then show "r = r'" using wf_onD(4) [OF wf, of r r' h] H R' by auto
qed (use assms in auto)

lemma wf_on_blocks:
  assumes "wf_on R s"
  shows "h \<in> mysqls s \<Longrightarrow> h < next_block s" and "execs s r = Some e \<Longrightarrow> r < next_block s"
  using assms by (auto simp: wf_on_def)

lemma wf_on_put:
  assumes wf: "wf_on R s" and e: "execs s r = Some e" and h: "mysql e' = None \<or> mysql e' = mysql e"
    and c: "is_connected e' \<longrightarrow> mysql e' \<noteq> None"
  shows "wf_on R (put_exec r e' s)"
proof (rule wf_on_fewer_handles [OF wf subset_refl])
  show "R \<subseteq> dom (execs (put_exec r e' s))" using wf by (auto simp: wf_on_def)
next
  fix x k assume "x \<in> R" and "handle (put_exec r e' s) x = Some k"
  then show "handle s x = Some k \<and> k \<in> mysqls (put_exec r e' s)"
    using wf h e by (auto simp: wf_on_def split: if_splits)
next
  fix x assume "x \<in> R" and "connected (put_exec r e' s) x"
  then show "handle (put_exec r e' s) x \<noteq> None"
    using wf c by (auto simp: wf_on_def split: if_splits)
qed (use wf_on_blocks [OF wf] e in \<open>auto split: if_splits\<close>)

text \<open>Freeing the handle of one executor leaves the others as they were.\<close>

lemma wf_on_free:
  assumes wf: "wf_on R s" and r: "r \<in> R" and h: "handle s r = Some h"
  shows "wf_on (R - {r}) (s\<lparr>lib := w, mysqls := mysqls s - {h}\<rparr>)"
proof (rule wf_on_fewer_handles [OF wf])
  fix x k assume "x \<in> R - {r}" and "handle (s\<lparr>lib := w, mysqls := mysqls s - {h}\<rparr>) x = Some k"
  then show "handle s x = Some k \<and> k \<in> mysqls (s\<lparr>lib := w, mysqls := mysqls s - {h}\<rparr>)"
    using wf r h by (auto simp: wf_on_def)
qed (use wf in \<open>auto simp: wf_on_def\<close>)

lemma wf_on_add:
  assumes wf: "wf_on (R - {r}) s" and r: "r \<in> dom (execs s)" and c: "\<not> connected s r"
    and h: "handle s r = None"
  shows "wf_on R s"
proof (rule wf_onI)
  show "R \<subseteq> dom (execs s)" using wf_onD(1) [OF wf] r by auto
  have other: "x \<in> R - {r}" if "x \<in> R" "handle s x = Some k" for x k using that h by auto
  show "k \<in> mysqls s" if "x \<in> R" "handle s x = Some k" for x k
    using wf_onD(2) [OF wf other] that by blast
  show "x = x'" if "x \<in> R" "x' \<in> R" "handle s x = Some k" "handle s x' = Some k" for x x' k
    using wf_onD(4) [OF wf other other] that by blast
  show "handle s x \<noteq> None" if "x \<in> R" "connected s x" for x
    using wf_onD(3) [OF wf, of x] that c by (cases "x = r") auto
qed (use wf_onD(5,6) [OF wf] in auto)

section \<open>The operations keep connections well-formed\<close>

definition closed :: "executor \<Rightarrow> executor" where
  "closed e = e\<lparr>mysql := (if is_connected e then None else mysql e), is_connected := False\<rparr>"

text \<open>\<^verbatim>\<open>mysql_init\<close> always finds memory.\<close>

definition no_oom :: "'w mysql_api \<Rightarrow> bool" where
  "no_oom api \<longleftrightarrow> (\<forall>b w. fst (c_init api b w))"

lemma Close_spec:
  assumes wf: "wf_on R s" and r: "r \<in> R"
  obtains e t where "execs s r = Some e" and "Close api r s = Inr t" and "wf_on R t"
    and "execs t = (execs s)(r \<mapsto> closed e)" and "next_block t = next_block s"
  using wf r
proof (cases rule: wf_on_cases)
  case (no_handle e)
  then have "closed e = e" by (simp add: closed_def)
  with no_handle wf that show ?thesis by (simp add: Close_disconnected fun_upd_idem)
next
  case (live e h)
  show ?thesis
  proof (cases "is_connected e")
    case False
    then have "closed e = e" by (simp add: closed_def)
    with live False wf that show ?thesis by (simp add: Close_disconnected fun_upd_idem)
  next
    case True
    let ?s = "s\<lparr>lib := c_close api h (lib s), mysqls := mysqls s - {h}\<rparr>"
    let ?t = "put_exec r (closed e) ?s"
    have e: "closed e = e\<lparr>mysql := None, is_connected := False\<rparr>" using True by (simp add: closed_def)
    have "wf_on (R - {r}) ?t"
      by (rule wf_on_put [OF wf_on_free [OF wf r]]) (use live e in simp_all)
    then have "wf_on R ?t" by (rule wf_on_add) (use e in simp_all)
    with live True e that show ?thesis by (simp add: Close_eq)
  qed
qed

lemma CheckAlive_spec:
  assumes wf: "wf_on R s" and r: "r \<in> R"
  obtains e t b where "execs s r = Some e" and "CheckAlive api r s = Inr (b, t)" and "wf_on R t"
    and "execs t = (execs s)(r \<mapsto> e\<lparr>is_connected := b\<rparr>)" and "b \<Longrightarrow> is_connected e"
    and "mysqls t = mysqls s" and "next_block t = next_block s"
  using wf r
proof (cases rule: wf_on_cases)
  case (no_handle e)
  then have "e\<lparr>is_connected := False\<rparr> = e" by simp
  with no_handle wf that [of e False s] show ?thesis by (simp add: CheckAlive_disconnected fun_upd_idem)
next
  case (live e h)
  show ?thesis
  proof (cases "is_connected e")
    case False
    then have "e\<lparr>is_connected := False\<rparr> = e" by simp
    with live False wf that [of e False s] show ?thesis
      by (simp add: CheckAlive_disconnected fun_upd_idem)
  next
    case True
    obtain ret w where ping: "c_ping api h (lib s) = (ret, w)" by (cases "c_ping api h (lib s)")
    show ?thesis
    proof (cases "ret = 0")
      case True
      have "e\<lparr>is_connected := True\<rparr> = e" using \<open>is_connected e\<close> by simp
      with True live \<open>is_connected e\<close> ping wf that [of e True "s\<lparr>lib := w\<rparr>"] show ?thesis
        by (simp add: CheckAlive_live fun_upd_idem)
    next
      case False
      have "wf_on R (put_exec r (e\<lparr>is_connected := False\<rparr>) (s\<lparr>lib := w\<rparr>))"
        using wf_on_put [of R "s\<lparr>lib := w\<rparr>" r e] wf live by simp
      with False live \<open>is_connected e\<close> ping that [of e False] show ?thesis
        by (simp add: CheckAlive_live)
    qed
  qed
qed

lemma wf_on_new_handle:
  assumes wf: "wf_on R s" and e: "execs s r = Some e" and h: "h = next_block s"
  shows "wf_on (insert r R) (put_exec r (e\<lparr>mysql := Some h, is_connected := c\<rparr>)
    (s\<lparr>lib := w, next_block := Suc h, mysqls := insert h (mysqls s)\<rparr>))"
    (is "wf_on _ ?t")
proof (rule wf_onI)
  note D = wf_onD [OF wf]
  show "insert r R \<subseteq> dom (execs ?t)" using D(1) by auto
  have fresh: "handle s x \<noteq> Some h" if "x \<in> R" for x
    using D(2,5) that h by fastforce
  show "k \<in> mysqls ?t" if "x \<in> insert r R" "handle ?t x = Some k" for x k
    using that D(2) by (auto split: if_splits)
  show "handle ?t x \<noteq> None" if "x \<in> insert r R" "connected ?t x" for x
    using that D(3) by (auto split: if_splits)
  show "x = x'" if "x \<in> insert r R" "x' \<in> insert r R" "handle ?t x = Some k" "handle ?t x' = Some k"
    for x x' k
    using that D(4) fresh by (auto split: if_splits)
  show "k < next_block ?t" if "k \<in> mysqls ?t" for k
    using that D(5) h by (auto simp: less_Suc_eq)
  show "x < next_block ?t" if "x \<in> dom (execs ?t)" for x
    using that D(6) e h by (auto simp: less_Suc_eq split: if_splits)
qed

lemma New_spec:
  assumes wf: "wf_on R s" and "no_oom api"
  obtains t e where "MysqlExecutor_new api opt s = Inr (next_block s, t)"
    and "wf_on (insert (next_block s) R) t" and "execs t = (execs s)(next_block s \<mapsto> e)"
    and "\<not> is_connected e" and "conn_option e = opt" and "refcount e = 1"
    and "mysql e \<noteq> None" and "next_block t = next_block s + 2"
proof -
  let ?r = "next_block s" and ?h = "Suc (next_block s)"
  define e where "e = \<lparr>is_connected = False, auto_commit = True, mysql = Some ?h, m_alivetime = 0,
    executor_id = 0, conn_option = opt, refcount = 1\<rparr>"
  let ?s = "put_exec ?r e (s\<lparr>next_block := ?h\<rparr>)"
  note D = wf_onD [OF wf]
  have r: "?r \<notin> R" using D(1,6) by fastforce
  have "wf_on R ?s"
  proof (rule wf_onI)
    show "x < next_block ?s" if "x \<in> dom (execs ?s)" for x
      using that D(6) [of x] by (auto simp: less_Suc_eq split: if_splits)
    show "R \<subseteq> dom (execs ?s)" using D(1) by auto
    show "k < next_block ?s" if "k \<in> mysqls ?s" for k using that D(5) by (auto simp: less_Suc_eq)
    show "handle ?s x \<noteq> None" if "x \<in> R" "connected ?s x" for x
      using that D(3) r by (auto split: if_splits)
    show "k \<in> mysqls ?s" if "x \<in> R" "handle ?s x = Some k" for x k
      using that D(2) r by (auto split: if_splits)
    show "x = x'" if "x \<in> R" "x' \<in> R" "handle ?s x = Some k" "handle ?s x' = Some k" for x x' k
      using that D(4) r by (auto split: if_splits)
  qed
  then have w: "wf_on (insert ?r R) (put_exec ?r e
      (s\<lparr>lib := w, next_block := ?r + 2, mysqls := insert ?h (mysqls s)\<rparr>))" for w
    using wf_on_new_handle [of R ?s ?r e ?h False w] by (simp add: e_def put_exec_def)
  have "fst (c_init api ?h (lib s))" using assms(2) by (simp add: no_oom_def)
  moreover have sel: "\<not> is_connected e" "conn_option e = opt" "refcount e = 1" "mysql e \<noteq> None"
    by (simp_all add: e_def)
  moreover define w0 where "w0 =
    c_options api ?h WRITE_TIMEOUT TRPC_MYSQL_API_TIMEOUT
      (c_options api ?h READ_TIMEOUT TRPC_MYSQL_API_TIMEOUT
        (c_options api ?h CONNECT_TIMEOUT TRPC_MYSQL_API_TIMEOUT
          (c_set_character_set api ?h (char_set opt) (snd (c_init api ?h (lib s))))))"
  ultimately have "MysqlExecutor_new api opt s = Inr (?r, put_exec ?r e
      (s\<lparr>lib := w0, next_block := ?r + 2, mysqls := insert ?h (mysqls s)\<rparr>))"
    unfolding MysqlExecutor_new_def mysql_init_def
    by (simp add: e_def mysql_call_def split_beta Let_def)
  then show thesis
    using that [OF _ w _ sel] by simp
qed

text \<open>Connecting an executor that has a handle, and one that has none.\<close>

lemma Connect_on_handle:
  assumes wf: "wf_on R s" and r: "r \<in> R"
    and live: "execs s r = Some e" "mysql e = Some h" "h \<in> mysqls s" and nc: "\<not> is_connected e"
  shows "\<exists>b t. Connect api r s = Inr (b, t) \<and> execs t = (execs s)(r \<mapsto> e\<lparr>is_connected := b\<rparr>) \<and>
    wf_on (if b then R else R - {r}) t \<and> (\<not> b \<longrightarrow> h \<notin> mysqls t)"
proof -
  obtain ret w where conn: "c_real_connect api h (conn_option e) (lib s) = (ret, w)"
    by (cases "c_real_connect api h (conn_option e) (lib s)")
  show ?thesis
  proof (cases ret)
    case True
    have "wf_on R (put_exec r (e\<lparr>is_connected := True\<rparr>) (s\<lparr>lib := w\<rparr>))"
      by (rule wf_on_put [of R "s\<lparr>lib := w\<rparr>" r e]) (use wf live in simp_all)
    with True live nc conn show ?thesis by (intro exI [of _ True]) (simp add: Connect_live)
  next
    case False
    let ?t = "put_exec r (e\<lparr>is_connected := False\<rparr>)
      (s\<lparr>lib := c_close api h w, mysqls := mysqls s - {h}\<rparr>)"
    have "wf_on (R - {r}) ?t"
      by (rule wf_on_put [where e = e, OF wf_on_free [OF wf r]]) (use live in simp_all)
    with False live nc conn show ?thesis by (intro exI [of _ False]) (simp add: Connect_live)
  qed
qed

lemma Connect_new_handle:
  assumes wf: "wf_on R s" and r: "r \<in> R" and oom: "no_oom api"
    and e: "execs s r = Some e" "mysql e = None" "\<not> is_connected e"
  shows "\<exists>b t. Connect api r s = Inr (b, t) \<and>
    execs t = (execs s)(r \<mapsto> e\<lparr>mysql := Some (next_block s), is_connected := b\<rparr>) \<and>
    wf_on (if b then R else R - {r}) t \<and> (\<not> b \<longrightarrow> next_block s \<notin> mysqls t)"
proof -
  let ?h = "next_block s"
  obtain w where init: "c_init api ?h (lib s) = (True, w)"
    using oom unfolding no_oom_def by (metis (full_types) prod.collapse)
  obtain ret w' where conn: "c_real_connect api ?h (conn_option e) w = (ret, w')"
    by (cases "c_real_connect api ?h (conn_option e) w")
  let ?s = "\<lambda>w. s\<lparr>lib := w, next_block := Suc ?h, mysqls := insert ?h (mysqls s)\<rparr>"
  have ins: "insert r R = R" using r by auto
  have wf1: "wf_on R (put_exec r (e\<lparr>mysql := Some ?h, is_connected := c\<rparr>) (?s u))" for c u
    using wf_on_new_handle [OF wf e(1) refl, of c u] ins by simp
  have fresh: "?h \<notin> mysqls s" using wf_onD(5) [OF wf] by blast
  show ?thesis
  proof (cases ret)
    case True
    then have "Connect api r s =
        Inr (True, put_exec r (e\<lparr>mysql := Some ?h, is_connected := True\<rparr>) (?s w'))"
      using e init conn by (simp add: Connect_def mysql_init_def mysql_call_def Let_def)
    with wf1 show ?thesis by (intro exI [of _ True]) simp
  next
    case False
    let ?t = "put_exec r (e\<lparr>mysql := Some ?h, is_connected := False\<rparr>)
      ((?s (c_close api ?h w'))\<lparr>mysqls := mysqls s - {?h}\<rparr>)"
    have "Connect api r s = Inr (False, ?t)"
      using False e init conn fresh by (simp add: Connect_def mysql_init_def mysql_call_def Let_def)
    moreover have "wf_on (R - {r}) ?t"
    proof (rule wf_on_fewer_handles [OF wf])
      show "x < next_block ?t" if "x \<in> dom (execs ?t)" for x
        using that wf_onD(6) [OF wf] e(1) by (auto simp: less_Suc_eq split: if_splits)
    qed (use wf_onD [OF wf] fresh in \<open>auto simp: less_Suc_eq\<close>)
    ultimately show ?thesis by (intro exI [of _ False]) simp
  qed
qed

lemma Connect_spec:
  assumes wf: "wf_on R s" and r: "r \<in> R" and "no_oom api"
  obtains e e' t b where "execs s r = Some e" and "Connect api r s = Inr (b, t)"
    and "execs t = (execs s)(r \<mapsto> e')" and "is_connected e' = b"
    and "e' = e\<lparr>mysql := mysql e', is_connected := b\<rparr>"
    and "wf_on (if b then R else R - {r}) t"
    and "\<not> b \<Longrightarrow> \<exists>h. mysql e' = Some h \<and> h \<notin> mysqls t"
  using wf r
proof (cases rule: wf_on_cases)
  case (live e h)
  show ?thesis
  proof (cases "is_connected e")
    case True
    with live wf that [of e True s e] show ?thesis by (simp add: Connect_connected fun_upd_idem)
  next
    case False
    with Connect_on_handle [OF wf r live(1-3), of api] live that [of e] show ?thesis by fastforce
  qed
next
  case (no_handle e)
  with Connect_new_handle [OF wf r assms(3) no_handle(1-3)] that [of e] show ?thesis by fastforce
qed

section \<open>References\<close>

lemma ref_copy_eq:
  "execs s r = Some e \<Longrightarrow> ref_copy r s = Inr (put_exec r (e\<lparr>refcount := Suc (refcount e)\<rparr>) s)"
  by (simp add: ref_copy_def)

lemma ref_drop_null [simp]: "ref_drop api None s = Inr s"
  by (simp add: ref_drop_def)

lemma ref_drop_shared:
  "execs s r = Some e \<Longrightarrow> 1 < refcount e \<Longrightarrow>
    ref_drop api (Some r) s = Inr (put_exec r (e\<lparr>refcount := refcount e - 1\<rparr>) s)"
  by (simp add: ref_drop_def)

lemma ref_drop_last:
  "execs s r = Some e \<Longrightarrow> refcount e \<le> 1 \<Longrightarrow> \<not> is_connected e \<Longrightarrow>
    ref_drop api (Some r) s = Inr (s\<lparr>execs := (execs s)(r := None)\<rparr>)"
  by (simp add: ref_drop_def destroy_disconnected)

lemma ref_drop_last_connected:
  "execs s r = Some e \<Longrightarrow> refcount e \<le> 1 \<Longrightarrow> is_connected e \<Longrightarrow>
    ref_drop api (Some r) s = Inl Assertion_failed"
  by (simp add: ref_drop_def destroy_connected)

lemma wf_on_delete:
  assumes wf: "wf_on R s" and r: "r \<notin> R"
  shows "wf_on R (s\<lparr>execs := (execs s)(r := None)\<rparr>)"
proof -
  have same: "handle (s\<lparr>execs := (execs s)(r := None)\<rparr>) x = handle s x"
    "connected (s\<lparr>execs := (execs s)(r := None)\<rparr>) x = connected s x" if "x \<noteq> r" for x
    using that by (simp_all add: handle_def connected_def)
  show ?thesis
  proof (rule wf_on_fewer_handles [OF wf subset_refl])
    show "handle (s\<lparr>execs := (execs s)(r := None)\<rparr>) x \<noteq> None"
      if "x \<in> R" "connected (s\<lparr>execs := (execs s)(r := None)\<rparr>) x" for x
    proof -
      have "x \<noteq> r" using that(1) r by auto
      with that same wf_onD(3) [OF wf] show ?thesis by metis
    qed
    show "handle s x = Some h \<and> h \<in> mysqls (s\<lparr>execs := (execs s)(r := None)\<rparr>)"
      if "x \<in> R" "handle (s\<lparr>execs := (execs s)(r := None)\<rparr>) x = Some h" for x h
    proof -
      have "x \<noteq> r" using that(1) r by auto
      with that same wf_onD(2) [OF wf] show ?thesis by auto
    qed
  qed (use wf_onD [OF wf] r in \<open>auto split: if_splits\<close>)
qed

section \<open>The contract of an operation on one executor\<close>

text \<open>
  What a pool relies on when it runs an operation over the executors it holds: the
  operation returns, keeps the connections well-formed and touches no other executor; a
  closing one leaves its executor disconnected and connects none.
\<close>

locale executor_op =
  fixes op :: "nat \<Rightarrow> 'w sys \<Rightarrow> 'w sys result"
  assumes op_returns: "wf_on R s \<Longrightarrow> r \<in> R \<Longrightarrow> \<exists>t. op r s = Inr t \<and> wf_on R t"
    and op_frame: "op r s = Inr t \<Longrightarrow> r' \<noteq> r \<Longrightarrow> execs t r' = execs s r'"
begin

lemma all_return: "wf_on R s \<Longrightarrow> set rs \<subseteq> R \<Longrightarrow> \<exists>t. foldE op rs s = Inr t \<and> wf_on R t"
proof (induction rs arbitrary: s)
  case Nil
  then show ?case by simp
next
  case (Cons r rs)
  then obtain t where "op r s = Inr t" "wf_on R t" using op_returns by fastforce
  with Cons show ?case by simp
qed

lemma all_frame: "foldE op rs s = Inr t \<Longrightarrow> r' \<notin> set rs \<Longrightarrow> execs t r' = execs s r'"
  by (induction rs arbitrary: s) (auto simp: bindE_Inr_iff dest: op_frame)

end

locale closing_op = executor_op +
  assumes op_closes: "op r s = Inr t \<Longrightarrow> \<not> connected t r"
begin

lemma op_keeps_closed: "op r s = Inr t \<Longrightarrow> \<not> connected s r' \<Longrightarrow> \<not> connected t r'"
  using op_closes [of r s t] op_frame [of r s t r'] by (cases "r' = r") (auto simp: connected_def)

lemma all_keep_closed: "foldE op rs s = Inr t \<Longrightarrow> \<not> connected s r' \<Longrightarrow> \<not> connected t r'"
  by (induction rs arbitrary: s) (auto simp: bindE_Inr_iff dest: op_keeps_closed)

lemma all_closed: "foldE op rs s = Inr t \<Longrightarrow> r \<in> set rs \<Longrightarrow> \<not> connected t r"
  by (induction rs arbitrary: s) (auto simp: bindE_Inr_iff dest: op_closes all_keep_closed)

end

lemma Close_frame: "Close api r s = Inr t \<Longrightarrow> r' \<noteq> r \<Longrightarrow> execs t r' = execs s r'"
  by (auto simp: Close_def mysql_close_def bindE_Inr_iff split: if_splits option.splits)

lemma Close_closes: "Close api r s = Inr t \<Longrightarrow> \<not> connected t r"
  by (auto simp: Close_def bindE_Inr_iff split: if_splits)

interpretation close: closing_op "Close api" for api :: "'w mysql_api"
proof unfold_locales
  fix R r and s :: "'w sys" assume "wf_on R s" "r \<in> R"
  then show "\<exists>t. Close api r s = Inr t \<and> wf_on R t" by (rule Close_spec) blast
qed (auto intro: Close_frame dest: Close_closes)

lemma Refresh_eq:
  "execs s r = Some e \<Longrightarrow> RefreshAliveTime api r s =
    Inr (put_exec r (e\<lparr>m_alivetime := steady_ms api (lib s)\<rparr>) s)"
  by (simp add: RefreshAliveTime_def)

interpretation refresh: executor_op "RefreshAliveTime api" for api :: "'w mysql_api"
proof unfold_locales
  fix R r and s :: "'w sys" assume wf: "wf_on R s" "r \<in> R"
  then obtain e where e: "execs s r = Some e" by (auto simp: wf_on_def)
  have "wf_on R (put_exec r (e\<lparr>m_alivetime := steady_ms api (lib s)\<rparr>) s)"
    by (rule wf_on_put [where e = e, OF wf(1) e]) (use wf_onD(3) [OF wf] e in auto)
  with e show "\<exists>t. RefreshAliveTime api r s = Inr t \<and> wf_on R t" by (simp add: Refresh_eq)
qed (auto simp: RefreshAliveTime_def bindE_Inr_iff)

interpretation copy: executor_op ref_copy
proof unfold_locales
  fix R s r assume wf: "wf_on R s" "r \<in> R"
  then obtain e where e: "execs s r = Some e" by (auto simp: wf_on_def)
  have "wf_on R (put_exec r (e\<lparr>refcount := Suc (refcount e)\<rparr>) s)"
    by (rule wf_on_put [where e = e, OF wf(1) e]) (use wf_onD(3) [OF wf] e in auto)
  with e show "\<exists>t. ref_copy r s = Inr t \<and> wf_on R t" by (simp add: ref_copy_eq)
qed (auto simp: ref_copy_def bindE_Inr_iff)

section \<open>A library for examples\<close>

text \<open>A small client library to run the model on: whether the server is up, the queries
  seen, and a clock.\<close>

record demo_world =
  up :: bool
  seen :: "string list"
  clock :: u64

definition demo_api :: "demo_world mysql_api" where
  "demo_api =
     \<lparr>c_init = (\<lambda>_ w. (True, w)), c_set_character_set = (\<lambda>_ _ w. w), c_options = (\<lambda>_ _ _ w. w),
      c_real_connect = (\<lambda>_ _ w. (up w, w)), c_close = (\<lambda>_ w. w),
      c_ping = (\<lambda>_ w. (if up w then 0 else 1, w)),
      c_errno = (\<lambda>_ w. if up w then 0 else 2003), c_error = (\<lambda>_ w. if up w then [] else ''down''),
      c_autocommit = (\<lambda>_ _ w. (\<not> up w, w)),
      c_real_query = (\<lambda>_ q w. if up w then (0, w\<lparr>seen := seen w @ [q]\<rparr>) else (1, w)),
      c_affected_rows = (\<lambda>_ _. 1), c_store_result = (\<lambda>_ _ w. (up w, w)),
      c_fetch_fields = (\<lambda>_ _. [\<lparr>field_name = ''id'', field_type = MYSQL_TYPE_LONG\<rparr>]),
      c_rows = (\<lambda>_ _. [[Some ''7''], [None]]), c_free_result = (\<lambda>_ w. w),
      s_init = (\<lambda>_ _ w. (True, w)),
      s_prepare = (\<lambda>_ q w. if up w then (0, w\<lparr>seen := seen w @ [q]\<rparr>) else (1, w)),
      s_field_count = (\<lambda>_ _. 1), s_param_count = (\<lambda>_ _. 0), s_bind_param = (\<lambda>_ _ w. (0, w)),
      s_result_metadata = (\<lambda>_ _ w. (True, w)), s_bind_result = (\<lambda>_ w. (0, w)),
      s_execute = (\<lambda>_ w. (if up w then 0 else 1, w)), s_store_result = (\<lambda>_ w. (0, w)),
      s_fetch = (\<lambda>_ w. (No_data, w)), s_fetch_column = (\<lambda>_ _ _ w. (0, w)),
      s_free_result = (\<lambda>_ w. (0, w)), s_close = (\<lambda>_ w. w), s_errno = (\<lambda>_ _. 0),
      s_error = (\<lambda>_ _. []), steady_ms = clock,
      sleep_ms = (\<lambda>n w. w\<lparr>clock := clock w + of_nat n\<rparr>)\<rparr>"

definition demo_exec :: "bool \<Rightarrow> executor" where
  "demo_exec c = \<lparr>is_connected = c, auto_commit = True, mysql = Some 1, m_alivetime = 0,
     executor_id = 0, conn_option = MysqlConnOption_default, refcount = 1\<rparr>"

text \<open>One executor, block 0, with the live handle 1.\<close>

definition demo_sys :: "bool \<Rightarrow> bool \<Rightarrow> demo_world sys" where
  "demo_sys server c =
     \<lparr>lib = \<lparr>up = server, seen = [], clock = 5000\<rparr>, next_block = 2, mysqls = {1}, stmts = {},
      ress = {}, execs = [0 \<mapsto> demo_exec c]\<rparr>"

lemma demo_sys_wf: "wf_on {0} (demo_sys server c)"
  by (auto simp: wf_on_def demo_sys_def demo_exec_def handle_def split: if_splits)

lemma demo_no_oom: "no_oom demo_api"
  by (simp add: no_oom_def demo_api_def)

lemma demo_sys_sel [simp]:
  "execs (demo_sys server c) 0 = Some (demo_exec c)" "mysqls (demo_sys server c) = {1}"
  "lib (demo_sys server c) = \<lparr>up = server, seen = [], clock = 5000\<rparr>"
  "mysql (demo_exec c) = Some 1" "is_connected (demo_exec c) = c" "refcount (demo_exec c) = 1"
  "conn_option (demo_exec c) = MysqlConnOption_default"
  by (simp_all add: demo_sys_def demo_exec_def)

section \<open>Properties\<close>

lemma Connect_refused:
  assumes "execs s r = Some e" and "\<not> is_connected e" and "mysql e = Some h" and "h \<in> mysqls s"
    and "\<not> fst (c_real_connect api h (conn_option e) (lib s))"
  obtains t where "Connect api r s = Inr (False, t)" and "execs t r = Some e" and "h \<notin> mysqls t"
proof
  let ?t = "put_exec r (e\<lparr>is_connected := False\<rparr>)
    (s\<lparr>lib := c_close api h (snd (c_real_connect api h (conn_option e) (lib s))),
       mysqls := mysqls s - {h}\<rparr>)"
  show "Connect api r s = Inr (False, ?t)"
    using assms by (simp add: Connect_live split_beta Let_def)
  show "execs ?t r = Some e" using assms(2) by simp
  show "h \<notin> mysqls ?t" by simp
qed

text \<open>C36: The reconnect loop never makes a second attempt that works: when the first attempt is
  refused, \<^verbatim>\<open>Connect\<close> closes the handle and keeps the pointer, and the next attempt passes
  the freed handle to the client library.\<close>

theorem reconnect_retry_uses_freed_handle:
  assumes "execs s r = Some e" and "\<not> is_connected e" and "mysql e = Some h" and "h \<in> mysqls s"
    and "\<not> fst (c_real_connect api h (conn_option e) (lib s))"
  shows "StartReconnect api r s = Inl Use_after_free"
proof -
  obtain t where t: "Connect api r s = Inr (False, t)" "execs t r = Some e" "h \<notin> mysqls t"
    using Connect_refused [OF assms] .
  have "Connect api r (t\<lparr>lib := w\<rparr>) = Inl Use_after_free" for w
    by (rule Connect_dangling) (use t assms in simp_all)
  with t(1) show ?thesis
    by (simp add: StartReconnect_def Reconnect_def RECONNECT_MAX_RETRY_def eval_nat_numeral)
qed

theorem reconnect_retry_uses_freed_handle_witness:
  "StartReconnect demo_api 0 (demo_sys False False) = Inl Use_after_free"
  by (rule reconnect_retry_uses_freed_handle [where e = "demo_exec False" and h = 1])
    (simp_all add: demo_api_def)

text \<open>Reading the error of a refused connection, which is what the pool returns the executor
  for, reads freed memory.\<close>

theorem error_after_refused_connect:
  assumes "execs s r = Some e" and "\<not> is_connected e" and "mysql e = Some h" and "h \<in> mysqls s"
    and "\<not> fst (c_real_connect api h (conn_option e) (lib s))"
  shows "\<exists>t. Connect api r s = Inr (False, t) \<and> GetErrorMessage api r t = Inl Use_after_free \<and>
    GetErrorNumber api r t = Inl Use_after_free"
proof -
  obtain t where "Connect api r s = Inr (False, t)" "execs t r = Some e" "h \<notin> mysqls t"
    using Connect_refused [OF assms] .
  with assms(3) show ?thesis by (auto simp: GetErrorMessage_def GetErrorNumber_def)
qed

theorem error_after_refused_connect_witness:
  "\<exists>t. Connect demo_api 0 (demo_sys False False) = Inr (False, t) \<and>
    GetErrorMessage demo_api 0 t = Inl Use_after_free \<and>
    GetErrorNumber demo_api 0 t = Inl Use_after_free"
  by (rule error_after_refused_connect [where e = "demo_exec False" and h = 1])
    (simp_all add: demo_api_def)

text \<open>When the server accepts the first attempt, the reconnect loop returns true at once: the
  executor is connected on its own live handle, no other executor changed, and it did
  not sleep (the library's world is the one \<^verbatim>\<open>mysql_real_connect\<close> left).\<close>

theorem reconnect_first_attempt:
  assumes "execs s r = Some e" and "\<not> is_connected e" and "mysql e = Some h" and "h \<in> mysqls s"
    and "c_real_connect api h (conn_option e) (lib s) = (True, w)"
  shows "StartReconnect api r s = Inr (True, put_exec r (e\<lparr>is_connected := True\<rparr>) (s\<lparr>lib := w\<rparr>))"
  using assms
  by (simp add: StartReconnect_def Reconnect_def RECONNECT_MAX_RETRY_def eval_nat_numeral Connect_live)

theorem reconnect_first_attempt_witness:
  "StartReconnect demo_api 0 (demo_sys True False) =
    Inr (True, put_exec 0 (demo_exec True) (demo_sys True False))"
  using reconnect_first_attempt [where s = "demo_sys True False" and r = 0 and e = "demo_exec False"
      and h = 1 and api = demo_api and w = "lib (demo_sys True False)"]
  by (simp add: demo_api_def) (simp add: demo_exec_def put_exec_def demo_sys_def)

text \<open>A connection found dead is leaked: after \<^verbatim>\<open>CheckAlive\<close> reports it lost, \<^verbatim>\<open>Close\<close> and the
  destructor succeed, the executor is gone, and its handle was never closed.\<close>

theorem lost_connection_leaks_handle:
  assumes "execs s r = Some e" and "is_connected e" and "mysql e = Some h" and "h \<in> mysqls s"
    and "fst (c_ping api h (lib s)) \<noteq> 0"
  shows "\<exists>t u v. CheckAlive api r s = Inr (False, t) \<and> Close api r t = Inr u \<and>
    MysqlExecutor_destroy api r u = Inr v \<and> execs v r = None \<and> h \<in> mysqls v"
proof -
  let ?t = "put_exec r (e\<lparr>is_connected := False\<rparr>) (s\<lparr>lib := snd (c_ping api h (lib s))\<rparr>)"
  have "CheckAlive api r s = Inr (False, ?t)"
    using assms by (simp add: CheckAlive_live split_beta Let_def)
  moreover have "Close api r ?t = Inr ?t"
    by (rule Close_disconnected [where e = "e\<lparr>is_connected := False\<rparr>"]) simp_all
  moreover have "MysqlExecutor_destroy api r ?t = Inr (?t\<lparr>execs := (execs ?t)(r := None)\<rparr>)"
    by (rule destroy_disconnected [where e = "e\<lparr>is_connected := False\<rparr>"]) simp_all
  ultimately show ?thesis using assms(4) by simp
qed

theorem lost_connection_leaks_handle_witness:
  "\<exists>t u v. CheckAlive demo_api 0 (demo_sys False True) = Inr (False, t) \<and> Close demo_api 0 t = Inr u \<and>
    MysqlExecutor_destroy demo_api 0 u = Inr v \<and> execs v 0 = None \<and> 1 \<in> mysqls v"
  by (rule lost_connection_leaks_handle [where e = "demo_exec True"]) (simp_all add: demo_api_def)

subsection \<open>Every reachable state of a set of connections\<close>

inductive conn_step :: "'w mysql_api \<Rightarrow> nat set \<Rightarrow> 'w sys \<Rightarrow> 'w sys \<Rightarrow> bool"
  for api :: "'w mysql_api" and R :: "nat set" where
  step_connect: "r \<in> R \<Longrightarrow> Connect api r s = Inr (True, t) \<Longrightarrow> conn_step api R s t"
| step_close: "r \<in> R \<Longrightarrow> Close api r s = Inr t \<Longrightarrow> conn_step api R s t"
| step_alive: "r \<in> R \<Longrightarrow> CheckAlive api r s = Inr (b, t) \<Longrightarrow> conn_step api R s t"
| step_refresh: "r \<in> R \<Longrightarrow> RefreshAliveTime api r s = Inr t \<Longrightarrow> conn_step api R s t"
| step_world: "conn_step api R s (s\<lparr>lib := w\<rparr>)"

lemma conn_step_wf:
  assumes "no_oom api" and "wf_on R s" and "conn_step api R s t"
  shows "wf_on R t"
  using assms(3,1,2)
proof (cases rule: conn_step.cases)
  case (step_connect r)
  show ?thesis
    by (rule Connect_spec [OF assms(2) step_connect(1) assms(1)]) (use step_connect(2) in simp)
next
  case (step_close r)
  then show ?thesis using close.op_returns [OF assms(2) step_close(1), of api] by simp
next
  case (step_alive r b)
  show ?thesis
    by (rule CheckAlive_spec [OF assms(2) step_alive(1), of api]) (use step_alive(2) in simp)
next
  case (step_refresh r)
  then show ?thesis using refresh.op_returns [OF assms(2) step_refresh(1), of api] by simp
next
  case (step_world w)
  then show ?thesis using assms(2) by simp
qed

interpretation conns: invariant_system "wf_on R" "\<lambda>s t. no_oom api \<and> conn_step api R s t" "wf_on R"
  for api :: "'w mysql_api" and R
  by unfold_locales (auto intro: conn_step_wf)



end
