(* ===== verification/Mysql_Results.thy ===== *)
theory Mysql_Results
  imports Mysql_Api
begin

text \<open>
  \<^verbatim>\<open>executor/mysql_results.h\<close>: the object a query fills. The class template is one record with
  the row type \<open>'r\<close> (a tuple, or for \<^verbatim>\<open>NativeString\<close> a list of views); its mode is a field. The
  raw result it may own is a block of the client library, so clearing or destroying the
  object is a step of the library's state.
\<close>

section \<open>State\<close>

definition kDynamicBufferInitSize :: nat where "kDynamicBufferInitSize = 64"

record MysqlResultsOption =
  dynamic_buffer_init_size :: nat

definition MysqlResultsOption_default :: MysqlResultsOption where
  "MysqlResultsOption_default = \<lparr>dynamic_buffer_init_size = kDynamicBufferInitSize\<rparr>"

datatype MysqlResultsMode = BindType | OnlyExec | NativeString

record 'r results =
  mode :: MysqlResultsMode
  res_option :: MysqlResultsOption
  result_set :: "'r list"
  fields_name :: "string list"
  null_flags :: "bool list list"
  error_number :: int
  error_message :: string
  affected_rows :: u64
  has_value :: bool
  mysql_res :: ptr

definition MysqlResults_new :: "MysqlResultsMode \<Rightarrow> 'r results" where
  "MysqlResults_new m =
     \<lparr>mode = m, res_option = MysqlResultsOption_default, result_set = [], fields_name = [],
      null_flags = [], error_number = 0, error_message = [], affected_rows = 0, has_value = False,
      mysql_res = None\<rparr>"

definition MysqlResults_with :: "MysqlResultsMode \<Rightarrow> MysqlResultsOption \<Rightarrow> 'r results" where
  "MysqlResults_with m opt = (MysqlResults_new m)\<lparr>res_option := opt\<rparr>"

section \<open>Operations\<close>

text \<open>\<^verbatim>\<open>mysql_free_result\<close>: nothing for null, a double free is a fault.\<close>

definition mysql_free_result ::
  "'w mysql_api \<Rightarrow> ptr \<Rightarrow> ('w, 'z) clib_scheme \<Rightarrow> ('w, 'z) clib_scheme result" where
  "mysql_free_result api p s =
     (if p = None then Inr s
      else bindE (use_block (ress s) p) (\<lambda>b.
        Inr (s\<lparr>lib := c_free_result api b (lib s), ress := ress s - {b}\<rparr>)))"

definition Clear ::
  "'w mysql_api \<Rightarrow> 'r results \<Rightarrow> ('w, 'z) clib_scheme \<Rightarrow> ('r results \<times> ('w, 'z) clib_scheme) result" where
  "Clear api r s =
     (let r = r\<lparr>null_flags := [], error_message := [], fields_name := [], has_value := False,
                affected_rows := 0, result_set := []\<rparr>
      in if mysql_res r \<noteq> None
         then bindE (mysql_free_result api (mysql_res r) s) (\<lambda>s. Inr (r\<lparr>mysql_res := None\<rparr>, s))
         else Inr (r, s))"

definition MysqlResults_destroy ::
  "'w mysql_api \<Rightarrow> 'r results \<Rightarrow> ('w, 'z) clib_scheme \<Rightarrow> ('w, 'z) clib_scheme result" where
  "MysqlResults_destroy api r s = mysql_free_result api (mysql_res r) s"

text \<open>
  Move construction: the new object's \<^verbatim>\<open>error_number_\<close> is not in the initializer list, so it
  gets its default 0. A moved-from vector or string is left empty. Move assignment keeps
  the target's \<^verbatim>\<open>error_number_\<close>, and its old raw result is overwritten.
\<close>

definition moved_from :: "'r results \<Rightarrow> 'r results" where
  "moved_from r = r\<lparr>result_set := [], fields_name := [], null_flags := [], error_message := [],
     mysql_res := None\<rparr>"

definition MysqlResults_move :: "'r results \<Rightarrow> 'r results \<times> 'r results" where
  "MysqlResults_move other = (other\<lparr>error_number := 0\<rparr>, moved_from other)"

definition MysqlResults_move_assign :: "'r results \<Rightarrow> 'r results \<Rightarrow> 'r results \<times> 'r results" where
  "MysqlResults_move_assign this other =
     (other\<lparr>error_number := error_number this\<rparr>, moved_from other)"

definition SetRawMysqlRes :: "ptr \<Rightarrow> 'r results \<Rightarrow> 'r results result" where
  "SetRawMysqlRes p r = bindE (assertE (mysql_res r = None)) (\<lambda>_. Inr (r\<lparr>mysql_res := p\<rparr>))"

definition SetFieldsName ::
  "'w mysql_api \<Rightarrow> ptr \<Rightarrow> 'r results \<Rightarrow> ('w, 'z) clib_scheme \<Rightarrow> 'r results result" where
  "SetFieldsName api p r s =
     (if p = None then Inr r
      else bindE (use_block (ress s) p) (\<lambda>b.
        Inr (r\<lparr>fields_name := fields_name r @ map field_name (c_fetch_fields api b (lib s))\<rparr>)))"

definition SetErrorMessage :: "string \<Rightarrow> 'r results \<Rightarrow> 'r results" where
  "SetErrorMessage m r = r\<lparr>error_message := m\<rparr>"

definition SetErrorNumber :: "int \<Rightarrow> 'r results \<Rightarrow> 'r results" where
  "SetErrorNumber n r = r\<lparr>error_number := n\<rparr>"

definition SetAffectedRows :: "u64 \<Rightarrow> 'r results \<Rightarrow> 'r results" where
  "SetAffectedRows n r = r\<lparr>affected_rows := n\<rparr>"

definition MutableResultSet :: "('r list \<Rightarrow> 'r list) \<Rightarrow> 'r results \<Rightarrow> 'r results" where
  "MutableResultSet f r = r\<lparr>result_set := f (result_set r)\<rparr>"

definition ResultSet :: "'r results \<Rightarrow> 'r list" where
  "ResultSet r = result_set r"

definition OK :: "'r results \<Rightarrow> bool" where
  "OK r \<longleftrightarrow> error_number r = 0"

definition GetAffectedRowNum :: "'r results \<Rightarrow> u64" where
  "GetAffectedRowNum r = affected_rows r"

definition GetFieldsName :: "'r results \<Rightarrow> string list" where
  "GetFieldsName r = fields_name r"

definition GetNullFlag :: "'r results \<Rightarrow> bool list list" where
  "GetNullFlag r = null_flags r"

definition GetOption :: "'r results \<Rightarrow> MysqlResultsOption" where
  "GetOption r = res_option r"

definition results_error :: "'r results \<Rightarrow> int \<times> string" where
  "results_error r = (error_number r, error_message r)"

text \<open>\<^verbatim>\<open>GetResultSet\<close>: a copy for \<^verbatim>\<open>NativeString\<close>, otherwise the set is moved out. The first component
  is what the caller's container holds afterwards.\<close>

definition GetResultSet :: "'r list \<Rightarrow> 'r results \<Rightarrow> bool \<times> 'r list \<times> 'r results" where
  "GetResultSet res r =
     (if \<not> has_value r then (False, res, r)
      else if mode r = NativeString then (True, result_set r, r)
      else (True, result_set r, r\<lparr>result_set := [], has_value := False\<rparr>))"

text \<open>The column is checked against the first row only.\<close>

definition IsValueNull :: "nat \<Rightarrow> nat \<Rightarrow> 'r results \<Rightarrow> bool result" where
  "IsValueNull i j r =
     (if null_flags r = [] then Inr False
      else if length (null_flags r) \<le> i \<or> length (null_flags r ! 0) \<le> j then Inr False
      else bindE (nthE (null_flags r) i) (\<lambda>row. nthE row j))"

section \<open>Properties\<close>

text \<open>An object that owns its raw result, and has one flag per column of every row.\<close>

definition results_wf :: "('w, 'z) clib_scheme \<Rightarrow> 'r results \<Rightarrow> bool" where
  "results_wf s r \<longleftrightarrow> (\<forall>b. mysql_res r = Some b \<longrightarrow> b \<in> ress s)"

definition rectangular :: "'a list list \<Rightarrow> bool" where
  "rectangular xss \<longleftrightarrow> (\<forall>xs \<in> set xss. length xs = length (hd xss))"

lemma mysql_free_result_simps [simp]:
  "mysql_free_result api None s = Inr s"
  "b \<in> ress s \<Longrightarrow> mysql_free_result api (Some b) s =
     Inr (s\<lparr>lib := c_free_result api b (lib s), ress := ress s - {b}\<rparr>)"
  "b \<notin> ress s \<Longrightarrow> mysql_free_result api (Some b) s = Inl Use_after_free"
  by (simp_all add: mysql_free_result_def)

text \<open>What \<^verbatim>\<open>Clear\<close> leaves: everything but the mode, the option and the error number.\<close>

definition cleared :: "'r results \<Rightarrow> 'r results" where
  "cleared r = (MysqlResults_with (mode r) (res_option r))\<lparr>error_number := error_number r\<rparr>"

lemma Clear_eq:
  assumes "results_wf s r"
  shows "Clear api r s = Inr (cleared r, case mysql_res r of None \<Rightarrow> s
    | Some b \<Rightarrow> s\<lparr>lib := c_free_result api b (lib s), ress := ress s - {b}\<rparr>)"
  using assms
  by (cases "mysql_res r")
    (simp_all add: Clear_def results_wf_def cleared_def MysqlResults_with_def MysqlResults_new_def)

text \<open>\<^verbatim>\<open>Clear\<close> never faults on an object that owns its raw result; it frees that result once, and
  resets everything but the error number: an object whose last query failed is still not
  OK after \<^verbatim>\<open>Clear\<close>, whose message is already empty.\<close>

theorem Clear_keeps_error_number:
  assumes "results_wf s r"
  shows "\<exists>r' t. Clear api r s = Inr (r', t) \<and> ress t = ress s - set_option (mysql_res r) \<and>
    mysql_res r' = None \<and> result_set r' = [] \<and> null_flags r' = [] \<and> fields_name r' = [] \<and>
    \<not> has_value r' \<and> affected_rows r' = 0 \<and> results_error r' = (error_number r, []) \<and> OK r' = OK r"
  using Clear_eq [OF assms, of api]
  by (auto simp: cleared_def MysqlResults_with_def MysqlResults_new_def results_error_def OK_def
      split: option.splits)

definition demo_results :: "MysqlResultsMode \<Rightarrow> int \<Rightarrow> ptr \<Rightarrow> 'r results" where
  "demo_results m n p = (MysqlResults_new m)\<lparr>error_number := n, mysql_res := p\<rparr>"

definition demo_clib :: "unit \<Rightarrow> nat set \<Rightarrow> unit clib" where
  "demo_clib w R = \<lparr>lib = w, next_block = 9, mysqls = {}, stmts = {}, ress = R\<rparr>"

theorem Clear_keeps_error_number_witness:
  "\<forall>api. \<exists>r' t. Clear api (demo_results NativeString 1064 (Some 3) :: string results) (demo_clib () {3}) = Inr (r', t) \<and>
    \<not> OK r' \<and> ress t = {}"
proof
  fix api :: "unit mysql_api"
  show "\<exists>r' t. Clear api (demo_results NativeString 1064 (Some 3) :: string results) (demo_clib () {3}) = Inr (r', t) \<and>
    \<not> OK r' \<and> ress t = {}"
    using Clear_keeps_error_number [of "demo_clib () {3}" "demo_results NativeString 1064 (Some 3)" api]
    by (auto simp: results_wf_def demo_results_def demo_clib_def OK_def MysqlResults_new_def)
qed

text \<open>Moving a failed result loses the error: the new object is OK, whatever the error was.\<close>

lemma moved_results_are_OK:
  "OK (fst (MysqlResults_move r)) \<and> error_message (fst (MysqlResults_move r)) = error_message r \<and>
   error_number (fst (MysqlResults_move_assign this r)) = error_number this"
  by (simp add: MysqlResults_move_def MysqlResults_move_assign_def OK_def)

text \<open>\<^verbatim>\<open>IsValueNull\<close> never reads out of range while every row has as many flags as the first,
  and then it says exactly whether a value in range is NULL.\<close>

theorem IsValueNull_correct:
  assumes "rectangular (null_flags r)"
  shows "IsValueNull i j r =
    Inr (i < length (null_flags r) \<and> j < length (null_flags r ! i) \<and> null_flags r ! i ! j)"
proof (cases "i < length (null_flags r)")
  case True
  then have ne: "null_flags r \<noteq> []" by auto
  have "length (null_flags r ! i) = length (hd (null_flags r))"
    using assms nth_mem [OF True] unfolding rectangular_def by blast
  then obtain n where n: "length (null_flags r ! i) = n" "length (null_flags r ! 0) = n"
    using ne by (simp add: hd_conv_nth)
  have "IsValueNull i j r = (if n \<le> j then Inr False else nthE (null_flags r ! i) j)"
    using True ne by (simp add: IsValueNull_def n(2))
  with True n(1) show ?thesis by (simp add: nthE_def)
qed (simp add: IsValueNull_def)

theorem IsValueNull_correct_witness:
  "IsValueNull 1 0 ((MysqlResults_new BindType :: unit results)\<lparr>null_flags := [[False], [True]]\<rparr>) = Inr True"
  by (subst IsValueNull_correct) (auto simp: rectangular_def)

end
