(* ===== verification/Mysql_Statement.thy ===== *)
theory Mysql_Statement
  imports Mysql_Api
begin

text \<open>
  \<^verbatim>\<open>executor/mysql_statement.{h,cc}\<close>: the wrapper of a prepared statement. Its handle is a block
  of the client library, live between \<^verbatim>\<open>mysql_stmt_init\<close> and \<^verbatim>\<open>mysql_stmt_close\<close>.
\<close>

section \<open>State\<close>

text \<open>The constructor leaves \<^verbatim>\<open>params_count_\<close> uninitialised: \<open>None\<close>.\<close>

record statement =
  mysql_stmt :: ptr
  st_mysql :: ptr
  field_count :: u32
  params_count :: "u64 option"

definition MysqlStatement_new :: "ptr \<Rightarrow> statement" where
  "MysqlStatement_new conn =
     \<lparr>mysql_stmt = None, st_mysql = conn, field_count = 0, params_count = None\<rparr>"

section \<open>Operations\<close>

definition mysql_stmt_init ::
  "'w mysql_api \<Rightarrow> ptr \<Rightarrow> ('w, 'z) clib_scheme \<Rightarrow> (ptr \<times> ('w, 'z) clib_scheme) result" where
  "mysql_stmt_init api conn s =
     bindE (use_block (mysqls s) conn) (\<lambda>h.
       let b = next_block s; (ok, w) = s_init api h b (lib s)
       in if ok then Inr (Some b, s\<lparr>lib := w, next_block := Suc b, stmts := insert b (stmts s)\<rparr>)
          else Inr (None, s\<lparr>lib := w\<rparr>))"

definition CloseStatement ::
  "'w mysql_api \<Rightarrow> statement \<Rightarrow> ('w, 'z) clib_scheme \<Rightarrow>
   (bool \<times> statement \<times> ('w, 'z) clib_scheme) result" where
  "CloseStatement api st s =
     (if mysql_stmt st \<noteq> None then
        bindE (stmt_call (mysql_stmt st) (s_free_result api) s) (\<lambda>(ret, s).
          if ret \<noteq> 0 then Inr (False, st, s)
          else
            bindE (use_block (stmts s) (mysql_stmt st)) (\<lambda>b.
              Inr (True, st\<lparr>mysql_stmt := None\<rparr>,
                   s\<lparr>lib := s_close api b (lib s), stmts := stmts s - {b}\<rparr>)))
      else Inr (True, st, s))"

definition Init ::
  "'w mysql_api \<Rightarrow> string \<Rightarrow> statement \<Rightarrow> ('w, 'z) clib_scheme \<Rightarrow>
   (bool \<times> statement \<times> ('w, 'z) clib_scheme) result" where
  "Init api sql st s =
     bindE (mysql_stmt_init api (st_mysql st) s) (\<lambda>(p, s).
       let st = st\<lparr>mysql_stmt := p\<rparr>
       in if p = None then Inr (False, st, s)
          else bindE (stmt_call p (\<lambda>b. s_prepare api b sql) s) (\<lambda>(ret, s).
            if ret \<noteq> 0 then Inr (False, st, s)
            else bindE (use_block (stmts s) p) (\<lambda>b.
              Inr (True, st\<lparr>field_count := s_field_count api b (lib s),
                            params_count := Some (s_param_count api b (lib s))\<rparr>, s))))"

definition stmt_error :: "'w mysql_api \<Rightarrow> statement \<Rightarrow> ('w, 'z) clib_scheme \<Rightarrow> string result" where
  "stmt_error api st s =
     (if mysql_stmt st \<noteq> None
      then bindE (use_block (stmts s) (mysql_stmt st)) (\<lambda>b. Inr (s_error api b (lib s)))
      else Inr [])"

definition stmt_errno :: "'w mysql_api \<Rightarrow> statement \<Rightarrow> ('w, 'z) clib_scheme \<Rightarrow> int result" where
  "stmt_errno api st s =
     (if mysql_stmt st \<noteq> None
      then bindE (use_block (stmts s) (mysql_stmt st)) (\<lambda>b. Inr (s_errno api b (lib s)))
      else Inr 0)"

text \<open>\<^verbatim>\<open>mysql_stmt_bind_param\<close> reads one bind per parameter marker of the statement.\<close>

definition BindParam ::
  "'w mysql_api \<Rightarrow> input_bind list \<Rightarrow> statement \<Rightarrow> ('w, 'z) clib_scheme \<Rightarrow>
   (bool \<times> ('w, 'z) clib_scheme) result" where
  "BindParam api binds st s =
     bindE (use_block (stmts s) (mysql_stmt st)) (\<lambda>b.
       if length binds < unat (s_param_count api b (lib s)) then Inl Out_of_range
       else bindE (stmt_call (mysql_stmt st) (\<lambda>b. s_bind_param api b binds) s) (\<lambda>(ret, s).
              Inr (ret = 0, s)))"

text \<open>Every call makes a new metadata object, or null for a statement without a result set.\<close>

definition GetResultsMeta ::
  "'w mysql_api \<Rightarrow> statement \<Rightarrow> ('w, 'z) clib_scheme \<Rightarrow> (ptr \<times> ('w, 'z) clib_scheme) result" where
  "GetResultsMeta api st s =
     bindE (use_block (stmts s) (mysql_stmt st)) (\<lambda>h.
       let b = next_block s; (ok, w) = s_result_metadata api h b (lib s)
       in if ok then Inr (Some b, s\<lparr>lib := w, next_block := Suc b, ress := insert b (ress s)\<rparr>)
          else Inr (None, s\<lparr>lib := w\<rparr>))"

text \<open>\<^verbatim>\<open>~MysqlStatement\<close> and the small members. \<^verbatim>\<open>IsValid\<close> is true of a null handle.\<close>

definition MysqlStatement_destroy :: "statement \<Rightarrow> unit result" where
  "MysqlStatement_destroy st = assertE (mysql_stmt st = None)"

definition GetFieldCount :: "statement \<Rightarrow> u32" where
  "GetFieldCount st = field_count st"

definition GetParamsCount :: "statement \<Rightarrow> u64 option" where
  "GetParamsCount st = params_count st"

definition IsValid :: "statement \<Rightarrow> bool" where
  "IsValid st \<longleftrightarrow> mysql_stmt st = None"

section \<open>The life of a statement\<close>

text \<open>A statement's handle is null or live.\<close>

definition stmt_wf :: "statement \<Rightarrow> ('w, 'z) clib_scheme \<Rightarrow> bool" where
  "stmt_wf st s \<longleftrightarrow> (\<forall>b. mysql_stmt st = Some b \<longrightarrow> b \<in> stmts s)"

text \<open>\<^verbatim>\<open>mysql_stmt_free_result\<close> succeeds: the connection is not lost in the middle of a result.\<close>

definition frees :: "'w mysql_api \<Rightarrow> bool" where
  "frees api \<longleftrightarrow> (\<forall>b w. fst (s_free_result api b w) = 0)"

lemma stmt_call_live [simp]:
  "b \<in> stmts s \<Longrightarrow> stmt_call (Some b) f s = Inr (fst (f b (lib s)), s\<lparr>lib := snd (f b (lib s))\<rparr>)"
  by (simp add: stmt_call_def)

lemma CloseStatement_spec:
  assumes "stmt_wf st s" and "frees api"
  obtains t where "CloseStatement api st s = Inr (True, st\<lparr>mysql_stmt := None\<rparr>, t)"
    and "stmts t = stmts s - set_option (mysql_stmt st)" and "mysqls t = mysqls s"
    and "ress t = ress s" and "next_block t = next_block s"
    and "clib.more t = clib.more s"
proof (cases "mysql_stmt st")
  case None
  then have "st\<lparr>mysql_stmt := None\<rparr> = st" by simp
  with None that [of s] show thesis by (simp add: CloseStatement_def)
next
  case (Some b)
  with assms have "b \<in> stmts s" "fst (s_free_result api b (lib s)) = 0"
    by (simp_all add: stmt_wf_def frees_def)
  with Some that [of "s\<lparr>lib := s_close api b (snd (s_free_result api b (lib s))), stmts := stmts s - {b}\<rparr>"]
  show thesis by (simp add: CloseStatement_def)
qed

lemma Init_spec:
  assumes "st_mysql st = Some h" and "h \<in> mysqls s" and "mysql_stmt st = None"
  obtains ok st' t where "Init api sql st s = Inr (ok, st', t)" and "stmt_wf st' t"
    and "ok \<Longrightarrow> mysql_stmt st' = Some (next_block s)" and "st_mysql st' = st_mysql st"
    and "stmts t = stmts s \<union> set_option (mysql_stmt st')" and "mysqls t = mysqls s"
    and "ress t = ress s" and "next_block s \<le> next_block t" and "clib.more t = clib.more s"
    and "mysql_stmt st' = None \<or> mysql_stmt st' = Some (next_block s)"
    and "ok \<Longrightarrow> field_count st' = s_field_count api (next_block s) (lib t)"
proof -
  let ?b = "next_block s"
  obtain got w where init: "s_init api h ?b (lib s) = (got, w)" by fastforce
  obtain ret w' where prep: "s_prepare api ?b sql w = (ret, w')" by fastforce
  let ?s = "\<lambda>w. s\<lparr>lib := w, next_block := Suc ?b, stmts := insert ?b (stmts s)\<rparr>"
  show thesis
  proof (cases got)
    case False
    with init that [of False "st\<lparr>mysql_stmt := None\<rparr>" "s\<lparr>lib := w\<rparr>"] assms show thesis
      by (simp add: Init_def mysql_stmt_init_def stmt_wf_def Let_def)
  next
    case got: True
    show thesis
    proof (cases "ret = 0")
      case False
      with got init prep that [of False "st\<lparr>mysql_stmt := Some ?b\<rparr>" "?s w'"] assms show thesis
        by (simp add: Init_def mysql_stmt_init_def stmt_wf_def Let_def)
    next
      case True
      with got init prep that [of True "st\<lparr>mysql_stmt := Some ?b,
          field_count := s_field_count api ?b w', params_count := Some (s_param_count api ?b w')\<rparr>" "?s w'"]
        assms show thesis
        by (simp add: Init_def mysql_stmt_init_def stmt_wf_def Let_def)
    qed
  qed
qed

lemma GetResultsMeta_eq:
  assumes "mysql_stmt st = Some b" and "b \<in> stmts s"
  shows "GetResultsMeta api st s =
    (let (ok, w) = s_result_metadata api b (next_block s) (lib s)
     in if ok then Inr (Some (next_block s), s\<lparr>lib := w, next_block := Suc (next_block s),
               ress := insert (next_block s) (ress s)\<rparr>)
        else Inr (None, s\<lparr>lib := w\<rparr>))"
  using assms by (simp add: GetResultsMeta_def Let_def)

lemma stmt_error_returns:
  assumes "stmt_wf st s"
  shows "\<exists>m. stmt_error api st s = Inr m" and "\<exists>n. stmt_errno api st s = Inr n"
  using assms by (cases "mysql_stmt st"; auto simp: stmt_error_def stmt_errno_def stmt_wf_def)+

section \<open>Properties\<close>

text \<open>Using a statement on a live connection, with any text: \<^verbatim>\<open>Init\<close> returns, its error can be read,
  and \<^verbatim>\<open>CloseStatement\<close> then frees exactly the handle \<^verbatim>\<open>Init\<close> made, so that the destructor's
  assertion holds, whether or not the text could be prepared.\<close>

theorem statement_lifecycle:
  assumes "h \<in> mysqls s" and "frees api" and "\<forall>b \<in> stmts s. b < next_block s"
  shows "\<exists>ok st t m n st' u. Init api sql (MysqlStatement_new (Some h)) s = Inr (ok, st, t) \<and>
    stmt_error api st t = Inr m \<and> stmt_errno api st t = Inr n \<and>
    CloseStatement api st t = Inr (True, st', u) \<and> MysqlStatement_destroy st' = Inr () \<and>
    stmts u = stmts s \<and> mysqls u = mysqls s \<and> ress u = ress s"
proof -
  have new: "st_mysql (MysqlStatement_new (Some h)) = Some h" "mysql_stmt (MysqlStatement_new (Some h)) = None"
    by (simp_all add: MysqlStatement_new_def)
  obtain ok st t where t: "Init api sql (MysqlStatement_new (Some h)) s = Inr (ok, st, t)" "stmt_wf st t"
    "stmts t = stmts s \<union> set_option (mysql_stmt st)" "mysqls t = mysqls s" "ress t = ress s"
    "mysql_stmt st = None \<or> mysql_stmt st = Some (next_block s)"
    by (rule Init_spec [OF new(1) assms(1) new(2), of api sql])
  obtain u where u: "CloseStatement api st t = Inr (True, st\<lparr>mysql_stmt := None\<rparr>, u)"
    "stmts u = stmts t - set_option (mysql_stmt st)" "mysqls u = mysqls t" "ress u = ress t"
    by (rule CloseStatement_spec [OF t(2) assms(2)])
  have "next_block s \<notin> stmts s" using assms(3) by blast
  then have "stmts u = stmts s" using t(3,6) u(2) by auto
  moreover have "MysqlStatement_destroy (st\<lparr>mysql_stmt := None\<rparr>) = Inr ()"
    by (simp add: MysqlStatement_destroy_def)
  ultimately show ?thesis using t u stmt_error_returns [OF t(2), of api] by metis
qed

text \<open>When freeing the result fails, \<^verbatim>\<open>CloseStatement\<close> gives up with the handle still open, and the
  destructor of the statement aborts the process.\<close>

theorem failed_free_aborts:
  assumes "mysql_stmt st = Some b" and "b \<in> stmts s" and "fst (s_free_result api b (lib s)) \<noteq> 0"
  shows "\<exists>t. CloseStatement api st s = Inr (False, st, t) \<and> b \<in> stmts t \<and>
    MysqlStatement_destroy st = Inl Assertion_failed"
  using assms by (simp add: CloseStatement_def MysqlStatement_destroy_def)

end
