(* ===== verification/Mysql_Binder.thy ===== *)
theory Mysql_Binder
  imports Mysql_Api
begin

text \<open>
  \<^verbatim>\<open>executor/mysql_binder.{h,cc}\<close>: the tables that pair C++ types with MySQL field types, the
  binds made for arguments and result columns, the check of the result types, and the
  reading of a fetched row. A template argument pack is a list: of arguments, or of the
  tags \<open>out_type\<close> of the result types.
\<close>

section \<open>Input binds\<close>

text \<open>The tables \<^verbatim>\<open>MYSQL_INPUT_TYPE_SPECIALIZATION\<close>, for the types that reach the template.\<close>

fun MysqlInputType :: "scalar \<Rightarrow> enum_field_types" where
  "MysqlInputType (Int8 _) = MYSQL_TYPE_TINY"
| "MysqlInputType (UInt8 _) = MYSQL_TYPE_TINY"
| "MysqlInputType (Int16 _) = MYSQL_TYPE_SHORT"
| "MysqlInputType (UInt16 _) = MYSQL_TYPE_SHORT"
| "MysqlInputType (Int32 _) = MYSQL_TYPE_LONG"
| "MysqlInputType (UInt32 _) = MYSQL_TYPE_LONG"
| "MysqlInputType (Int64 _) = MYSQL_TYPE_LONGLONG"
| "MysqlInputType (UInt64 _) = MYSQL_TYPE_LONGLONG"
| "MysqlInputType (Float _) = MYSQL_TYPE_FLOAT"
| "MysqlInputType (Double _) = MYSQL_TYPE_DOUBLE"

fun input_is_unsigned :: "scalar \<Rightarrow> bool" where
  "input_is_unsigned (UInt8 _) = True"
| "input_is_unsigned (UInt16 _) = True"
| "input_is_unsigned (UInt32 _) = True"
| "input_is_unsigned (UInt64 _) = True"
| "input_is_unsigned _ = False"

text \<open>An argument, by the overload of \<^verbatim>\<open>StepInputBind\<close> it selects.\<close>

datatype input_arg = InScalar scalar | InString string | InTime MysqlTime | InBlob MysqlBlob

fun StepInputBind :: "input_arg \<Rightarrow> input_bind" where
  "StepInputBind (InScalar v) =
     \<lparr>ib_type = MysqlInputType v, ib_buffer = Some (ScalarAt v), ib_buffer_length = 0,
      ib_length_set = False, ib_is_unsigned = input_is_unsigned v\<rparr>"
| "StepInputBind (InBlob b) =
     \<lparr>ib_type = MYSQL_TYPE_BLOB, ib_buffer = Some (BytesAt (data b)),
      ib_buffer_length = MysqlBlob_Size b, ib_length_set = True, ib_is_unsigned = False\<rparr>"
| "StepInputBind (InTime t) =
     \<lparr>ib_type = MYSQL_TYPE_DATETIME, ib_buffer = Some (TimeAt t), ib_buffer_length = 0,
      ib_length_set = False, ib_is_unsigned = True\<rparr>"
| "StepInputBind (InString v) =
     \<lparr>ib_type = MYSQL_TYPE_STRING, ib_buffer = Some (BytesAt v), ib_buffer_length = length v,
      ib_length_set = True, ib_is_unsigned = False\<rparr>"

definition BindInputImpl :: "input_arg list \<Rightarrow> input_bind list" where
  "BindInputImpl args = map StepInputBind args"

text \<open>
  How the C API reads an input bind: an integer at the width and signedness the type code
  and \<^verbatim>\<open>is_unsigned\<close> name, a string or blob of \<^verbatim>\<open>*length\<close> bytes, a \<^verbatim>\<open>MYSQL_TIME\<close>. Reading an
  object at another type is not modelled: \<open>None\<close>.
\<close>

datatype sql_value = SqlInt int | SqlFloat u32 | SqlDouble u64 | SqlBytes string | SqlTime MysqlTime

fun read_input :: "input_bind \<Rightarrow> sql_value option" where
  "read_input b =
     (case (ib_type b, ib_is_unsigned b, ib_buffer b) of
        (MYSQL_TYPE_TINY, False, Some (ScalarAt (Int8 w))) \<Rightarrow> Some (SqlInt (sint w))
      | (MYSQL_TYPE_TINY, True, Some (ScalarAt (UInt8 w))) \<Rightarrow> Some (SqlInt (uint w))
      | (MYSQL_TYPE_SHORT, False, Some (ScalarAt (Int16 w))) \<Rightarrow> Some (SqlInt (sint w))
      | (MYSQL_TYPE_SHORT, True, Some (ScalarAt (UInt16 w))) \<Rightarrow> Some (SqlInt (uint w))
      | (MYSQL_TYPE_LONG, False, Some (ScalarAt (Int32 w))) \<Rightarrow> Some (SqlInt (sint w))
      | (MYSQL_TYPE_LONG, True, Some (ScalarAt (UInt32 w))) \<Rightarrow> Some (SqlInt (uint w))
      | (MYSQL_TYPE_LONGLONG, False, Some (ScalarAt (Int64 w))) \<Rightarrow> Some (SqlInt (sint w))
      | (MYSQL_TYPE_LONGLONG, True, Some (ScalarAt (UInt64 w))) \<Rightarrow> Some (SqlInt (uint w))
      | (MYSQL_TYPE_FLOAT, _, Some (ScalarAt (Float w))) \<Rightarrow> Some (SqlFloat w)
      | (MYSQL_TYPE_DOUBLE, _, Some (ScalarAt (Double w))) \<Rightarrow> Some (SqlDouble w)
      | (MYSQL_TYPE_DATETIME, _, Some (TimeAt t)) \<Rightarrow> Some (SqlTime t)
      | (MYSQL_TYPE_STRING, _, Some (BytesAt s)) \<Rightarrow>
          if ib_length_set b \<and> ib_buffer_length b \<le> length s
          then Some (SqlBytes (take (ib_buffer_length b) s)) else None
      | (MYSQL_TYPE_BLOB, _, Some (BytesAt s)) \<Rightarrow>
          if ib_length_set b \<and> ib_buffer_length b \<le> length s
          then Some (SqlBytes (take (ib_buffer_length b) s)) else None
      | _ \<Rightarrow> None)"

text \<open>The value an argument stands for.\<close>

fun arg_value :: "input_arg \<Rightarrow> sql_value" where
  "arg_value (InScalar (Int8 w)) = SqlInt (sint w)"
| "arg_value (InScalar (UInt8 w)) = SqlInt (uint w)"
| "arg_value (InScalar (Int16 w)) = SqlInt (sint w)"
| "arg_value (InScalar (UInt16 w)) = SqlInt (uint w)"
| "arg_value (InScalar (Int32 w)) = SqlInt (sint w)"
| "arg_value (InScalar (UInt32 w)) = SqlInt (uint w)"
| "arg_value (InScalar (Int64 w)) = SqlInt (sint w)"
| "arg_value (InScalar (UInt64 w)) = SqlInt (uint w)"
| "arg_value (InScalar (Float w)) = SqlFloat w"
| "arg_value (InScalar (Double w)) = SqlDouble w"
| "arg_value (InString s) = SqlBytes s"
| "arg_value (InTime t) = SqlTime t"
| "arg_value (InBlob b) = SqlBytes (data b)"

section \<open>Result types\<close>

datatype out_type =
    OInt8 | OUInt8 | OInt16 | OUInt16 | OInt32 | OUInt32 | OInt64 | OUInt64
  | OFloat | ODouble | OMysqlTime | OString | OMysqlBlob

text \<open>\<^verbatim>\<open>sizeof(T)\<close> of the types that are read in place (LP64; \<^verbatim>\<open>MYSQL_TIME\<close> is 40 bytes). It is not
  used for strings and blobs.\<close>

fun sizeof :: "out_type \<Rightarrow> nat" where
  "sizeof OInt8 = 1" | "sizeof OUInt8 = 1" | "sizeof OInt16 = 2" | "sizeof OUInt16 = 2"
| "sizeof OInt32 = 4" | "sizeof OUInt32 = 4" | "sizeof OInt64 = 8" | "sizeof OUInt64 = 8"
| "sizeof OFloat = 4" | "sizeof ODouble = 8" | "sizeof OMysqlTime = 40"
| "sizeof OString = 32" | "sizeof OMysqlBlob = 32"

definition is_dynamic :: "out_type \<Rightarrow> bool" where
  "is_dynamic T \<longleftrightarrow> T = OString \<or> T = OMysqlBlob"

fun MysqlOutputType :: "out_type \<Rightarrow> enum_field_types list" where
  "MysqlOutputType OInt8 = [MYSQL_TYPE_TINY]"
| "MysqlOutputType OUInt8 = [MYSQL_TYPE_TINY]"
| "MysqlOutputType OInt16 = [MYSQL_TYPE_SHORT, MYSQL_TYPE_YEAR]"
| "MysqlOutputType OUInt16 = [MYSQL_TYPE_SHORT, MYSQL_TYPE_YEAR]"
| "MysqlOutputType OInt32 = [MYSQL_TYPE_LONG, MYSQL_TYPE_INT24]"
| "MysqlOutputType OUInt32 = [MYSQL_TYPE_LONG, MYSQL_TYPE_INT24]"
| "MysqlOutputType OInt64 = [MYSQL_TYPE_LONGLONG]"
| "MysqlOutputType OUInt64 = [MYSQL_TYPE_LONGLONG]"
| "MysqlOutputType OFloat = [MYSQL_TYPE_FLOAT]"
| "MysqlOutputType ODouble = [MYSQL_TYPE_DOUBLE]"
| "MysqlOutputType OMysqlTime =
     [MYSQL_TYPE_YEAR, MYSQL_TYPE_TIME, MYSQL_TYPE_DATE, MYSQL_TYPE_DATETIME, MYSQL_TYPE_TIMESTAMP]"
| "MysqlOutputType OString =
     [MYSQL_TYPE_YEAR, MYSQL_TYPE_TIME, MYSQL_TYPE_DATE, MYSQL_TYPE_DATETIME, MYSQL_TYPE_TIMESTAMP,
      MYSQL_TYPE_STRING, MYSQL_TYPE_VAR_STRING, MYSQL_TYPE_TINY_BLOB, MYSQL_TYPE_BLOB,
      MYSQL_TYPE_MEDIUM_BLOB, MYSQL_TYPE_LONG_BLOB, MYSQL_TYPE_BIT, MYSQL_TYPE_NEWDECIMAL]"
| "MysqlOutputType OMysqlBlob =
     [MYSQL_TYPE_TINY_BLOB, MYSQL_TYPE_BLOB, MYSQL_TYPE_MEDIUM_BLOB, MYSQL_TYPE_LONG_BLOB,
      MYSQL_TYPE_BIT]"

definition OutputTypeValid :: "out_type \<Rightarrow> enum_field_types \<Rightarrow> bool" where
  "OutputTypeValid T ft \<longleftrightarrow> ft \<in> set (MysqlOutputType T)"

section \<open>Output binds\<close>

text \<open>
  A \<^verbatim>\<open>std::vector<std::byte>\<close>: its allocation, capacity and bytes. Growing past the capacity
  moves the bytes to a new allocation and frees the old one. \<open>nb\<close> is the next allocation.
\<close>

record vec =
  v_block :: nat
  v_cap :: nat
  v_data :: string

definition vec_new :: vec where
  "vec_new = \<lparr>v_block = 0, v_cap = 0, v_data = []\<rparr>"

definition vec_resize :: "nat \<Rightarrow> nat \<Rightarrow> vec \<Rightarrow> vec \<times> nat" where
  "vec_resize n nb v =
     (let d = take n (v_data v) @ replicate (n - length (v_data v)) nul in
      if n \<le> v_cap v then (v\<lparr>v_data := d\<rparr>, nb)
      else (\<lparr>v_block = nb, v_cap = max n (2 * length (v_data v)), v_data = d\<rparr>, Suc nb))"

text \<open>An output \<^verbatim>\<open>MYSQL_BIND\<close>: \<^verbatim>\<open>buffer\<close> is an allocation and an offset into it; \<^verbatim>\<open>is_null\<close> and
  \<^verbatim>\<open>length\<close> are null or point at the column's entry in the flag and length vectors.\<close>

record output_bind =
  ob_type :: enum_field_types
  ob_buffer :: "(nat \<times> nat) option"
  ob_buffer_length :: nat
  ob_is_null_set :: bool
  ob_length_set :: bool

definition output_bind_zero :: output_bind where
  "output_bind_zero =
     \<lparr>ob_type = MYSQL_TYPE_DECIMAL, ob_buffer = None, ob_buffer_length = 0, ob_is_null_set = False,
      ob_length_set = False\<rparr>"

record out_state =
  output_binds :: "output_bind list"
  output_buffer :: "vec list"
  output_length :: "nat list"
  null_flag_buffer :: "bool list"
  next_buf :: nat

definition TRPC_BIND_BUFFER_MIN_SIZE :: nat where "TRPC_BIND_BUFFER_MIN_SIZE = 32"

fun StepOutputBind :: "out_type \<Rightarrow> output_bind \<Rightarrow> vec \<Rightarrow> nat \<Rightarrow> output_bind \<times> vec \<times> nat" where
  "StepOutputBind OString bind buffer nb =
     (let (buffer, nb) = (if v_data buffer = [] then vec_resize TRPC_BIND_BUFFER_MIN_SIZE nb buffer
                          else (buffer, nb))
      in (bind\<lparr>ob_type := MYSQL_TYPE_STRING, ob_buffer := Some (v_block buffer, 0),
               ob_is_null_set := True, ob_buffer_length := length (v_data buffer)\<rparr>, buffer, nb))"
| "StepOutputBind OMysqlBlob bind buffer nb =
     (let (buffer, nb) = (if v_data buffer = [] then vec_resize TRPC_BIND_BUFFER_MIN_SIZE nb buffer
                          else (buffer, nb))
      in (bind\<lparr>ob_buffer := Some (v_block buffer, 0),
               ob_is_null_set := True, ob_buffer_length := length (v_data buffer)\<rparr>, buffer, nb))"
| "StepOutputBind T bind buffer nb =
     (let (buffer, nb) = vec_resize (sizeof T) nb buffer
      in (bind\<lparr>ob_buffer := Some (v_block buffer, 0), ob_is_null_set := True\<rparr>, buffer, nb))"

definition bind_column :: "nat \<times> out_type \<Rightarrow> out_state \<Rightarrow> out_state result" where
  "bind_column it st =
     (let (i, T) = it in
      bindE (nthE (output_binds st) i) (\<lambda>bind.
      bindE (nthE (output_buffer st) i) (\<lambda>buffer.
      bindE (nthE (null_flag_buffer st) i) (\<lambda>_.
        let (bind, buffer, nb) = StepOutputBind T bind buffer (next_buf st)
        in Inr (st\<lparr>output_binds := (output_binds st)[i := bind],
                   output_buffer := (output_buffer st)[i := buffer], next_buf := nb\<rparr>)))))"

definition BindOutputImpl :: "out_type list \<Rightarrow> out_state \<Rightarrow> out_state result" where
  "BindOutputImpl Ts st = foldE bind_column (enumerate 0 Ts) st"

section \<open>The check of the result types\<close>

text \<open>\<^verbatim>\<open>util::FormatString\<close> of the framework is the parameter \<open>fmt\<close>. The metadata object is
  read with \<^verbatim>\<open>mysql_num_fields\<close> and \<^verbatim>\<open>mysql_fetch_fields\<close>.\<close>

definition failed_fields :: "out_type list \<Rightarrow> MYSQL_FIELD list \<Rightarrow> nat list" where
  "failed_fields Ts fm = [i \<leftarrow> [0..<length Ts]. \<not> OutputTypeValid (Ts ! i) (field_type (fm ! i))]"

definition CheckFieldsOutputArgs ::
  "formatter \<Rightarrow> 'w mysql_api \<Rightarrow> out_type list \<Rightarrow> ptr \<Rightarrow>
   ('w, 'z) clib_scheme \<Rightarrow> string result" where
  "CheckFieldsOutputArgs fmt api Ts res s =
     bindE (use_block (ress s) res) (\<lambda>b.
       let fields_meta = c_fetch_fields api b (lib s); num_fields = length fields_meta in
       if num_fields \<noteq> length Ts
       then Inr (fmt ''The query field count is {}, but you give {} OutputArgs.''
                   [FScalar (UInt32 (of_nat num_fields)), FScalar (UInt64 (of_nat (length Ts)))])
       else
         let failed_index = failed_fields Ts fields_meta;
             name = (\<lambda>i. field_name (fields_meta ! i))
         in if failed_index \<noteq> []
            then Inr (''Bind output type warning for fields: ('' @ name (hd failed_index) @
                   concat (map (\<lambda>i. '', '' @ name i) (tl failed_index)) @ '').'')
            else Inr [])"

section \<open>Reading a fetched row\<close>

datatype out_value = VScalar scalar | VTime MysqlTime | VString string | VBlob MysqlBlob

text \<open>Objects in memory are little-endian.\<close>

fun le_val :: "string \<Rightarrow> nat" where
  "le_val [] = 0"
| "le_val (c # cs) = of_char c + 256 * le_val cs"

definition le_word :: "nat \<Rightarrow> nat \<Rightarrow> string \<Rightarrow> 'a::len word" where
  "le_word pos len bs = of_nat (le_val (take len (drop pos bs)))"

definition decode_time_type :: "u32 \<Rightarrow> enum_mysql_timestamp_type" where
  "decode_time_type w =
     (if w = 0 then MYSQL_TIMESTAMP_DATE else if w = 1 then MYSQL_TIMESTAMP_DATETIME
      else if w = 2 then MYSQL_TIMESTAMP_TIME else if w = -1 then MYSQL_TIMESTAMP_ERROR
      else MYSQL_TIMESTAMP_NONE)"

definition decode_time :: "string \<Rightarrow> MysqlTime" where
  "decode_time bs =
     \<lparr>year = le_word 0 4 bs, month = le_word 4 4 bs, day = le_word 8 4 bs, hour = le_word 12 4 bs,
      minute = le_word 16 4 bs, second = le_word 20 4 bs, second_part = le_word 24 8 bs,
      neg = (le_word 32 1 bs \<noteq> (0 :: u8)), time_type = decode_time_type (le_word 36 4 bs)\<rparr>"

fun decode :: "out_type \<Rightarrow> string \<Rightarrow> out_value" where
  "decode OInt8 bs = VScalar (Int8 (le_word 0 1 bs))"
| "decode OUInt8 bs = VScalar (UInt8 (le_word 0 1 bs))"
| "decode OInt16 bs = VScalar (Int16 (le_word 0 2 bs))"
| "decode OUInt16 bs = VScalar (UInt16 (le_word 0 2 bs))"
| "decode OInt32 bs = VScalar (Int32 (le_word 0 4 bs))"
| "decode OUInt32 bs = VScalar (UInt32 (le_word 0 4 bs))"
| "decode OInt64 bs = VScalar (Int64 (le_word 0 8 bs))"
| "decode OUInt64 bs = VScalar (UInt64 (le_word 0 8 bs))"
| "decode OFloat bs = VScalar (Float (le_word 0 4 bs))"
| "decode ODouble bs = VScalar (Double (le_word 0 8 bs))"
| "decode OMysqlTime bs = VTime (decode_time bs)"
| "decode OString bs = VString bs"
| "decode OMysqlBlob bs = VBlob \<lparr>data = bs\<rparr>"

definition read_buffer :: "out_state \<Rightarrow> nat \<Rightarrow> nat \<Rightarrow> string result" where
  "read_buffer st i n =
     bindE (nthE (output_binds st) i) (\<lambda>bind.
     bindE (nthE (output_buffer st) i) (\<lambda>v.
       case ob_buffer bind of
         None \<Rightarrow> Inl Null_dereference
       | Some (b, off) \<Rightarrow>
           if v_block v \<noteq> b then Inl Use_after_free
           else if off + n \<le> length (v_data v) then Inr (take n (drop off (v_data v)))
           else Inl Out_of_range))"

text \<open>A string or blob that is NULL stays as the row's tuple was made, empty.\<close>

definition StepTupleSet :: "out_state \<Rightarrow> nat \<times> out_type \<Rightarrow> out_value result" where
  "StepTupleSet st it =
     (let (i, T) = it in
      if is_dynamic T then
        bindE (nthE (null_flag_buffer st) i) (\<lambda>null.
          if null then Inr (decode T [])
          else bindE (nthE (output_length st) i) (\<lambda>n.
               bindE (read_buffer st i n) (\<lambda>bs. Inr (decode T bs))))
      else bindE (read_buffer st i (sizeof T)) (\<lambda>bs. Inr (decode T bs)))"

fun mapE :: "('a \<Rightarrow> 'b result) \<Rightarrow> 'a list \<Rightarrow> 'b list result" where
  "mapE f [] = Inr []"
| "mapE f (x # xs) = bindE (f x) (\<lambda>y. bindE (mapE f xs) (\<lambda>ys. Inr (y # ys)))"

definition SetResultTuple :: "out_type list \<Rightarrow> out_state \<Rightarrow> out_value list result" where
  "SetResultTuple Ts st = mapE (StepTupleSet st) (enumerate 0 Ts)"

section \<open>Correctness\<close>

text \<open>How many bytes the C API writes through a bind: the size of the C type it documents for
  the type code, or at most \<^verbatim>\<open>buffer_length\<close> bytes for strings, blobs and bits.\<close>

fun c_api_size :: "enum_field_types \<Rightarrow> nat option" where
  "c_api_size MYSQL_TYPE_TINY = Some 1"
| "c_api_size MYSQL_TYPE_SHORT = Some 2"
| "c_api_size MYSQL_TYPE_YEAR = Some 2"
| "c_api_size MYSQL_TYPE_INT24 = Some 4"
| "c_api_size MYSQL_TYPE_LONG = Some 4"
| "c_api_size MYSQL_TYPE_LONGLONG = Some 8"
| "c_api_size MYSQL_TYPE_FLOAT = Some 4"
| "c_api_size MYSQL_TYPE_DOUBLE = Some 8"
| "c_api_size MYSQL_TYPE_TIME = Some 40"
| "c_api_size MYSQL_TYPE_DATE = Some 40"
| "c_api_size MYSQL_TYPE_DATETIME = Some 40"
| "c_api_size MYSQL_TYPE_TIMESTAMP = Some 40"
| "c_api_size _ = None"

definition write_limit :: "output_bind \<Rightarrow> nat" where
  "write_limit b = (case c_api_size (ob_type b) of Some n \<Rightarrow> n | None \<Rightarrow> ob_buffer_length b)"

lemma fixed_types_fit:
  "OutputTypeValid T ft \<Longrightarrow> \<not> is_dynamic T \<Longrightarrow> \<exists>n. c_api_size ft = Some n \<and> n \<le> sizeof T"
  by (cases T) (auto simp: OutputTypeValid_def is_dynamic_def)

lemma blob_types_sized: "OutputTypeValid OMysqlBlob ft \<Longrightarrow> c_api_size ft = None"
  by (auto simp: OutputTypeValid_def)

text \<open>The column \<open>i\<close> of a state is bound: its bind points at the start of its own buffer.\<close>

definition bound_column :: "out_state \<Rightarrow> out_state \<Rightarrow> out_type \<Rightarrow> nat \<Rightarrow> bool" where
  "bound_column st0 st T i \<longleftrightarrow>
     (let b = output_binds st ! i; v = output_buffer st ! i; v0 = output_buffer st0 ! i in
      ob_buffer b = Some (v_block v, 0) \<and> ob_is_null_set b \<and>
      ob_length_set b = ob_length_set (output_binds st0 ! i) \<and>
      (if is_dynamic T
       then ob_buffer_length b = length (v_data v) \<and>
         length (v_data v) = (if v_data v0 = [] then TRPC_BIND_BUFFER_MIN_SIZE else length (v_data v0)) \<and>
         ob_type b = (if T = OString then MYSQL_TYPE_STRING else ob_type (output_binds st0 ! i))
       else length (v_data v) = sizeof T \<and> ob_type b = ob_type (output_binds st0 ! i)))"

lemma vec_resize_length [simp]: "length (v_data (fst (vec_resize n nb v))) = n"
  by (simp add: vec_resize_def Let_def)

lemma vec_resize_PairD: "vec_resize n nb v = (v', nb') \<Longrightarrow> length (v_data v') = n"
  using vec_resize_length [of n nb v] by simp

lemma fixed_StepOutputBind:
  "\<not> is_dynamic T \<Longrightarrow> StepOutputBind T bind buffer nb =
    (let (buffer, nb) = vec_resize (sizeof T) nb buffer
     in (bind\<lparr>ob_buffer := Some (v_block buffer, 0), ob_is_null_set := True\<rparr>, buffer, nb))"
  by (cases T) (simp_all add: is_dynamic_def)

lemma bind_column_spec:
  assumes "i < length (output_binds st)" "i < length (output_buffer st)" "i < length (null_flag_buffer st)"
  obtains b v nb where "bind_column (i, T) st = Inr (st\<lparr>output_binds := (output_binds st)[i := b],
      output_buffer := (output_buffer st)[i := v], next_buf := nb\<rparr>)"
    and "\<And>st'. output_binds st' ! i = b \<Longrightarrow> output_buffer st' ! i = v \<Longrightarrow> bound_column st st' T i"
proof -
  obtain b v nb where s: "StepOutputBind T (output_binds st ! i) (output_buffer st ! i) (next_buf st) = (b, v, nb)"
    by (metis prod.exhaust)
  then have "bind_column (i, T) st = Inr (st\<lparr>output_binds := (output_binds st)[i := b],
      output_buffer := (output_buffer st)[i := v], next_buf := nb\<rparr>)"
    using assms by (simp add: bind_column_def)
  moreover have "bound_column st st' T i" if "output_binds st' ! i = b" "output_buffer st' ! i = v" for st'
  proof (cases "is_dynamic T")
    case False
    with s have v: "v = fst (vec_resize (sizeof T) (next_buf st) (output_buffer st ! i))"
      and b: "b = (output_binds st ! i)\<lparr>ob_buffer := Some (v_block v, 0), ob_is_null_set := True\<rparr>"
      by (auto simp: fixed_StepOutputBind split_beta Let_def)
    have "length (v_data v) = sizeof T" by (simp add: v)
    with False show ?thesis by (simp add: bound_column_def that b Let_def)
  next
    case True
    then have T: "T = OString \<or> T = OMysqlBlob" by (auto simp: is_dynamic_def)
    obtain v1 nb1 where vr:
      "vec_resize TRPC_BIND_BUFFER_MIN_SIZE (next_buf st) (output_buffer st ! i) = (v1, nb1)" by fastforce
    from T show ?thesis
      using s vr vec_resize_PairD [OF vr]
      by (elim disjE) (auto simp: bound_column_def that is_dynamic_def Let_def split: if_splits)
  qed
  ultimately show thesis using that by blast
qed

lemma bound_column_cong:
  "output_binds a ! i = output_binds a' ! i \<Longrightarrow> output_buffer a ! i = output_buffer a' ! i \<Longrightarrow>
    output_binds b ! i = output_binds b' ! i \<Longrightarrow> output_buffer b ! i = output_buffer b' ! i \<Longrightarrow>
    bound_column a b T i = bound_column a' b' T i"
  by (simp add: bound_column_def)

lemma BindOutputImpl_spec:
  assumes "length Ts \<le> n" and "length (output_binds st) = n" and "length (output_buffer st) = n"
    and "length (null_flag_buffer st) = n"
  shows "\<exists>st'. BindOutputImpl Ts st = Inr st' \<and> length (output_binds st') = n \<and>
    length (output_buffer st') = n \<and> output_length st' = output_length st \<and>
    null_flag_buffer st' = null_flag_buffer st \<and>
    (\<forall>i < length Ts. bound_column st st' (Ts ! i) i) \<and>
    (\<forall>i. length Ts \<le> i \<longrightarrow> output_binds st' ! i = output_binds st ! i \<and>
       output_buffer st' ! i = output_buffer st ! i)"
  using assms(1)
proof (induction Ts rule: rev_induct)
  case Nil
  then show ?case using assms by (simp add: BindOutputImpl_def)
next
  case (snoc T Ts)
  then obtain u where u: "BindOutputImpl Ts st = Inr u" "length (output_binds u) = n"
    "length (output_buffer u) = n" "output_length u = output_length st"
    "null_flag_buffer u = null_flag_buffer st" "\<forall>i < length Ts. bound_column st u (Ts ! i) i"
    "\<forall>i. length Ts \<le> i \<longrightarrow> output_binds u ! i = output_binds st ! i \<and>
       output_buffer u ! i = output_buffer st ! i" by auto
  let ?i = "length Ts"
  have i: "?i < length (output_binds u)" "?i < length (output_buffer u)" "?i < length (null_flag_buffer u)"
    using snoc.prems u(2,3,5) assms(4) by simp_all
  obtain b v nb where t: "bind_column (?i, T) u = Inr (u\<lparr>output_binds := (output_binds u)[?i := b],
      output_buffer := (output_buffer u)[?i := v], next_buf := nb\<rparr>)" (is "_ = Inr ?t")
    and col: "\<And>st'. output_binds st' ! ?i = b \<Longrightarrow> output_buffer st' ! ?i = v \<Longrightarrow> bound_column u st' T ?i"
    by (rule bind_column_spec [OF i, of T]) blast
  have "BindOutputImpl (Ts @ [T]) st = Inr ?t"
    using u(1) t by (simp add: BindOutputImpl_def enumerate_append_eq foldE_append)
  moreover have "bound_column u ?t T ?i" by (rule col) (use i in simp_all)
  then have "bound_column st ?t T ?i" using u(7) bound_column_cong [of u ?i st ?t ?t T] by simp
  moreover have "bound_column st ?t (Ts ! j) j" if "j < ?i" for j
    using u(6) that bound_column_cong [of st j st u ?t "Ts ! j"] by simp
  ultimately show ?case
    using u by (intro exI [of _ ?t]) (auto simp: nth_append less_Suc_eq)
qed

lemma failed_fields_none:
  "failed_fields Ts fm = [] \<longleftrightarrow> (\<forall>i < length Ts. OutputTypeValid (Ts ! i) (field_type (fm ! i)))"
  by (auto simp: failed_fields_def filter_empty_conv)

lemma CheckFieldsOutputArgs_ok:
  assumes "b \<in> ress s" and "\<And>f as. f \<noteq> [] \<Longrightarrow> fmt f as \<noteq> []"
  shows "CheckFieldsOutputArgs fmt api Ts (Some b) s = Inr [] \<longleftrightarrow>
    length (c_fetch_fields api b (lib s)) = length Ts \<and>
    (\<forall>i < length Ts. OutputTypeValid (Ts ! i) (field_type (c_fetch_fields api b (lib s) ! i)))"
  using assms by (simp add: CheckFieldsOutputArgs_def Let_def failed_fields_none)

text \<open>C25: Every argument reaches the server with its own value: the bind made for it says the
  type, signedness, address and length under which the C API reads back exactly that
  value, in the order of the arguments.\<close>

theorem input_binds_carry_values:
  "map read_input (BindInputImpl args) = map (\<lambda>a. Some (arg_value a)) args"
proof -
  have "read_input (StepInputBind a) = Some (arg_value a)" for a
  proof (cases a)
    case (InScalar v)
    then show ?thesis by (cases v) simp_all
  qed (simp_all add: MysqlBlob_Size_def)
  then show ?thesis by (simp add: BindInputImpl_def del: read_input.simps)
qed


end
