(* ===== verification/Mysql_Query.thy ===== *)
theory Mysql_Query
  imports Mysql_Executor Mysql_Results Mysql_Statement Mysql_Binder
begin

text \<open>
  The queries of \<^verbatim>\<open>executor/mysql_executor.{h,cc}\<close>: the formatter of native queries, and
  \<^verbatim>\<open>QueryAll\<close> and \<^verbatim>\<open>Execute\<close> with everything below them. The three instances of \<^verbatim>\<open>QueryAll\<close> and
  \<^verbatim>\<open>Execute\<close> the template arguments select are separate definitions: typed rows through a
  prepared statement, native rows of text, and statements that only execute.

  A fetched row is written through the binds the library copied in \<^verbatim>\<open>mysql_stmt_bind_result\<close>, as
  the C API documents. \<open>fmt\<close> is the framework's \<^verbatim>\<open>util::FormatString\<close>, \<open>tfmt\<close> its
  \<^verbatim>\<open>time::StringFormat\<close>.
\<close>

section \<open>The formatter\<close>

definition ConvertPlaceHolder :: "string \<Rightarrow> string" where
  "ConvertPlaceHolder sql =
     concat (map (\<lambda>i. if sql ! i = CHR ''?'' \<and> (i = 0 \<or> sql ! (i - 1) \<noteq> CHR 0x5C)
                      then ''{}'' else [sql ! i]) [0..<length sql])"

definition quoted :: "string \<Rightarrow> string" where
  "quoted s = CHR 0x27 # s @ [CHR 0x27]"

fun SpecialConvert :: "(string \<Rightarrow> printf_arg list \<Rightarrow> string) \<Rightarrow> input_arg \<Rightarrow> fmt_arg" where
  "SpecialConvert tfmt (InScalar v) = FScalar v"
| "SpecialConvert tfmt (InString s) = FText (quoted s)"
| "SpecialConvert tfmt (InTime t) = FText (quoted (ToString tfmt t))"
| "SpecialConvert tfmt (InBlob b) = FText (data b)"

text \<open>The overload for \<^verbatim>\<open>const char*\<close>; a null pointer is \<open>None\<close>.\<close>

definition SpecialConvert_cstr :: "string option \<Rightarrow> fmt_arg" where
  "SpecialConvert_cstr arg =
     (case arg of Some s \<Rightarrow> FText (quoted (c_str s)) | None \<Rightarrow> FText ''NULL'')"

definition FormatQuery ::
  "formatter \<Rightarrow> (string \<Rightarrow> printf_arg list \<Rightarrow> string) \<Rightarrow> string \<Rightarrow> input_arg list \<Rightarrow> string" where
  "FormatQuery fmt tfmt query args =
     fmt (ConvertPlaceHolder query) (map (SpecialConvert tfmt) args)"

section \<open>Executing a statement\<close>

text \<open>The framework's \<^verbatim>\<open>Status\<close>: its framework code and message.\<close>

record status =
  frame_ret :: int
  status_msg :: string

definition status_ok :: status where
  "status_ok = \<lparr>frame_ret = 0, status_msg = []\<rparr>"

definition status_OK :: "status \<Rightarrow> bool" where
  "status_OK st \<longleftrightarrow> frame_ret st = 0"

text \<open>The start of both overloads: reconnecting a lost connection. \<open>None\<close>: go on.\<close>

definition ensure_alive ::
  "'w mysql_api \<Rightarrow> nat \<Rightarrow> 'w sys \<Rightarrow> (status option \<times> 'w sys) result" where
  "ensure_alive api r s =
     bindE (CheckAlive api r s) (\<lambda>(alive, s).
       if alive then Inr (None, s)
       else bindE (StartReconnect api r s) (\<lambda>(ok, s).
         if ok then Inr (None, s)
         else bindE (GetErrorNumber api r s) (\<lambda>n.
              bindE (GetErrorMessage api r s) (\<lambda>m.
                Inr (Some \<lparr>frame_ret = n, status_msg = m\<rparr>, s)))))"

definition stmt_status ::
  "'w mysql_api \<Rightarrow> statement \<Rightarrow> 'w sys \<Rightarrow> status result" where
  "stmt_status api st s =
     bindE (stmt_errno api st s) (\<lambda>n. bindE (stmt_error api st s) (\<lambda>m.
       Inr \<lparr>frame_ret = n, status_msg = m\<rparr>))"

text \<open>\<^verbatim>\<open>ExecuteStatement\<close> with output binds: the library takes a copy of them.\<close>

definition ExecuteStatement_binds ::
  "'w mysql_api \<Rightarrow> nat \<Rightarrow> output_bind list \<Rightarrow> statement \<Rightarrow> 'w sys \<Rightarrow>
   (status \<times> output_bind list \<times> 'w sys) result" where
  "ExecuteStatement_binds api r binds st s =
     bindE (ensure_alive api r s) (\<lambda>(failed, s).
       case failed of Some f \<Rightarrow> Inr (f, [], s)
       | None \<Rightarrow>
           bindE (stmt_call (mysql_stmt st) (s_bind_result api) s) (\<lambda>(ret, s).
             if ret \<noteq> 0 then bindE (stmt_status api st s) (\<lambda>f. Inr (f, [], s))
             else bindE (stmt_call (mysql_stmt st) (s_execute api) s) (\<lambda>(ret, s).
               if ret \<noteq> 0 then bindE (stmt_status api st s) (\<lambda>f. Inr (f, [], s))
               else Inr (status_ok, binds, s))))"

definition ExecuteStatement ::
  "'w mysql_api \<Rightarrow> nat \<Rightarrow> statement \<Rightarrow> 'w sys \<Rightarrow> (status \<times> 'w sys) result" where
  "ExecuteStatement api r st s =
     bindE (ensure_alive api r s) (\<lambda>(failed, s).
       case failed of Some f \<Rightarrow> Inr (f, s)
       | None \<Rightarrow>
           bindE (stmt_call (mysql_stmt st) (s_execute api) s) (\<lambda>(ret, s).
             if ret \<noteq> 0 then bindE (stmt_status api st s) (\<lambda>f. Inr (f, s))
             else Inr (status_ok, s)))"

section \<open>The handle of a query\<close>

record query_handle = out_state +
  dynamic_buffer_index :: "nat list"

text \<open>The constructor, with \<^verbatim>\<open>ResizeOutputBuffer\<close> and \<^verbatim>\<open>ResizeBuffers\<close>.\<close>

definition resize_column ::
  "nat \<Rightarrow> nat \<times> out_type \<Rightarrow> query_handle \<Rightarrow> query_handle result" where
  "resize_column n it h =
     (let (i, T) = it in
      if is_dynamic T then
        bindE (nthE (output_buffer h) i) (\<lambda>v.
          let (v, nb) = vec_resize n (next_buf h) v
          in Inr (h\<lparr>output_buffer := (output_buffer h)[i := v], next_buf := nb,
                    dynamic_buffer_index := dynamic_buffer_index h @ [i]\<rparr>))
      else Inr h)"

definition QueryHandle_new :: "MysqlResultsOption \<Rightarrow> out_type list \<Rightarrow> nat \<Rightarrow> query_handle result" where
  "QueryHandle_new opt Ts n =
     foldE (resize_column (dynamic_buffer_init_size opt)) (enumerate 0 Ts)
       \<lparr>output_binds = replicate n output_bind_zero, output_buffer = replicate n vec_new,
        output_length = replicate n 0, null_flag_buffer = replicate n False, next_buf = 1,
        dynamic_buffer_index = []\<rparr>"

text \<open>\<^verbatim>\<open>BindOutputs\<close>; \<^verbatim>\<open>BindOutputImpl\<close> changes the binds and buffers of the handle.\<close>

definition with_out_state :: "query_handle \<Rightarrow> out_state \<Rightarrow> query_handle" where
  "with_out_state h st =
     h\<lparr>output_binds := output_binds st, output_buffer := output_buffer st,
       output_length := output_length st, null_flag_buffer := null_flag_buffer st,
       next_buf := next_buf st\<rparr>"

definition out_state_of :: "query_handle \<Rightarrow> out_state" where
  "out_state_of h =
     \<lparr>output_binds = output_binds h, output_buffer = output_buffer h,
      output_length = output_length h, null_flag_buffer = null_flag_buffer h, next_buf = next_buf h\<rparr>"

definition BindOutputs ::
  "'w mysql_api \<Rightarrow> out_type list \<Rightarrow> statement \<Rightarrow> query_handle \<Rightarrow> 'w sys \<Rightarrow>
   (query_handle \<times> 'w sys) result" where
  "BindOutputs api Ts stmt h s =
     bindE (GetResultsMeta api stmt s) (\<lambda>(res, s).
     bindE (use_block (ress s) res) (\<lambda>b.
     bindE (mapE (\<lambda>(i, bind). bindE (nthE (c_fetch_fields api b (lib s)) i) (\<lambda>f.
               Inr (bind\<lparr>ob_type := field_type f\<rparr>))) (enumerate 0 (output_binds h))) (\<lambda>binds.
     bindE (BindOutputImpl Ts (out_state_of (h\<lparr>output_binds := binds\<rparr>))) (\<lambda>st.
       Inr (with_out_state h
         (st\<lparr>output_binds := map (\<lambda>bind. bind\<lparr>ob_length_set := True\<rparr>) (output_binds st)\<rparr>), s)))))"

section \<open>Fetching\<close>

text \<open>What \<^verbatim>\<open>mysql_stmt_fetch\<close> writes for one column, through the copied bind: nothing but the flag
  for NULL; otherwise flag, full length, and the bytes that fit.\<close>

definition vec_write :: "nat \<Rightarrow> nat \<Rightarrow> string \<Rightarrow> vec \<Rightarrow> vec result" where
  "vec_write b off bs v =
     (if bs = [] then Inr v
      else if v_block v \<noteq> b then Inl Use_after_free
      else if length (v_data v) < off + length bs then Inl Out_of_range
      else Inr (v\<lparr>v_data := take off (v_data v) @ bs @ drop (off + length bs) (v_data v)\<rparr>))"

definition write_column ::
  "output_bind list \<Rightarrow> nat \<times> string option \<Rightarrow> query_handle \<Rightarrow> query_handle result" where
  "write_column binds iv h =
     (let (i, v) = iv in
      bindE (nthE binds i) (\<lambda>bind.
      bindE (nthE (output_buffer h) i) (\<lambda>buf.
        case v of
          None \<Rightarrow> Inr (h\<lparr>null_flag_buffer := (null_flag_buffer h)[i := True]\<rparr>)
        | Some bs \<Rightarrow>
            (case ob_buffer bind of None \<Rightarrow> Inl Null_dereference
             | Some (b, off) \<Rightarrow>
                 bindE (vec_write b off (take (write_limit bind) bs) buf) (\<lambda>buf.
                   Inr (h\<lparr>null_flag_buffer := (null_flag_buffer h)[i := False],
                          output_length := (output_length h)[i := length bs],
                          output_buffer := (output_buffer h)[i := buf]\<rparr>))))))"

text \<open>\<^verbatim>\<open>MYSQL_DATA_TRUNCATED\<close>.\<close>

definition truncated :: "output_bind list \<Rightarrow> string option list \<Rightarrow> bool" where
  "truncated binds row \<longleftrightarrow>
     list_ex (\<lambda>(b, v). case v of None \<Rightarrow> False | Some bs \<Rightarrow> write_limit b < length bs) (zip binds row)"

text \<open>\<^verbatim>\<open>FetchTruncatedResults\<close>: the columns \<open>is\<close> are left. Its return value is not used.\<close>

fun fetch_truncated ::
  "'w mysql_api \<Rightarrow> statement \<Rightarrow> string option list \<Rightarrow> nat list \<Rightarrow> query_handle \<Rightarrow> 'w sys \<Rightarrow>
   (bool \<times> query_handle \<times> 'w sys) result" where
  "fetch_truncated api stmt row [] h s = Inr (True, h, s)"
| "fetch_truncated api stmt row (i # is) h s =
     bindE (nthE (output_binds h) i) (\<lambda>bind.
     bindE (nthE (output_length h) i) (\<lambda>data_real_size.
     bindE (nthE (output_buffer h) i) (\<lambda>v.
       let buffer_old_size = length (v_data v) in
       if data_real_size \<le> buffer_old_size then fetch_truncated api stmt row is h s
       else
         let (v, nb) = vec_resize data_real_size (next_buf h) v;
             bind = bind\<lparr>ob_buffer_length := data_real_size, ob_buffer := Some (v_block v, buffer_old_size)\<rparr>;
             h = h\<lparr>output_buffer := (output_buffer h)[i := v], next_buf := nb,
                   output_binds := (output_binds h)[i := bind]\<rparr>
         in bindE (stmt_call (mysql_stmt stmt) (\<lambda>b. s_fetch_column api b i buffer_old_size) s) (\<lambda>(ret, s).
              if ret \<noteq> 0 then Inr (False, h, s)
              else
                bindE (nthE row i) (\<lambda>col.
                bindE (case col of None \<Rightarrow> Inr v
                       | Some bs \<Rightarrow> vec_write (v_block v) buffer_old_size
                           (take data_real_size (drop buffer_old_size bs)) v) (\<lambda>v.
                  fetch_truncated api stmt row is
                    (h\<lparr>output_buffer := (output_buffer h)[i := v],
                       output_binds := (output_binds h)[i := bind\<lparr>ob_buffer := Some (v_block v, 0)\<rparr>]\<rparr>) s))))))"

definition FetchTruncatedResults ::
  "'w mysql_api \<Rightarrow> statement \<Rightarrow> string option list \<Rightarrow> query_handle \<Rightarrow> 'w sys \<Rightarrow>
   (bool \<times> query_handle \<times> 'w sys) result" where
  "FetchTruncatedResults api stmt row h s =
     fetch_truncated api stmt row (dynamic_buffer_index h) h s"

text \<open>One round of the loop of \<^verbatim>\<open>FetchResults\<close>, for a row that was fetched.\<close>

definition fetch_row ::
  "'w mysql_api \<Rightarrow> statement \<Rightarrow> out_type list \<Rightarrow> output_bind list \<Rightarrow> string option list \<Rightarrow>
   query_handle \<Rightarrow> out_value list results \<Rightarrow> 'w sys \<Rightarrow>
   (query_handle \<times> out_value list results \<times> 'w sys) result" where
  "fetch_row api stmt Ts binds row h res s =
     bindE (foldE (write_column binds) (enumerate 0 row) h) (\<lambda>h.
     bindE (if truncated binds row
            then bindE (FetchTruncatedResults api stmt row h s) (\<lambda>(_, h, s). Inr (h, s))
            else Inr (h, s)) (\<lambda>(h, s).
     bindE (SetResultTuple Ts (out_state_of h)) (\<lambda>tuple.
       Inr (h, res\<lparr>result_set := result_set res @ [tuple],
                   null_flags := null_flags res @ [null_flag_buffer h]\<rparr>, s))))"

partial_function (option) fetch_loop ::
  "'w mysql_api \<Rightarrow> statement \<Rightarrow> out_type list \<Rightarrow> output_bind list \<Rightarrow>
   query_handle \<Rightarrow> out_value list results \<Rightarrow> 'w sys \<Rightarrow>
   (bool \<times> out_value list results \<times> 'w sys) result option" where
  "fetch_loop api stmt Ts binds h res s =
     (case stmt_call (mysql_stmt stmt) (s_fetch api) s of
        Inl e \<Rightarrow> Some (Inl e)
      | Inr (Fetch_error, s) \<Rightarrow> Some (Inr (False, res, s))
      | Inr (No_data, s) \<Rightarrow> Some (Inr (True, res, s))
      | Inr (Row row, s) \<Rightarrow>
          (case fetch_row api stmt Ts binds row h res s of
             Inl e \<Rightarrow> Some (Inl e)
           | Inr (h, res, s) \<Rightarrow> fetch_loop api stmt Ts binds h res s))"

definition FetchResults ::
  "'w mysql_api \<Rightarrow> statement \<Rightarrow> out_type list \<Rightarrow> output_bind list \<Rightarrow>
   query_handle \<Rightarrow> out_value list results \<Rightarrow> 'w sys \<Rightarrow>
   (bool \<times> out_value list results \<times> 'w sys) result" where
  "FetchResults api stmt Ts binds h res s =
     bindE (stmt_call (mysql_stmt stmt) (s_store_result api) s) (\<lambda>(ret, s).
       if ret \<noteq> 0 then Inr (False, res, s)
       else case fetch_loop api stmt Ts binds h res s of Some out \<Rightarrow> out | None \<Rightarrow> Inl Diverges)"

section \<open>Queries\<close>

definition TRPC_MYSQL_INVALID_HANDLE :: int where "TRPC_MYSQL_INVALID_HANDLE = 3502"
definition TRPC_MYSQL_STMT_PARAMS_ERROR :: int where "TRPC_MYSQL_STMT_PARAMS_ERROR = 3503"

definition set_error :: "string \<Rightarrow> int \<Rightarrow> 'r results \<Rightarrow> 'r results" where
  "set_error m n res = SetErrorNumber n (SetErrorMessage m res)"

text \<open>The end of every path: \<^verbatim>\<open>CloseStatement\<close>, whose result is not used, and the destructor.\<close>

definition end_stmt :: "'w mysql_api \<Rightarrow> statement \<Rightarrow> 'w sys \<Rightarrow> 'w sys result" where
  "end_stmt api stmt s =
     bindE (CloseStatement api stmt s) (\<lambda>(_, stmt, s).
     bindE (MysqlStatement_destroy stmt) (\<lambda>_. Inr s))"

text \<open>An error path that takes its error from the statement.\<close>

definition stmt_fail ::
  "'w mysql_api \<Rightarrow> 'x \<Rightarrow> statement \<Rightarrow> 'r results \<Rightarrow> 'w sys \<Rightarrow> ('x \<times> 'r results \<times> 'w sys) result" where
  "stmt_fail api x stmt res s =
     bindE (stmt_error api stmt s) (\<lambda>m.
     bindE (stmt_errno api stmt s) (\<lambda>n.
     bindE (end_stmt api stmt s) (\<lambda>s. Inr (x, set_error m n res, s))))"

definition QueryAllInternal_typed ::
  "formatter \<Rightarrow> 'w mysql_api \<Rightarrow> nat \<Rightarrow> out_type list \<Rightarrow> out_value list results \<Rightarrow> string \<Rightarrow>
   input_arg list \<Rightarrow> 'w sys \<Rightarrow> (bool \<times> out_value list results \<times> 'w sys) result" where
  "QueryAllInternal_typed fmt api r Ts res query args s =
     bindE (Clear api res s) (\<lambda>(res, s).
     bindE (get_exec r s) (\<lambda>e.
     bindE (Init api query (MysqlStatement_new (mysql e)) s) (\<lambda>(ok, stmt, s).
       if \<not> ok then stmt_fail api False stmt res s
       else
         bindE (GetResultsMeta api stmt s) (\<lambda>(meta, s).
         bindE (CheckFieldsOutputArgs fmt api Ts meta s) (\<lambda>msg.
           if msg \<noteq> [] then
             bindE (end_stmt api stmt s) (\<lambda>s.
               Inr (False, set_error msg TRPC_MYSQL_STMT_PARAMS_ERROR res, s))
           else
             bindE (BindParam api (BindInputImpl args) stmt s) (\<lambda>(ok, s).
               if \<not> ok then stmt_fail api False stmt res s
               else
                 bindE (QueryHandle_new (GetOption res) Ts (unat (GetFieldCount stmt))) (\<lambda>h.
                 bindE (BindOutputs api Ts stmt h s) (\<lambda>(h, s).
                 bindE (ExecuteStatement_binds api r (output_binds h) stmt s) (\<lambda>(f, binds, s).
                   if \<not> status_OK f then
                     bindE (end_stmt api stmt s) (\<lambda>s.
                       Inr (False, set_error (status_msg f) (frame_ret f) res, s))
                   else
                     bindE (FetchResults api stmt Ts binds h res s) (\<lambda>(ok, res, s).
                       if \<not> ok then stmt_fail api False stmt res s
                       else
                         bindE (GetResultsMeta api stmt s) (\<lambda>(meta, s).
                         bindE (SetFieldsName api meta res s) (\<lambda>res.
                         bindE (end_stmt api stmt s) (\<lambda>s.
                           Inr (True, res, s))))))))))))))"

text \<open>
  Native rows. A view into the result's memory is the block and the text there; the view of
  the literal \<^verbatim>\<open>""\<close> for NULL has no block.
\<close>

record view =
  view_of :: ptr
  view_text :: string

definition store_native_row ::
  "nat \<Rightarrow> nat \<Rightarrow> string option list \<Rightarrow> view list results \<Rightarrow> view list results result" where
  "store_native_row b num_fields row res =
     bindE (mapE (nthE row) [0..<num_fields]) (\<lambda>cols.
       Inr (res\<lparr>null_flags := null_flags res @ [map (\<lambda>c. c = None) cols],
                result_set := result_set res @
                  [map (\<lambda>c. case c of Some t \<Rightarrow> \<lparr>view_of = Some b, view_text = t\<rparr>
                              | None \<Rightarrow> \<lparr>view_of = None, view_text = []\<rparr>) cols]\<rparr>))"

definition mysql_store_result ::
  "'w mysql_api \<Rightarrow> ptr \<Rightarrow> 'w sys \<Rightarrow> (ptr \<times> 'w sys) result" where
  "mysql_store_result api p s =
     bindE (use_block (mysqls s) p) (\<lambda>h.
       let b = next_block s; (ok, w) = c_store_result api h b (lib s)
       in if ok then Inr (Some b, s\<lparr>lib := w, next_block := Suc b, ress := insert b (ress s)\<rparr>)
          else Inr (None, s\<lparr>lib := w\<rparr>))"

text \<open>An error path that takes its error from the connection.\<close>

definition conn_fail ::
  "'w mysql_api \<Rightarrow> nat \<Rightarrow> 'x \<Rightarrow> 'r results \<Rightarrow> 'w sys \<Rightarrow> ('x \<times> 'r results \<times> 'w sys) result" where
  "conn_fail api r x res s =
     bindE (GetErrorMessage api r s) (\<lambda>m.
     bindE (GetErrorNumber api r s) (\<lambda>n. Inr (x, set_error m n res, s)))"

definition QueryAllInternal_native ::
  "formatter \<Rightarrow> (string \<Rightarrow> printf_arg list \<Rightarrow> string) \<Rightarrow> 'w mysql_api \<Rightarrow> nat \<Rightarrow> view list results \<Rightarrow>
   string \<Rightarrow> input_arg list \<Rightarrow> 'w sys \<Rightarrow> (bool \<times> view list results \<times> 'w sys) result" where
  "QueryAllInternal_native fmt tfmt api r res query args s =
     bindE (Clear api res s) (\<lambda>(res, s).
     bindE (get_exec r s) (\<lambda>e.
     bindE (mysql_call (mysql e) (\<lambda>h. c_real_query api h (FormatQuery fmt tfmt query args)) s) (\<lambda>(ret, s).
       if ret \<noteq> 0 then conn_fail api r False res s
       else
         bindE (mysql_store_result api (mysql e) s) (\<lambda>(res_ptr, s).
           case res_ptr of
             None \<Rightarrow> conn_fail api r False res s
           | Some b \<Rightarrow>
               bindE (foldE (store_native_row b (length (c_fetch_fields api b (lib s))))
                        (c_rows api b (lib s)) res) (\<lambda>res.
               bindE (SetRawMysqlRes res_ptr res) (\<lambda>res.
               bindE (SetFieldsName api res_ptr res s) (\<lambda>res.
                 Inr (True, res, s))))))))"

definition ExecuteInternal_args ::
  "'w mysql_api \<Rightarrow> nat \<Rightarrow> string \<Rightarrow> 'r results \<Rightarrow> input_arg list \<Rightarrow> 'w sys \<Rightarrow>
   (u64 \<times> 'r results \<times> 'w sys) result" where
  "ExecuteInternal_args api r query res args s =
     bindE (Clear api res s) (\<lambda>(res, s).
     bindE (get_exec r s) (\<lambda>e.
     bindE (Init api query (MysqlStatement_new (mysql e)) s) (\<lambda>(ok, stmt, s).
       if \<not> ok then stmt_fail api 0 stmt res s
       else
         bindE (BindParam api (BindInputImpl args) stmt s) (\<lambda>(ok, s).
           if \<not> ok then stmt_fail api 0 stmt res s
           else
             bindE (ExecuteStatement api r stmt s) (\<lambda>(f, s).
               if \<not> status_OK f then
                 bindE (end_stmt api stmt s) (\<lambda>s. Inr (0, set_error (status_msg f) (frame_ret f) res, s))
               else
                 bindE (get_exec r s) (\<lambda>e.
                 bindE (use_block (mysqls s) (mysql e)) (\<lambda>h.
                   let affected_row = c_affected_rows api h (lib s)
                   in bindE (end_stmt api stmt s) (\<lambda>s. Inr (affected_row, res, s)))))))))"

text \<open>The overload without arguments: no prepared statement, and no \<^verbatim>\<open>Clear\<close>.\<close>

definition ExecuteInternal ::
  "'w mysql_api \<Rightarrow> nat \<Rightarrow> string \<Rightarrow> 'r results \<Rightarrow> 'w sys \<Rightarrow> (u64 \<times> 'r results \<times> 'w sys) result" where
  "ExecuteInternal api r query res s =
     bindE (get_exec r s) (\<lambda>e.
     bindE (mysql_call (mysql e) (\<lambda>h. c_real_query api h query) s) (\<lambda>(ret, s).
       if ret \<noteq> 0 then conn_fail api r 0 res s
       else bindE (use_block (mysqls s) (mysql e)) (\<lambda>h. Inr (c_affected_rows api h (lib s), res, s))))"

text \<open>Overload resolution prefers the function that is not a template when there are no arguments.\<close>

definition Execute ::
  "'w mysql_api \<Rightarrow> nat \<Rightarrow> 'r results \<Rightarrow> string \<Rightarrow> input_arg list \<Rightarrow> 'w sys \<Rightarrow>
   (bool \<times> 'r results \<times> 'w sys) result" where
  "Execute api r res query args s =
     bindE (if args = [] then ExecuteInternal api r query res s
            else ExecuteInternal_args api r query res args s) (\<lambda>(n, res, s).
       Inr (True, SetAffectedRows n res, s))"

definition QueryAll ::
  "('r results \<Rightarrow> 'w sys \<Rightarrow> (bool \<times> 'r results \<times> 'w sys) result) \<Rightarrow> 'r results \<Rightarrow> 'w sys \<Rightarrow>
   (bool \<times> 'r results \<times> 'w sys) result" where
  "QueryAll QueryAllInternal res s =
     bindE (assertE (mode res \<noteq> OnlyExec)) (\<lambda>_.
     bindE (QueryAllInternal res s) (\<lambda>(ok, res, s).
       if \<not> ok then Inr (False, res, s) else Inr (True, res\<lparr>has_value := True\<rparr>, s)))"

definition QueryAll_typed ::
  "formatter \<Rightarrow> 'w mysql_api \<Rightarrow> nat \<Rightarrow> out_type list \<Rightarrow> out_value list results \<Rightarrow> string \<Rightarrow>
   input_arg list \<Rightarrow> 'w sys \<Rightarrow> (bool \<times> out_value list results \<times> 'w sys) result" where
  "QueryAll_typed fmt api r Ts res query args s =
     QueryAll (\<lambda>res. QueryAllInternal_typed fmt api r Ts res query args) res s"

definition QueryAll_native ::
  "formatter \<Rightarrow> (string \<Rightarrow> printf_arg list \<Rightarrow> string) \<Rightarrow> 'w mysql_api \<Rightarrow> nat \<Rightarrow> view list results \<Rightarrow>
   string \<Rightarrow> input_arg list \<Rightarrow> 'w sys \<Rightarrow> (bool \<times> view list results \<times> 'w sys) result" where
  "QueryAll_native fmt tfmt api r res query args s =
     QueryAll (\<lambda>res. QueryAllInternal_native fmt tfmt api r res query args) res s"

section \<open>Fetching rows that fit\<close>

lemma mapE_map: "(\<And>x. x \<in> set xs \<Longrightarrow> f x = Inr (g x)) \<Longrightarrow> mapE f xs = Inr (map g xs)"
  by (induction xs) simp_all

lemma mapE_length: "mapE f xs = Inr ys \<Longrightarrow> length ys = length xs"
  by (induction xs arbitrary: ys) (auto simp: bindE_Inr_iff)

text \<open>What the library finds from a world on: rows, then the end.\<close>

fun fetches :: "'w mysql_api \<Rightarrow> nat \<Rightarrow> 'w \<Rightarrow> string option list list \<Rightarrow> 'w \<Rightarrow> bool" where
  "fetches api b w [] w' \<longleftrightarrow> s_fetch api b w = (No_data, w')"
| "fetches api b w (row # rows) w' \<longleftrightarrow>
     (\<exists>u. s_fetch api b w = (Row row, u) \<and> fetches api b u rows w')"

text \<open>The same up to the first answer \<open>f\<close> that is not a row.\<close>

fun fetches_until :: "'w mysql_api \<Rightarrow> nat \<Rightarrow> 'w \<Rightarrow> string option list list \<Rightarrow> fetched \<Rightarrow> 'w \<Rightarrow> bool" where
  "fetches_until api b w [] f w' \<longleftrightarrow> s_fetch api b w = (f, w') \<and> f \<in> {No_data, Fetch_error}"
| "fetches_until api b w (row # rows) f w' \<longleftrightarrow>
     (\<exists>u. s_fetch api b w = (Row row, u) \<and> fetches_until api b u rows f w')"

lemma fetches_until_no_data: "fetches_until api b w rows No_data w' = fetches api b w rows w'"
  by (induction rows arbitrary: w) simp_all

text \<open>A handle whose columns are bound to \<open>Ts\<close>, the library having copied its binds.\<close>

definition ready :: "out_type list \<Rightarrow> query_handle \<Rightarrow> bool" where
  "ready Ts h \<longleftrightarrow>
     length (output_binds h) = length Ts \<and> length (output_buffer h) = length Ts \<and>
     length (output_length h) = length Ts \<and> length (null_flag_buffer h) = length Ts \<and>
     (\<forall>i < length Ts. ob_buffer (output_binds h ! i) = Some (v_block (output_buffer h ! i), 0) \<and>
        write_limit (output_binds h ! i) \<le> length (v_data (output_buffer h ! i)) \<and>
        (\<not> is_dynamic (Ts ! i) \<longrightarrow> length (v_data (output_buffer h ! i)) = sizeof (Ts ! i)))"

definition fits :: "out_type \<Rightarrow> output_bind \<Rightarrow> string option \<Rightarrow> bool" where
  "fits T b v \<longleftrightarrow> (\<forall>bs. v = Some bs \<longrightarrow> length bs \<le> write_limit b \<and>
     (\<not> is_dynamic T \<longrightarrow> length bs = sizeof T))"

definition row_fits :: "out_type list \<Rightarrow> output_bind list \<Rightarrow> string option list \<Rightarrow> bool" where
  "row_fits Ts binds row \<longleftrightarrow> length row = length Ts \<and> (\<forall>i < length Ts. fits (Ts ! i) (binds ! i) (row ! i))"

text \<open>A tuple that has the row's values; a NULL string or blob is empty.\<close>

definition row_matches :: "out_type list \<Rightarrow> string option list \<Rightarrow> out_value list \<Rightarrow> bool" where
  "row_matches Ts row tuple \<longleftrightarrow> length tuple = length Ts \<and>
     (\<forall>i < length Ts. case row ! i of
        Some bs \<Rightarrow> tuple ! i = decode (Ts ! i) bs
      | None \<Rightarrow> is_dynamic (Ts ! i) \<longrightarrow> tuple ! i = decode (Ts ! i) [])"

text \<open>The state of column \<open>i\<close> after a value was written.\<close>

definition written :: "query_handle \<Rightarrow> string option \<Rightarrow> nat \<Rightarrow> query_handle \<Rightarrow> bool" where
  "written h0 v i h \<longleftrightarrow>
     (case v of
        None \<Rightarrow> null_flag_buffer h ! i \<and> output_buffer h ! i = output_buffer h0 ! i
      | Some bs \<Rightarrow> \<not> null_flag_buffer h ! i \<and> output_length h ! i = length bs \<and>
          v_block (output_buffer h ! i) = v_block (output_buffer h0 ! i) \<and>
          v_data (output_buffer h ! i) = bs @ drop (length bs) (v_data (output_buffer h0 ! i)))"

definition same_shape :: "query_handle \<Rightarrow> query_handle \<Rightarrow> bool" where
  "same_shape h0 h \<longleftrightarrow>
     output_binds h = output_binds h0 \<and> length (output_buffer h) = length (output_buffer h0) \<and>
     length (output_length h) = length (output_length h0) \<and>
     length (null_flag_buffer h) = length (null_flag_buffer h0) \<and>
     dynamic_buffer_index h = dynamic_buffer_index h0 \<and> next_buf h = next_buf h0"

lemma vec_write_start:
  "v_block v = b \<Longrightarrow> length bs \<le> length (v_data v) \<Longrightarrow>
    vec_write b 0 bs v = Inr (v\<lparr>v_data := bs @ drop (length bs) (v_data v)\<rparr>)"
  by (simp add: vec_write_def)

lemma write_column_spec:
  assumes h: "ready Ts h" and i: "i < length Ts" and v: "fits (Ts ! i) (output_binds h ! i) v"
    and same: "same_shape h h1" "output_buffer h1 ! i = output_buffer h ! i"
  obtains h2 where "write_column (output_binds h) (i, v) h1 = Inr h2" and "same_shape h h2"
    and "written h v i h2"
    and "\<And>j. j \<noteq> i \<Longrightarrow> null_flag_buffer h2 ! j = null_flag_buffer h1 ! j \<and>
      output_buffer h2 ! j = output_buffer h1 ! j \<and> output_length h2 ! j = output_length h1 ! j"
proof -
  note R = h [unfolded ready_def] and S = same(1) [unfolded same_shape_def]
  show thesis
  proof (cases v)
    case None
    let ?h = "h1\<lparr>null_flag_buffer := (null_flag_buffer h1)[i := True]\<rparr>"
    have "write_column (output_binds h) (i, v) h1 = Inr ?h"
      using R S i None by (simp add: write_column_def)
    then show thesis
      by (rule that) (use R S i None same(2) in \<open>simp_all add: same_shape_def written_def\<close>)
  next
    case (Some bs)
    let ?b = "v_block (output_buffer h ! i)" and ?d = "v_data (output_buffer h ! i)"
    let ?v = "(output_buffer h ! i)\<lparr>v_data := bs @ drop (length bs) ?d\<rparr>"
    let ?h = "h1\<lparr>null_flag_buffer := (null_flag_buffer h1)[i := False],
      output_length := (output_length h1)[i := length bs],
      output_buffer := (output_buffer h1)[i := ?v]\<rparr>"
    have len: "length bs \<le> write_limit (output_binds h ! i)" "write_limit (output_binds h ! i) \<le> length ?d"
      using v Some R i by (simp_all add: fits_def)
    then have "vec_write ?b 0 bs (output_buffer h ! i) = Inr ?v" by (intro vec_write_start) simp_all
    then have "write_column (output_binds h) (i, v) h1 = Inr ?h"
      using R S i Some len same(2) by (simp add: write_column_def)
    then show thesis
      by (rule that) (use R S i Some same(2) in \<open>simp_all add: same_shape_def written_def\<close>)
  qed
qed

lemma write_row_spec:
  assumes h: "ready Ts h" and row: "row_fits Ts (output_binds h) row"
  shows "\<exists>h'. foldE (write_column (output_binds h)) (enumerate 0 row) h = Inr h' \<and> same_shape h h' \<and>
    (\<forall>i < length Ts. written h (row ! i) i h')"
proof -
  have "k \<le> length row \<Longrightarrow>
    \<exists>h'. foldE (write_column (output_binds h)) (enumerate 0 (take k row)) h = Inr h' \<and> same_shape h h' \<and>
      (\<forall>i < k. written h (row ! i) i h') \<and> (\<forall>i \<ge> k. output_buffer h' ! i = output_buffer h ! i)" for k
  proof (induction k)
    case 0
    then show ?case by (simp add: same_shape_def)
  next
    case (Suc k)
    then obtain h1 where h1: "foldE (write_column (output_binds h)) (enumerate 0 (take k row)) h = Inr h1"
      "same_shape h h1" "\<forall>i < k. written h (row ! i) i h1" "\<forall>i \<ge> k. output_buffer h1 ! i = output_buffer h ! i"
      by auto
    have k: "k < length Ts" "fits (Ts ! k) (output_binds h ! k) (row ! k)"
      using Suc.prems row by (simp_all add: row_fits_def)
    obtain h2 where h2: "write_column (output_binds h) (k, row ! k) h1 = Inr h2" "same_shape h h2"
      "written h (row ! k) k h2"
      "\<And>j. j \<noteq> k \<Longrightarrow> null_flag_buffer h2 ! j = null_flag_buffer h1 ! j \<and>
        output_buffer h2 ! j = output_buffer h1 ! j \<and> output_length h2 ! j = output_length h1 ! j"
      by (rule write_column_spec [OF h k h1(2)]) (use h1(4) in blast)+
    have "written h (row ! i) i h2" if "i < k" for i
    proof -
      have "written h (row ! i) i h1" using h1(3) that by blast
      then show ?thesis using h2(4) [of i] that by (cases "row ! i") (simp_all add: written_def)
    qed
    moreover have "take (Suc k) row = take k row @ [row ! k]"
      using Suc.prems by (simp add: take_Suc_conv_app_nth)
    moreover have "length (take k row) = k" using Suc.prems by simp
    ultimately show ?case
      using h1(1,4) h2 by (auto simp: enumerate_append_eq foldE_append less_Suc_eq)
  qed
  moreover have "length row = length Ts" using row by (simp add: row_fits_def)
  ultimately show ?thesis by (metis order_refl take_all)
qed

lemma not_truncated:
  assumes "ready Ts h" and "row_fits Ts (output_binds h) row"
  shows "\<not> truncated (output_binds h) row"
proof -
  have "case v of None \<Rightarrow> True | Some bs \<Rightarrow> \<not> write_limit b < length bs"
    if bv: "(b, v) \<in> set (zip (output_binds h) row)" for b v
  proof -
    obtain i where "i < length Ts" "output_binds h ! i = b" "row ! i = v"
      using bv assms by (auto simp: set_zip row_fits_def ready_def)
    then show ?thesis using assms(2) by (auto simp: row_fits_def fits_def split: option.splits)
  qed
  then show ?thesis by (fastforce simp: truncated_def list_ex_iff split: option.splits)
qed

lemma ready_written:
  assumes h: "ready Ts h" and row: "row_fits Ts (output_binds h) row"
    and s: "same_shape h h'" and w: "\<forall>i < length Ts. written h (row ! i) i h'"
  shows "ready Ts h'"
proof -
  note R = h [unfolded ready_def] and S = s [unfolded same_shape_def]
  have "v_block (output_buffer h' ! i) = v_block (output_buffer h ! i) \<and>
      length (v_data (output_buffer h' ! i)) = length (v_data (output_buffer h ! i))"
    if i: "i < length Ts" for i
  proof (cases "row ! i")
    case None
    with w i show ?thesis by (auto simp: written_def)
  next
    case (Some bs)
    then have "length bs \<le> write_limit (output_binds h ! i)"
      using row i by (simp add: row_fits_def fits_def)
    also have "\<dots> \<le> length (v_data (output_buffer h ! i))" using R i by blast
    finally have "length bs \<le> length (v_data (output_buffer h ! i))" .
    with w i Some show ?thesis by (auto simp: written_def)
  qed
  with R S show ?thesis by (simp add: ready_def)
qed

lemma StepTupleSet_written:
  assumes R': "ready Ts h'" and i: "i < length Ts" and wi: "written h (row ! i) i h'"
    and row: "row_fits Ts (output_binds h) row"
  shows "\<exists>x. StepTupleSet (out_state_of h') (i, Ts ! i) = Inr x \<and>
      (case row ! i of Some bs \<Rightarrow> x = decode (Ts ! i) bs
       | None \<Rightarrow> is_dynamic (Ts ! i) \<longrightarrow> x = decode (Ts ! i) [])"
proof -
  note R' = R' [unfolded ready_def]
  have read: "read_buffer (out_state_of h') i n = Inr (take n (v_data (output_buffer h' ! i)))"
    if "n \<le> length (v_data (output_buffer h' ! i))" for n
    using R' i that by (simp add: read_buffer_def out_state_of_def)
  show ?thesis
  proof (cases "row ! i")
    case None
    show ?thesis
    proof (cases "is_dynamic (Ts ! i)")
      case True
      with None wi R' i show ?thesis by (simp add: StepTupleSet_def written_def out_state_of_def)
    next
      case False
      with None R' i read [of "sizeof (Ts ! i)"] show ?thesis by (simp add: StepTupleSet_def)
    qed
  next
    case (Some bs)
    then have d: "v_data (output_buffer h' ! i) = bs @ drop (length bs) (v_data (output_buffer h ! i))"
      "\<not> null_flag_buffer h' ! i" "output_length h' ! i = length bs"
      using wi by (simp_all add: written_def)
    have len: "\<not> is_dynamic (Ts ! i) \<Longrightarrow> length bs = sizeof (Ts ! i)"
      using row i Some by (simp add: row_fits_def fits_def)
    have "read_buffer (out_state_of h') i (length bs) = Inr bs" using read [of "length bs"] d(1) by simp
    then show ?thesis
      using Some d len R' i by (cases "is_dynamic (Ts ! i)") (simp_all add: StepTupleSet_def out_state_of_def)
  qed
qed

lemma SetResultTuple_written:
  assumes h: "ready Ts h" and row: "row_fits Ts (output_binds h) row"
    and s: "same_shape h h'" and w: "\<forall>i < length Ts. written h (row ! i) i h'"
  obtains tuple where "SetResultTuple Ts (out_state_of h') = Inr tuple" and "row_matches Ts row tuple"
proof -
  have "ready Ts h'" by (rule ready_written [OF assms])
  note step = StepTupleSet_written [OF this _ _ row]
  define x where "x = (\<lambda>i. SOME x. StepTupleSet (out_state_of h') (i, Ts ! i) = Inr x \<and>
      (case row ! i of Some bs \<Rightarrow> x = decode (Ts ! i) bs
       | None \<Rightarrow> is_dynamic (Ts ! i) \<longrightarrow> x = decode (Ts ! i) []))"
  have x: "StepTupleSet (out_state_of h') (i, Ts ! i) = Inr (x i) \<and>
      (case row ! i of Some bs \<Rightarrow> x i = decode (Ts ! i) bs
       | None \<Rightarrow> is_dynamic (Ts ! i) \<longrightarrow> x i = decode (Ts ! i) [])" if "i < length Ts" for i
    unfolding x_def by (rule someI_ex [OF step [OF that]]) (use w that in blast)
  have "SetResultTuple Ts (out_state_of h') = Inr (map (\<lambda>(i, T). x i) (enumerate 0 Ts))"
    unfolding SetResultTuple_def
    by (rule mapE_map) (use x in \<open>auto simp: in_set_enumerate_eq\<close>)
  moreover have "row_matches Ts row (map (\<lambda>(i, T). x i) (enumerate 0 Ts))"
    unfolding row_matches_def
  proof (intro conjI allI impI)
    fix i assume i: "i < length Ts"
    then have "map (\<lambda>(i, T). x i) (enumerate 0 Ts) ! i = x i" by (simp add: nth_enumerate_eq)
    with x [OF i] show "case row ! i of
        Some bs \<Rightarrow> map (\<lambda>(i, T). x i) (enumerate 0 Ts) ! i = decode (Ts ! i) bs
      | None \<Rightarrow> is_dynamic (Ts ! i) \<longrightarrow> map (\<lambda>(i, T). x i) (enumerate 0 Ts) ! i = decode (Ts ! i) []"
      by (cases "row ! i") simp_all
  qed simp
  ultimately show thesis by (rule that)
qed

text \<open>One row that fits.\<close>

lemma fetch_row_spec:
  assumes h: "ready Ts h" and row: "row_fits Ts (output_binds h) row"
  obtains h' tuple where "fetch_row api stmt Ts (output_binds h) row h res s =
      Inr (h', res\<lparr>result_set := result_set res @ [tuple],
                   null_flags := null_flags res @ [map (\<lambda>v. v = None) row]\<rparr>, s)"
    and "ready Ts h'" and "output_binds h' = output_binds h" and "row_matches Ts row tuple"
proof -
  obtain h' where h': "foldE (write_column (output_binds h)) (enumerate 0 row) h = Inr h'"
    "same_shape h h'" "\<forall>i < length Ts. written h (row ! i) i h'"
    using write_row_spec [OF assms] by blast
  obtain tuple where t: "SetResultTuple Ts (out_state_of h') = Inr tuple" "row_matches Ts row tuple"
    by (rule SetResultTuple_written [OF assms h'(2,3)])
  have "length (null_flag_buffer h') = length row"
    using h' h row by (simp add: same_shape_def ready_def row_fits_def)
  then have "null_flag_buffer h' = map (\<lambda>v. v = None) row"
    using h'(3) row by (intro nth_equalityI) (auto simp: row_fits_def written_def split: option.splits)
  with h'(1) t not_truncated [OF assms] have "fetch_row api stmt Ts (output_binds h) row h res s =
      Inr (h', res\<lparr>result_set := result_set res @ [tuple],
                   null_flags := null_flags res @ [map (\<lambda>v. v = None) row]\<rparr>, s)"
    by (simp add: fetch_row_def)
  then show thesis
    using that ready_written [OF assms h'(2,3)] h'(2) t(2) by (simp add: same_shape_def)
qed

lemma fetch_loop_until:
  assumes "mysql_stmt stmt = Some b" and "b \<in> stmts s" and "fetches_until api b (lib s) rows f w"
    and "ready Ts h" and "\<forall>row \<in> set rows. row_fits Ts (output_binds h) row"
  shows "\<exists>tuples. fetch_loop api stmt Ts (output_binds h) h res s =
      Some (Inr (f = No_data, res\<lparr>result_set := result_set res @ tuples,
        null_flags := null_flags res @ map (map (\<lambda>v. v = None)) rows\<rparr>, s\<lparr>lib := w\<rparr>)) \<and>
    list_all2 (row_matches Ts) rows tuples"
  using assms(2-5)
proof (induction rows arbitrary: h res s)
  case Nil
  have "stmt_call (mysql_stmt stmt) (s_fetch api) s = Inr (f, s\<lparr>lib := w\<rparr>)" "f \<in> {No_data, Fetch_error}"
    using Nil assms(1) by simp_all
  then have "fetch_loop api stmt Ts (output_binds h) h res s = Some (Inr (f = No_data, res, s\<lparr>lib := w\<rparr>))"
    by (subst fetch_loop.simps) auto
  then show ?case by simp
next
  case (Cons row rows)
  obtain u where u: "s_fetch api b (lib s) = (Row row, u)" "fetches_until api b u rows f w"
    using Cons.prems(2) by auto
  have fetch: "stmt_call (mysql_stmt stmt) (s_fetch api) s = Inr (Row row, s\<lparr>lib := u\<rparr>)"
    using Cons.prems(1) u(1) assms(1) by simp
  have row: "row_fits Ts (output_binds h) row" using Cons.prems(4) by simp
  obtain h' tuple where r: "fetch_row api stmt Ts (output_binds h) row h res (s\<lparr>lib := u\<rparr>) =
      Inr (h', res\<lparr>result_set := result_set res @ [tuple],
                   null_flags := null_flags res @ [map (\<lambda>v. v = None) row]\<rparr>, s\<lparr>lib := u\<rparr>)"
    "ready Ts h'" "output_binds h' = output_binds h" "row_matches Ts row tuple"
    by (rule fetch_row_spec [OF Cons.prems(3) row]) blast
  let ?res = "res\<lparr>result_set := result_set res @ [tuple],
    null_flags := null_flags res @ [map (\<lambda>v. v = None) row]\<rparr>"
  have "\<exists>tuples. fetch_loop api stmt Ts (output_binds h') h' ?res (s\<lparr>lib := u\<rparr>) =
      Some (Inr (f = No_data, ?res\<lparr>result_set := result_set ?res @ tuples,
        null_flags := null_flags ?res @ map (map (\<lambda>v. v = None)) rows\<rparr>, s\<lparr>lib := u\<rparr>\<lparr>lib := w\<rparr>)) \<and>
      list_all2 (row_matches Ts) rows tuples"
    by (rule Cons.IH) (use Cons.prems u r in simp_all)
  then obtain tuples where t: "fetch_loop api stmt Ts (output_binds h) h' ?res (s\<lparr>lib := u\<rparr>) =
      Some (Inr (f = No_data, res\<lparr>result_set := result_set res @ tuple # tuples,
        null_flags := null_flags res @ map (map (\<lambda>v. v = None)) (row # rows)\<rparr>, s\<lparr>lib := w\<rparr>))"
    "list_all2 (row_matches Ts) rows tuples" using r(3) by auto
  have "fetch_loop api stmt Ts (output_binds h) h res s =
      fetch_loop api stmt Ts (output_binds h) h' ?res (s\<lparr>lib := u\<rparr>)"
    by (subst fetch_loop.simps) (simp add: fetch r(1))
  with t r(4) show ?case by (intro exI [of _ "tuple # tuples"]) simp
qed

lemma fetch_loop_spec:
  assumes "mysql_stmt stmt = Some b" and "b \<in> stmts s" and "fetches api b (lib s) rows w"
    and "ready Ts h" and "\<forall>row \<in> set rows. row_fits Ts (output_binds h) row"
  shows "\<exists>tuples. fetch_loop api stmt Ts (output_binds h) h res s =
      Some (Inr (True, res\<lparr>result_set := result_set res @ tuples,
        null_flags := null_flags res @ map (map (\<lambda>v. v = None)) rows\<rparr>, s\<lparr>lib := w\<rparr>)) \<and>
    list_all2 (row_matches Ts) rows tuples"
  using fetch_loop_until [OF assms(1,2) assms(3) [folded fetches_until_no_data] assms(4,5), of res] by simp

section \<open>The handle is ready\<close>

definition buffer_size :: "MysqlResultsOption \<Rightarrow> nat" where
  "buffer_size opt =
     (if dynamic_buffer_init_size opt = 0 then TRPC_BIND_BUFFER_MIN_SIZE else dynamic_buffer_init_size opt)"

definition fresh_handle :: "nat \<Rightarrow> query_handle" where
  "fresh_handle n =
     \<lparr>output_binds = replicate n output_bind_zero, output_buffer = replicate n vec_new,
      output_length = replicate n 0, null_flag_buffer = replicate n False, next_buf = 1,
      dynamic_buffer_index = []\<rparr>"

lemma resize_columns:
  assumes "length Ts \<le> n"
  shows "\<exists>h. foldE (resize_column m) (enumerate 0 Ts) (fresh_handle n) = Inr h \<and>
    output_binds h = replicate n output_bind_zero \<and> output_length h = replicate n 0 \<and>
    null_flag_buffer h = replicate n False \<and> length (output_buffer h) = n \<and>
    (\<forall>i < n. if i < length Ts \<and> is_dynamic (Ts ! i) then length (v_data (output_buffer h ! i)) = m
             else output_buffer h ! i = vec_new)"
  using assms
proof (induction Ts rule: rev_induct)
  case Nil
  then show ?case by (simp add: fresh_handle_def)
next
  case (snoc T Ts)
  then obtain h where h: "foldE (resize_column m) (enumerate 0 Ts) (fresh_handle n) = Inr h"
    "output_binds h = replicate n output_bind_zero" "output_length h = replicate n 0"
    "null_flag_buffer h = replicate n False" "length (output_buffer h) = n"
    "\<forall>i < n. if i < length Ts \<and> is_dynamic (Ts ! i) then length (v_data (output_buffer h ! i)) = m
             else output_buffer h ! i = vec_new" by auto
  let ?i = "length Ts"
  have i: "?i < n" using snoc.prems by simp
  obtain v nb where v: "vec_resize m (next_buf h) (output_buffer h ! ?i) = (v, nb)" by fastforce
  let ?h = "if is_dynamic T
    then h\<lparr>output_buffer := (output_buffer h)[?i := v], next_buf := nb,
           dynamic_buffer_index := dynamic_buffer_index h @ [?i]\<rparr> else h"
  have "resize_column m (?i, T) h = Inr ?h" using i h(5) v by (simp add: resize_column_def)
  then have f1: "foldE (resize_column m) (enumerate 0 (Ts @ [T])) (fresh_handle n) = Inr ?h"
    using h(1) by (simp add: enumerate_append_eq foldE_append)
  have f2: "\<forall>j < n. if j < length (Ts @ [T]) \<and> is_dynamic ((Ts @ [T]) ! j)
      then length (v_data (output_buffer ?h ! j)) = m else output_buffer ?h ! j = vec_new"
  proof (intro allI impI)
    fix j assume j: "j < n"
    consider "j < ?i" | "j = ?i" | "?i < j" by linarith
    then show "if j < length (Ts @ [T]) \<and> is_dynamic ((Ts @ [T]) ! j)
      then length (v_data (output_buffer ?h ! j)) = m else output_buffer ?h ! j = vec_new"
      using h(5) h(6) [rule_format, OF j] j i vec_resize_PairD [OF v]
      by cases (auto simp: nth_append split: if_splits)
  qed
  show ?case by (intro exI [of _ ?h] conjI) (rule f1 f2 | use h in simp)+
qed

lemma QueryHandle_spec:
  obtains h where "QueryHandle_new opt Ts (length Ts) = Inr h"
    and "output_binds h = replicate (length Ts) output_bind_zero"
    and "output_length h = replicate (length Ts) 0" and "null_flag_buffer h = replicate (length Ts) False"
    and "length (output_buffer h) = length Ts"
    and "\<And>i. i < length Ts \<Longrightarrow> is_dynamic (Ts ! i) \<Longrightarrow>
      length (v_data (output_buffer h ! i)) = dynamic_buffer_init_size opt"
  using resize_columns [of Ts "length Ts" "dynamic_buffer_init_size opt"]
  by (auto simp: QueryHandle_new_def fresh_handle_def)

text \<open>\<^verbatim>\<open>BindOutputs\<close> on a fresh handle, for result columns that passed the check.\<close>

definition columns_valid :: "out_type list \<Rightarrow> MYSQL_FIELD list \<Rightarrow> bool" where
  "columns_valid Ts fm \<longleftrightarrow> length fm = length Ts \<and>
     (\<forall>i < length Ts. OutputTypeValid (Ts ! i) (field_type (fm ! i)))"

definition column_limit :: "MysqlResultsOption \<Rightarrow> out_type \<Rightarrow> enum_field_types \<Rightarrow> nat" where
  "column_limit opt T ft = (if is_dynamic T then buffer_size opt else the (c_api_size ft))"

text \<open>Its first loop takes the types of the columns over; the binding gives each column a buffer of its own
  that holds what the library may write.\<close>

lemma bind_types:
  assumes "length fm = n"
  shows "mapE (\<lambda>(i, bind). bindE (nthE fm i) (\<lambda>f. Inr (bind\<lparr>ob_type := field_type f\<rparr>)))
      (enumerate 0 (replicate n output_bind_zero)) =
    Inr (map (\<lambda>f. output_bind_zero\<lparr>ob_type := field_type f\<rparr>) fm)"
proof -
  let ?binds = "replicate n output_bind_zero"
  have "mapE (\<lambda>(i, bind). bindE (nthE fm i) (\<lambda>f. Inr (bind\<lparr>ob_type := field_type f\<rparr>))) (enumerate 0 ?binds) =
    Inr (map (\<lambda>(i, bind). bind\<lparr>ob_type := field_type (fm ! i)\<rparr>) (enumerate 0 ?binds))"
    by (rule mapE_map) (auto simp: assms in_set_enumerate_eq)
  moreover have "map (\<lambda>(i, bind). bind\<lparr>ob_type := field_type (fm ! i)\<rparr>) (enumerate 0 ?binds) =
      map (\<lambda>f. output_bind_zero\<lparr>ob_type := field_type f\<rparr>) fm"
    by (rule nth_equalityI) (simp_all add: assms nth_enumerate_eq)
  ultimately show ?thesis by simp
qed

lemma write_limit_length_set [simp]: "write_limit (b\<lparr>ob_length_set := c\<rparr>) = write_limit b"
  by (simp add: write_limit_def split: option.split)

lemma bound_column_holds:
  assumes B: "bound_column st0 st T i" and valid: "OutputTypeValid T (ob_type (output_binds st0 ! i))"
    and buf: "is_dynamic T \<Longrightarrow> length (v_data (output_buffer st0 ! i)) = dynamic_buffer_init_size opt"
  shows "write_limit (output_binds st ! i) = column_limit opt T (ob_type (output_binds st0 ! i)) \<and>
    ob_buffer (output_binds st ! i) = Some (v_block (output_buffer st ! i), 0) \<and>
    write_limit (output_binds st ! i) \<le> length (v_data (output_buffer st ! i)) \<and>
    (\<not> is_dynamic T \<longrightarrow> length (v_data (output_buffer st ! i)) = sizeof T)"
proof (cases "is_dynamic T")
  case False
  then obtain n where "c_api_size (ob_type (output_binds st0 ! i)) = Some n" "n \<le> sizeof T"
    using fixed_types_fit [OF valid] by blast
  with B False show ?thesis by (simp add: bound_column_def column_limit_def Let_def) (simp add: write_limit_def)
next
  case True
  have "c_api_size (ob_type (output_binds st ! i)) = None"
    using B True valid blob_types_sized
    by (cases "T = OString") (auto simp: bound_column_def is_dynamic_def Let_def)
  then have "write_limit (output_binds st ! i) = ob_buffer_length (output_binds st ! i)"
    by (simp add: write_limit_def)
  moreover have "length (v_data (output_buffer st ! i)) = buffer_size opt"
    using B True buf by (auto simp: bound_column_def buffer_size_def Let_def split: if_splits)
  ultimately show ?thesis using B True by (simp add: bound_column_def column_limit_def Let_def)
qed

lemma BindOutputs_spec:
  assumes meta: "GetResultsMeta api stmt s = Inr (Some b, t)" "b \<in> ress t"
    and fm: "c_fetch_fields api b (lib t) = fm" "columns_valid Ts fm"
    and h: "QueryHandle_new opt Ts (length Ts) = Inr h"
  obtains h' where "BindOutputs api Ts stmt h s = Inr (h', t)" and "ready Ts h'"
    and "\<And>i. i < length Ts \<Longrightarrow>
      write_limit (output_binds h' ! i) = column_limit opt (Ts ! i) (field_type (fm ! i))"
proof -
  let ?n = "length Ts"
  have len: "length fm = ?n"
    and valid: "i < ?n \<Longrightarrow> OutputTypeValid (Ts ! i) (field_type (fm ! i))" for i
    using fm(2) by (simp_all add: columns_valid_def)
  have H: "output_binds h = replicate ?n output_bind_zero" "output_length h = replicate ?n 0"
    "null_flag_buffer h = replicate ?n False" "length (output_buffer h) = ?n"
    "\<And>i. i < ?n \<Longrightarrow> is_dynamic (Ts ! i) \<Longrightarrow>
      length (v_data (output_buffer h ! i)) = dynamic_buffer_init_size opt"
    by (rule QueryHandle_spec [of opt Ts]; use h in simp)+
  define binds where "binds = map (\<lambda>f. output_bind_zero\<lparr>ob_type := field_type f\<rparr>) fm"
  let ?st = "out_state_of (h\<lparr>output_binds := binds\<rparr>)"
  have sel: "output_binds ?st = binds" "output_buffer ?st = output_buffer h"
    "output_length ?st = output_length h" "null_flag_buffer ?st = null_flag_buffer h"
    by (simp_all add: out_state_of_def)
  obtain st where st: "BindOutputImpl Ts ?st = Inr st" "length (output_binds st) = ?n"
    "length (output_buffer st) = ?n" "output_length st = output_length h"
    "null_flag_buffer st = null_flag_buffer h" "\<forall>i < ?n. bound_column ?st st (Ts ! i) i"
    using BindOutputImpl_spec [of Ts ?n ?st] sel H len by (auto simp: binds_def)
  let ?h = "with_out_state h (st\<lparr>output_binds := map (\<lambda>bind. bind\<lparr>ob_length_set := True\<rparr>) (output_binds st)\<rparr>)"
  have bind: "BindOutputs api Ts stmt h s = Inr (?h, t)"
    using meta st(1) bind_types [OF len] by (simp add: BindOutputs_def fm(1) H(1) binds_def)
  have col: "write_limit (output_binds ?h ! i) = column_limit opt (Ts ! i) (field_type (fm ! i)) \<and>
      ob_buffer (output_binds ?h ! i) = Some (v_block (output_buffer ?h ! i), 0) \<and>
      write_limit (output_binds ?h ! i) \<le> length (v_data (output_buffer ?h ! i)) \<and>
      (\<not> is_dynamic (Ts ! i) \<longrightarrow> length (v_data (output_buffer ?h ! i)) = sizeof (Ts ! i))"
    if i: "i < ?n" for i
  proof -
    have ty: "ob_type (output_binds ?st ! i) = field_type (fm ! i)"
      unfolding sel using i len by (simp add: binds_def)
    have "write_limit (output_binds st ! i) = column_limit opt (Ts ! i) (field_type (fm ! i)) \<and>
      ob_buffer (output_binds st ! i) = Some (v_block (output_buffer st ! i), 0) \<and>
      write_limit (output_binds st ! i) \<le> length (v_data (output_buffer st ! i)) \<and>
      (\<not> is_dynamic (Ts ! i) \<longrightarrow> length (v_data (output_buffer st ! i)) = sizeof (Ts ! i))"
      by (rule bound_column_holds [of ?st st "Ts ! i" i opt, unfolded ty])
        (use st(6) i valid H(5) in \<open>simp_all add: sel(2)\<close>)
    then show ?thesis using i st(2) by (simp add: with_out_state_def)
  qed
  have "length (output_binds ?h) = ?n" "length (output_buffer ?h) = ?n"
    "length (output_length ?h) = ?n" "length (null_flag_buffer ?h) = ?n"
    using st(2-5) H by (simp_all add: with_out_state_def)
  then have "ready Ts ?h" unfolding ready_def using col by blast
  with bind col show thesis by (intro that) blast+
qed

section \<open>A typed query that succeeds\<close>

text \<open>A run in which no call of the library fails: the query prepares to a statement with
  \<open>nargs\<close> markers at most and result columns \<open>fm\<close>.\<close>

definition stmt_succeeds :: "'w mysql_api \<Rightarrow> MYSQL_FIELD list \<Rightarrow> nat \<Rightarrow> bool" where
  "stmt_succeeds api fm nargs \<longleftrightarrow>
     (\<forall>h b w. fst (s_init api h b w)) \<and> (\<forall>b q w. fst (s_prepare api b q w) = 0) \<and>
     (\<forall>b w. unat (s_field_count api b w) = length fm) \<and>
     (\<forall>b w. unat (s_param_count api b w) \<le> nargs) \<and>
     (\<forall>b binds w. fst (s_bind_param api b binds w) = 0) \<and>
     (\<forall>h b w. fst (s_result_metadata api h b w)) \<and> (\<forall>b w. c_fetch_fields api b w = fm) \<and>
     (\<forall>h w. fst (c_ping api h w) = 0) \<and> (\<forall>b w. fst (s_bind_result api b w) = 0) \<and>
     (\<forall>b w. fst (s_execute api b w) = 0) \<and> (\<forall>b w. fst (s_store_result api b w) = 0) \<and> frees api"

lemma stmt_succeedsD:
  assumes "stmt_succeeds api fm nargs"
  shows "\<exists>w'. s_init api h b w = (True, w')" and "\<exists>w'. s_prepare api b q w = (0, w')"
    and "unat (s_field_count api b w) = length fm" and "unat (s_param_count api b w) \<le> nargs"
    and "\<exists>w'. s_bind_param api b binds w = (0, w')" and "\<exists>w'. s_result_metadata api h b w = (True, w')"
    and "c_fetch_fields api b w = fm" and "\<exists>w'. c_ping api h w = (0, w')"
    and "\<exists>w'. s_bind_result api b w = (0, w')" and "\<exists>w'. s_execute api b w = (0, w')"
    and "\<exists>w'. s_store_result api b w = (0, w')" and "\<exists>w'. s_free_result api b w = (0, w')"
proof -
  note U = assms [unfolded stmt_succeeds_def frees_def]
  show "\<exists>w'. s_init api h b w = (True, w')" using U by (metis (full_types) prod.collapse)
  show "\<exists>w'. s_prepare api b q w = (0, w')" using U by (metis prod.collapse)
  show "unat (s_field_count api b w) = length fm" "unat (s_param_count api b w) \<le> nargs"
    "c_fetch_fields api b w = fm" using U by simp_all
  show "\<exists>w'. s_bind_param api b binds w = (0, w')" using U by (metis prod.collapse)
  show "\<exists>w'. s_result_metadata api h b w = (True, w')" using U by (metis (full_types) prod.collapse)
  show "\<exists>w'. c_ping api h w = (0, w')" using U by (metis prod.collapse)
  show "\<exists>w'. s_bind_result api b w = (0, w')" using U by (metis prod.collapse)
  show "\<exists>w'. s_execute api b w = (0, w')" using U by (metis prod.collapse)
  show "\<exists>w'. s_store_result api b w = (0, w')" using U by (metis prod.collapse)
  show "\<exists>w'. s_free_result api b w = (0, w')" using U by (metis prod.collapse)
qed

lemma Init_succeeds:
  assumes "stmt_succeeds api fm nargs" and "h \<in> mysqls s"
  obtains st w where "Init api q (MysqlStatement_new (Some h)) s =
      Inr (True, st, s\<lparr>lib := w, next_block := Suc (next_block s),
             stmts := insert (next_block s) (stmts s)\<rparr>)"
    and "mysql_stmt st = Some (next_block s)" and "unat (GetFieldCount st) = length fm"
proof -
  note S = stmt_succeedsD [OF assms(1)]
  let ?b = "next_block s"
  obtain w where w: "s_init api h ?b (lib s) = (True, w)" using S(1) by blast
  obtain w' where w': "s_prepare api ?b q w = (0, w')" using S(2) by blast
  show thesis
    by (rule that [of "(MysqlStatement_new (Some h))\<lparr>mysql_stmt := Some ?b,
        field_count := s_field_count api ?b w', params_count := Some (s_param_count api ?b w')\<rparr>" w'])
      (use w w' assms(2) S(3) in \<open>simp_all add: Init_def mysql_stmt_init_def MysqlStatement_new_def
        GetFieldCount_def Let_def\<close>)
qed

lemma GetResultsMeta_succeeds:
  assumes "stmt_succeeds api fm nargs" and "mysql_stmt st = Some b" and "b \<in> stmts s"
  obtains w where "GetResultsMeta api st s =
    Inr (Some (next_block s), s\<lparr>lib := w, next_block := Suc (next_block s),
           ress := insert (next_block s) (ress s)\<rparr>)"
proof -
  obtain w where "s_result_metadata api b (next_block s) (lib s) = (True, w)"
    using stmt_succeedsD(6) [OF assms(1)] by blast
  then show thesis using that GetResultsMeta_eq [OF assms(2,3), of api] by simp
qed

lemma BindParam_succeeds:
  assumes "stmt_succeeds api fm (length args)" and "mysql_stmt st = Some b" and "b \<in> stmts s"
  obtains w where "BindParam api (BindInputImpl args) st s = Inr (True, s\<lparr>lib := w\<rparr>)"
proof -
  obtain w where "s_bind_param api b (BindInputImpl args) (lib s) = (0, w)"
    using stmt_succeedsD(5) [OF assms(1)] by blast
  moreover have "\<not> length (BindInputImpl args) < unat (s_param_count api b (lib s))"
    using stmt_succeedsD(4) [OF assms(1), of b "lib s"] by (simp add: BindInputImpl_def)
  ultimately show thesis using that assms(2,3) by (simp add: BindParam_def)
qed

lemma ensure_alive_succeeds:
  assumes "stmt_succeeds api fm nargs" and "execs s r = Some e" and "is_connected e"
    and "mysql e = Some h" and "h \<in> mysqls s"
  obtains w where "ensure_alive api r s = Inr (None, s\<lparr>lib := w\<rparr>)"
proof -
  obtain w where "c_ping api h (lib s) = (0, w)" using stmt_succeedsD(8) [OF assms(1)] by blast
  then show thesis using that CheckAlive_live [OF assms(2-5), of api] by (simp add: ensure_alive_def)
qed

lemma ExecuteStatement_binds_succeeds:
  assumes "stmt_succeeds api fm nargs" and "execs s r = Some e" and "is_connected e"
    and "mysql e = Some h" and "h \<in> mysqls s" and "mysql_stmt st = Some b" and "b \<in> stmts s"
  obtains w where "ExecuteStatement_binds api r binds st s = Inr (status_ok, binds, s\<lparr>lib := w\<rparr>)"
proof -
  obtain w where w: "ensure_alive api r s = Inr (None, s\<lparr>lib := w\<rparr>)"
    by (rule ensure_alive_succeeds [OF assms(1-5)])
  obtain w1 where w1: "s_bind_result api b w = (0, w1)" using stmt_succeedsD(9) [OF assms(1)] by blast
  obtain w2 where w2: "s_execute api b w1 = (0, w2)" using stmt_succeedsD(10) [OF assms(1)] by blast
  show thesis by (rule that [of w2]) (use w w1 w2 assms in \<open>simp add: ExecuteStatement_binds_def\<close>)
qed

lemma end_stmt_succeeds:
  assumes "frees api" and "mysql_stmt st = Some b" and "b \<in> stmts s"
  obtains w where "end_stmt api st s = Inr (s\<lparr>lib := w, stmts := stmts s - {b}\<rparr>)"
proof -
  have "fst (s_free_result api b (lib s)) = 0" using assms(1) by (simp add: frees_def)
  then show thesis
    using that assms(2,3) by (simp add: end_stmt_def CloseStatement_def MysqlStatement_destroy_def)
qed

text \<open>The rows of a result fit the buffers: a value of a fixed size has that size, a string or blob
  is not longer than the initial buffer.\<close>

definition rows_fit :: "MysqlResultsOption \<Rightarrow> out_type list \<Rightarrow> MYSQL_FIELD list \<Rightarrow>
    string option list list \<Rightarrow> bool" where
  "rows_fit opt Ts fm rows \<longleftrightarrow> (\<forall>row \<in> set rows. length row = length Ts \<and>
     (\<forall>i < length Ts. \<forall>bs. row ! i = Some bs \<longrightarrow>
        (if is_dynamic (Ts ! i) then length bs \<le> buffer_size opt
         else length bs = sizeof (Ts ! i) \<and> c_api_size (field_type (fm ! i)) = Some (length bs))))"

text \<open>\<open>P\<close>: what is known of the rows the server sends.\<close>

lemma FetchResults_succeeds:
  assumes ok: "stmt_succeeds api fm nargs" and st: "mysql_stmt stmt = Some b" "b \<in> stmts s"
    and rows: "\<And>w. \<exists>rows w'. fetches api b (snd (s_store_result api b w)) rows w' \<and> P rows"
    and h: "ready Ts h" and fit: "\<And>rows. P rows \<Longrightarrow> rows_fit opt Ts fm rows"
    and lim: "\<And>i. i < length Ts \<Longrightarrow>
      write_limit (output_binds h ! i) = column_limit opt (Ts ! i) (field_type (fm ! i))"
  obtains rows tuples w where "FetchResults api stmt Ts (output_binds h) h res s =
      Inr (True, res\<lparr>result_set := result_set res @ tuples,
        null_flags := null_flags res @ map (map (\<lambda>v. v = None)) rows\<rparr>, s\<lparr>lib := w\<rparr>)"
    and "list_all2 (row_matches Ts) rows tuples" and "P rows"
proof -
  obtain w0 where w0: "s_store_result api b (lib s) = (0, w0)" using stmt_succeedsD(11) [OF ok] by blast
  obtain rows w where w: "fetches api b w0 rows w" "P rows" using rows [of "lib s"] w0 by auto
  have "row_fits Ts (output_binds h) row" if "row \<in> set rows" for row
    using that fit [OF w(2)] lim by (auto simp: rows_fit_def row_fits_def fits_def column_limit_def)
  then obtain tuples where t: "fetch_loop api stmt Ts (output_binds h) h res (s\<lparr>lib := w0\<rparr>) =
      Some (Inr (True, res\<lparr>result_set := result_set res @ tuples,
        null_flags := null_flags res @ map (map (\<lambda>v. v = None)) rows\<rparr>, s\<lparr>lib := w0\<rparr>\<lparr>lib := w\<rparr>))"
    "list_all2 (row_matches Ts) rows tuples"
    using fetch_loop_spec [of stmt b "s\<lparr>lib := w0\<rparr>" api rows w Ts h res] st w(1) h by auto
  show thesis by (rule that [OF _ t(2) w(2), of w]) (use t(1) w0 st in \<open>simp add: FetchResults_def\<close>)
qed

text \<open>The state in which a query starts: the executor is connected, its handle is live, the result
  object owns its raw result, and the allocator's next block is fresh.\<close>

definition query_start :: "nat \<Rightarrow> nat \<Rightarrow> 'r results \<Rightarrow> 'w sys \<Rightarrow> bool" where
  "query_start r h res s \<longleftrightarrow>
     (\<exists>e. execs s r = Some e \<and> is_connected e \<and> mysql e = Some h) \<and> h \<in> mysqls s \<and> results_wf s res \<and>
     (\<forall>b \<in> stmts s \<union> ress s. b < next_block s)"

lemma Clear_start:
  assumes "query_start r h res s"
  obtains s' where "Clear api res s = Inr (cleared res, s')" and "execs s' = execs s"
    and "mysqls s' = mysqls s" and "stmts s' = stmts s" and "ress s' = ress s - set_option (mysql_res res)"
    and "next_block s' = next_block s"
proof -
  have "results_wf s res" using assms by (simp add: query_start_def)
  from Clear_eq [OF this, of api] that show thesis by (cases "mysql_res res") auto
qed

text \<open>A typed query up to the binding of its columns, and from there to the end.\<close>

lemma typed_query_prepared:
  assumes ok: "stmt_succeeds api fm (length args)" and valid: "columns_valid Ts fm" and h: "h \<in> mysqls s"
  obtains st s2 s3 s4 s5 hd hd' where "Init api query (MysqlStatement_new (Some h)) s = Inr (True, st, s2)"
    and "GetResultsMeta api st s2 = Inr (Some (Suc (next_block s)), s3)"
    and "CheckFieldsOutputArgs fmt api Ts (Some (Suc (next_block s))) s3 = Inr []"
    and "BindParam api (BindInputImpl args) st s3 = Inr (True, s4)"
    and "QueryHandle_new opt Ts (unat (GetFieldCount st)) = Inr hd" and "BindOutputs api Ts st hd s4 = Inr (hd', s5)"
    and "ready Ts hd'" and "\<And>i. i < length Ts \<Longrightarrow>
      write_limit (output_binds hd' ! i) = column_limit opt (Ts ! i) (field_type (fm ! i))"
    and "mysql_stmt st = Some (next_block s)" and "execs s5 = execs s" and "mysqls s5 = mysqls s"
    and "stmts s5 = insert (next_block s) (stmts s)" and "ress s5 = ress s \<union> {next_block s + 1, next_block s + 2}"
    and "next_block s5 = next_block s + 3"
proof -
  let ?b = "next_block s"
  have fields: "c_fetch_fields api b w = fm" for b w using stmt_succeedsD(7) [OF ok] .
  have len: "length fm = length Ts" using valid by (simp add: columns_valid_def)
  obtain st w2 where s2: "Init api query (MysqlStatement_new (Some h)) s = Inr (True, st,
      s\<lparr>lib := w2, next_block := Suc ?b, stmts := insert ?b (stmts s)\<rparr>)" (is "_ = Inr (_, _, ?s2)")
    and st: "mysql_stmt st = Some ?b" "unat (GetFieldCount st) = length Ts"
    by (rule Init_succeeds [OF ok h, of query]) (use len in auto)
  obtain w3 where s3: "GetResultsMeta api st ?s2 =
      Inr (Some (Suc ?b), ?s2\<lparr>lib := w3, next_block := ?b + 2, ress := insert (Suc ?b) (ress s)\<rparr>)"
    (is "_ = Inr (_, ?s3)")
    by (rule GetResultsMeta_succeeds [OF ok st(1), of ?s2]) auto
  have check: "CheckFieldsOutputArgs fmt api Ts (Some (Suc ?b)) ?s3 = Inr []"
    using valid by (simp add: CheckFieldsOutputArgs_def fields columns_valid_def failed_fields_none Let_def)
  obtain w4 where s4: "BindParam api (BindInputImpl args) st ?s3 = Inr (True, ?s3\<lparr>lib := w4\<rparr>)"
    (is "_ = Inr (_, ?s4)")
    by (rule BindParam_succeeds [OF ok st(1), of ?s3]) auto
  obtain hd where hd: "QueryHandle_new opt Ts (length Ts) = Inr hd" by (rule QueryHandle_spec [of opt Ts])
  obtain w5 where s5: "GetResultsMeta api st ?s4 = Inr (Some (?b + 2),
      ?s4\<lparr>lib := w5, next_block := ?b + 3, ress := insert (?b + 2) (insert (Suc ?b) (ress s))\<rparr>)"
    (is "_ = Inr (_, ?s5)")
    by (rule GetResultsMeta_succeeds [OF ok st(1), of ?s4]) (auto simp: numeral_3_eq_3)
  obtain hd' where hd': "BindOutputs api Ts st hd ?s4 = Inr (hd', ?s5)" "ready Ts hd'"
    "\<And>i. i < length Ts \<Longrightarrow>
      write_limit (output_binds hd' ! i) = column_limit opt (Ts ! i) (field_type (fm ! i))"
    by (rule BindOutputs_spec [OF s5 _ fields valid hd]) auto
  show thesis
    by (rule that [OF s2 s3 check s4 hd [folded st(2)] hd' st(1)]) auto
qed

lemma typed_query_fetched:
  assumes ok: "stmt_succeeds api fm (length args)" and st: "mysql_stmt st = Some b" "b \<in> stmts s"
    and e: "execs s r = Some e" "is_connected e" "mysql e = Some h" "h \<in> mysqls s"
    and rows: "\<And>w. \<exists>rows w'. fetches api b (snd (s_store_result api b w)) rows w' \<and> P rows"
    and qh: "ready Ts qh" and fit: "\<And>rows. P rows \<Longrightarrow> rows_fit opt Ts fm rows"
    and lim: "\<And>i. i < length Ts \<Longrightarrow> write_limit (output_binds qh ! i) = column_limit opt (Ts ! i) (field_type (fm ! i))"
    and res: "fields_name res = []"
  obtains s6 rows tuples s7 s8 t where "ExecuteStatement_binds api r (output_binds qh) st s = Inr (status_ok, output_binds qh, s6)"
    and "FetchResults api st Ts (output_binds qh) qh res s6 = Inr (True, res\<lparr>result_set := result_set res @ tuples,
      null_flags := null_flags res @ map (map (\<lambda>v. v = None)) rows\<rparr>, s7)"
    and "list_all2 (row_matches Ts) rows tuples" and "P rows" and "GetResultsMeta api st s7 = Inr (Some (next_block s), s8)"
    and "\<forall>x y. SetFieldsName api (Some (next_block s)) (res\<lparr>result_set := x, null_flags := y\<rparr>) s8 =
      Inr (res\<lparr>result_set := x, null_flags := y, fields_name := map field_name fm\<rparr>)"
    and "end_stmt api st s8 = Inr t" and "execs t = execs s" and "mysqls t = mysqls s" and "stmts t = stmts s - {b}"
    and "ress t = insert (next_block s) (ress s)" and "next_block t = Suc (next_block s)"
proof -
  have fields: "c_fetch_fields api b w = fm" for b w using stmt_succeedsD(7) [OF ok] .
  have frees: "frees api" using ok by (simp add: stmt_succeeds_def)
  obtain w6 where s6: "ExecuteStatement_binds api r (output_binds qh) st s =
      Inr (status_ok, output_binds qh, s\<lparr>lib := w6\<rparr>)" (is "_ = Inr (_, _, ?s6)")
    by (rule ExecuteStatement_binds_succeeds [OF ok e st])
  obtain rows tuples w7 where s7: "FetchResults api st Ts (output_binds qh) qh res ?s6 =
      Inr (True, res\<lparr>result_set := result_set res @ tuples,
        null_flags := null_flags res @ map (map (\<lambda>v. v = None)) rows\<rparr>, ?s6\<lparr>lib := w7\<rparr>)"
    (is "_ = Inr (_, _, ?s7)") and tuples: "list_all2 (row_matches Ts) rows tuples" "P rows"
    by (rule FetchResults_succeeds [OF ok st(1) _ rows qh fit lim, of ?s6 res]) (use st in auto)
  obtain w8 where s8: "GetResultsMeta api st ?s7 = Inr (Some (next_block s),
      ?s7\<lparr>lib := w8, next_block := Suc (next_block s), ress := insert (next_block s) (ress s)\<rparr>)"
    (is "_ = Inr (_, ?s8)")
    by (rule GetResultsMeta_succeeds [OF ok st(1), of ?s7]) (use st in auto)
  obtain w9 where s9: "end_stmt api st ?s8 = Inr (?s8\<lparr>lib := w9, stmts := stmts s - {b}\<rparr>)"
    by (rule end_stmt_succeeds [OF frees st(1), of ?s8]) (use st in auto)
  have "SetFieldsName api (Some (next_block s)) (res\<lparr>result_set := x, null_flags := y\<rparr>) ?s8 =
      Inr (res\<lparr>result_set := x, null_flags := y, fields_name := map field_name fm\<rparr>)" for x y
    by (simp add: SetFieldsName_def fields res)
  then have names: "\<forall>x y. SetFieldsName api (Some (next_block s)) (res\<lparr>result_set := x, null_flags := y\<rparr>) ?s8 =
      Inr (res\<lparr>result_set := x, null_flags := y, fields_name := map field_name fm\<rparr>)" by blast
  show thesis by (rule that [OF s6 s7 tuples s8 names s9]) simp_all
qed

lemma typed_query_spec:
  assumes start: "query_start r h res s" and mode: "mode res \<noteq> OnlyExec"
    and ok: "stmt_succeeds api fm (length args)" and valid: "columns_valid Ts fm"
    and rows: "\<And>w. \<exists>rows w'. fetches api (next_block s) (snd (s_store_result api (next_block s) w)) rows w' \<and> P rows"
    and fit: "\<And>rows. P rows \<Longrightarrow> rows_fit (res_option res) Ts fm rows"
  shows "\<exists>rows res' t. P rows \<and> QueryAll_typed fmt api r Ts res query args s = Inr (True, res', t) \<and>
    list_all2 (row_matches Ts) rows (result_set res') \<and>
    null_flags res' = map (map (\<lambda>v. v = None)) rows \<and> fields_name res' = map field_name fm \<and>
    has_value res' \<and> error_number res' = error_number res \<and> mysql_res res' = None \<and>
    execs t = execs s \<and> mysqls t = mysqls s \<and> stmts t = stmts s \<and>
    ress t = ress s - set_option (mysql_res res) \<union> {next_block s + 1, next_block s + 2, next_block s + 3} \<and>
    next_block t = next_block s + 4"
proof -
  let ?b = "next_block s" and ?r = "cleared res"
  obtain e where e: "execs s r = Some e" "is_connected e" "mysql e = Some h" "h \<in> mysqls s"
    and fresh: "?b \<notin> stmts s" using start unfolding query_start_def by blast
  obtain s1 where s1: "Clear api res s = Inr (?r, s1)" "execs s1 = execs s" "mysqls s1 = mysqls s"
    "stmts s1 = stmts s" "ress s1 = ress s - set_option (mysql_res res)" "next_block s1 = ?b"
    by (rule Clear_start [OF start])
  have cl: "fields_name ?r = []" "result_set ?r = []" "null_flags ?r = []" "error_number ?r = error_number res"
    "GetOption ?r = res_option res" "mysql_res ?r = None"
    by (simp_all add: GetOption_def cleared_def MysqlResults_with_def MysqlResults_new_def)
  have h1: "h \<in> mysqls s1" and r1: "get_exec r s1 = Inr e" using e s1 by simp_all
  obtain st s2 s3 s4 s5 hd hd' where p: "Init api query (MysqlStatement_new (Some h)) s1 = Inr (True, st, s2)"
    "GetResultsMeta api st s2 = Inr (Some (Suc ?b), s3)" "CheckFieldsOutputArgs fmt api Ts (Some (Suc ?b)) s3 = Inr []"
    "BindParam api (BindInputImpl args) st s3 = Inr (True, s4)"
    "QueryHandle_new (res_option res) Ts (unat (GetFieldCount st)) = Inr hd" "BindOutputs api Ts st hd s4 = Inr (hd', s5)"
    and hd: "ready Ts hd'" "\<And>i. i < length Ts \<Longrightarrow>
      write_limit (output_binds hd' ! i) = column_limit (res_option res) (Ts ! i) (field_type (fm ! i))"
    and st: "mysql_stmt st = Some ?b" and s5: "execs s5 = execs s1" "mysqls s5 = mysqls s1" "stmts s5 = insert ?b (stmts s1)"
      "ress s5 = ress s1 \<union> {?b + 1, ?b + 2}" "next_block s5 = ?b + 3"
    by (rule typed_query_prepared [OF ok valid h1, of query fmt "res_option res", unfolded s1(6)]) blast
  have b: "?b \<in> stmts s5" and e5: "execs s5 r = Some e" "h \<in> mysqls s5" using e s1 s5 by simp_all
  obtain s6 rows tuples s7 s8 t where f: "ExecuteStatement_binds api r (output_binds hd') st s5 = Inr (status_ok, output_binds hd', s6)"
    "FetchResults api st Ts (output_binds hd') hd' ?r s6 = Inr (True, ?r\<lparr>result_set := result_set ?r @ tuples,
      null_flags := null_flags ?r @ map (map (\<lambda>v. v = None)) rows\<rparr>, s7)" "GetResultsMeta api st s7 = Inr (Some (?b + 3), s8)"
    "\<forall>x y. SetFieldsName api (Some (?b + 3)) (?r\<lparr>result_set := x, null_flags := y\<rparr>) s8 =
      Inr (?r\<lparr>result_set := x, null_flags := y, fields_name := map field_name fm\<rparr>)" "end_stmt api st s8 = Inr t"
    and tuples: "list_all2 (row_matches Ts) rows tuples" "P rows" and t: "execs t = execs s5" "mysqls t = mysqls s5"
      "stmts t = stmts s5 - {?b}" "ress t = insert (?b + 3) (ress s5)" "next_block t = Suc (?b + 3)"
    by (rule typed_query_fetched [OF ok st b e5(1) e(2,3) e5(2) rows hd(1) fit hd(2) cl(1), unfolded s5(5)]) blast
  have "QueryAllInternal_typed fmt api r Ts res query args s = Inr (True, ?r\<lparr>result_set := tuples,
      null_flags := map (map (\<lambda>v. v = None)) rows, fields_name := map field_name fm\<rparr>, t)"
    unfolding QueryAllInternal_typed_def
    by (simp only: s1(1) e(3) r1 p cl f append_Nil bindE_simps prod.case
        not_True_eq_False if_False simp_thms status_OK_def status_ok_def status.select_convs)
  then have "QueryAll_typed fmt api r Ts res query args s = Inr (True, ?r\<lparr>result_set := tuples,
      null_flags := map (map (\<lambda>v. v = None)) rows, fields_name := map field_name fm, has_value := True\<rparr>, t)"
    using mode by (simp add: QueryAll_typed_def QueryAll_def)
  moreover have "stmts t = stmts s" using t(3) s5(3) s1(4) fresh by auto
  moreover have "ress t = ress s - set_option (mysql_res res) \<union> {?b + 1, ?b + 2, ?b + 3}"
    using t(4) s5(4) s1(5) by auto
  ultimately show ?thesis using tuples t s5 s1 by (intro exI conjI) (assumption | simp add: cl)+
qed

text \<open>C9: A typed query that succeeds: \<^verbatim>\<open>QueryAll\<close> returns true; the result set has one tuple per row, in
  order, each value read back at its type and NULL strings empty; the null flags are the
  NULLs of the rows, the field names those of the columns; the statement it made is
  closed. Three metadata objects of the client library stay allocated, and an error number
  left by an earlier query stays in the results.\<close>

theorem typed_query_returns_rows:
  assumes start: "query_start r h res s" and mode: "mode res \<noteq> OnlyExec"
    and ok: "stmt_succeeds api fm (length args)" and valid: "columns_valid Ts fm"
    and rows: "\<And>w. \<exists>w'. fetches api (next_block s) (snd (s_store_result api (next_block s) w)) rows w'"
    and fit: "rows_fit (res_option res) Ts fm rows"
  shows "\<exists>res' t. QueryAll_typed fmt api r Ts res query args s = Inr (True, res', t) \<and>
    list_all2 (row_matches Ts) rows (result_set res') \<and>
    null_flags res' = map (map (\<lambda>v. v = None)) rows \<and> fields_name res' = map field_name fm \<and>
    has_value res' \<and> error_number res' = error_number res \<and>
    execs t = execs s \<and> mysqls t = mysqls s \<and> stmts t = stmts s \<and>
    ress t = ress s - set_option (mysql_res res) \<union> {next_block s + 1, next_block s + 2, next_block s + 3}"
  using typed_query_spec [OF start mode ok valid, where P = "\<lambda>r. r = rows"] rows fit by blast

text \<open>A library with a table of one text column and two rows, for the examples.\<close>

definition table_api :: "string option list \<Rightarrow> string option list \<Rightarrow> int \<Rightarrow> demo_world mysql_api" where
  "table_api row1 row2 col = demo_api
     \<lparr>c_ping := (\<lambda>_ w. (0, w)), s_prepare := (\<lambda>_ _ w. (0, w)), s_execute := (\<lambda>_ w. (0, w)),
      c_fetch_fields := (\<lambda>_ _. [\<lparr>field_name = ''name'', field_type = MYSQL_TYPE_VAR_STRING\<rparr>]),
      s_store_result := (\<lambda>_ w. (0, w\<lparr>clock := 2\<rparr>)),
      s_fetch := (\<lambda>_ w. if clock w = 2 then (Row row1, w\<lparr>clock := 1\<rparr>)
                        else if clock w = 1 then (Row row2, w\<lparr>clock := 0\<rparr>) else (No_data, w)),
      s_fetch_column := (\<lambda>_ _ _ w. (col, w))\<rparr>"

lemma demo_query_start:
  "query_start 0 1 (MysqlResults_new m :: 'r results) (demo_sys True True)"
  by (simp add: query_start_def results_wf_def MysqlResults_new_def demo_sys_def demo_exec_def)

lemma table_succeeds:
  "stmt_succeeds (table_api row1 row2 col) [\<lparr>field_name = ''name'', field_type = MYSQL_TYPE_VAR_STRING\<rparr>] n"
  by (simp add: stmt_succeeds_def table_api_def demo_api_def frees_def)

lemma demo_table:
  shows "columns_valid [OString] [\<lparr>field_name = ''name'', field_type = MYSQL_TYPE_VAR_STRING\<rparr>]"
    and "rows_fit (res_option (MysqlResults_new m :: 'r results)) [OString] [\<lparr>field_name = ''name'', field_type = MYSQL_TYPE_VAR_STRING\<rparr>] [[Some ''hi''], [None]]"
    and "row_matches [OString] [v] tuple \<longleftrightarrow> tuple = [VString (case v of Some bs \<Rightarrow> bs | None \<Rightarrow> [])]"
proof -
  show "columns_valid [OString] [\<lparr>field_name = ''name'', field_type = MYSQL_TYPE_VAR_STRING\<rparr>]" by (simp add: columns_valid_def OutputTypeValid_def)
  show "rows_fit (res_option (MysqlResults_new m :: 'r results)) [OString] [\<lparr>field_name = ''name'', field_type = MYSQL_TYPE_VAR_STRING\<rparr>] [[Some ''hi''], [None]]"
    by (simp add: rows_fit_def is_dynamic_def MysqlResults_new_def MysqlResultsOption_default_def
        kDynamicBufferInitSize_def buffer_size_def)
  show "row_matches [OString] [v] tuple \<longleftrightarrow> tuple = [VString (case v of Some bs \<Rightarrow> bs | None \<Rightarrow> [])]"
    by (cases tuple; cases v) (auto simp: row_matches_def is_dynamic_def)
qed

theorem typed_query_returns_rows_witness:
  "\<exists>res' t. QueryAll_typed (\<lambda>_ _. ''e'') (table_api [Some ''hi''] [None] 0) 0 [OString]
      (MysqlResults_new BindType) ''select name from t'' [] (demo_sys True True) = Inr (True, res', t) \<and>
    result_set res' = [[VString ''hi''], [VString []]] \<and> null_flags res' = [[False], [True]] \<and>
    fields_name res' = [''name''] \<and> has_value res'"
proof -
  let ?fm = "[\<lparr>field_name = ''name'', field_type = MYSQL_TYPE_VAR_STRING\<rparr>]"
  let ?api = "table_api [Some ''hi''] [None] 0" and ?rows = "[[Some ''hi''], [None]]"
  let ?res = "MysqlResults_new BindType :: out_value list results"
  have "\<exists>w'. fetches ?api b (snd (s_store_result ?api b w)) ?rows w'" for b w
    by (simp add: table_api_def)
  moreover have "columns_valid [OString] ?fm" by (rule demo_table(1))
  moreover have "rows_fit (res_option ?res) [OString] ?fm ?rows" by (rule demo_table(2))
  moreover have "mode ?res \<noteq> OnlyExec" by (simp add: MysqlResults_new_def)
  moreover have "stmt_succeeds ?api ?fm (length ([] :: input_arg list))" by (rule table_succeeds)
  ultimately obtain res' t where
    "QueryAll_typed (\<lambda>_ _. ''e'') ?api 0 [OString] ?res ''select name from t'' [] (demo_sys True True) =
      Inr (True, res', t)" "list_all2 (row_matches [OString]) ?rows (result_set res')"
    "null_flags res' = map (map (\<lambda>v. v = None)) ?rows" "fields_name res' = map field_name ?fm" "has_value res'"
    using typed_query_returns_rows [OF demo_query_start] by metis
  then show ?thesis by (auto simp: list_all2_Cons1 demo_table(3))
qed

section \<open>Values longer than the buffer\<close>

text \<open>The handle of a query with one string column.\<close>

lemma string_column_handle:
  assumes h0: "QueryHandle_new opt [OString] 1 = Inr h0"
    and h: "BindOutputs api [OString] stmt h0 s0 = Inr (h, s)"
  obtains blk bind v where "output_binds h = [bind]" and "ob_buffer bind = Some (blk, 0)"
    and "write_limit bind = buffer_size opt" and "output_buffer h = [v]" and "v_block v = blk"
    and "length (v_data v) = buffer_size opt" and "v_cap v = buffer_size opt" and "blk < next_buf h"
    and "output_length h = [0]" and "null_flag_buffer h = [False]" and "dynamic_buffer_index h = [0]"
proof -
  let ?n = "dynamic_buffer_init_size opt"
  have h0': "h0 = \<lparr>output_binds = [output_bind_zero],
      output_buffer = [if ?n = 0 then vec_new else \<lparr>v_block = 1, v_cap = ?n, v_data = replicate ?n nul\<rparr>],
      output_length = [0], null_flag_buffer = [False], next_buf = (if ?n = 0 then 1 else 2),
      dynamic_buffer_index = [0]\<rparr>"
    using h0 by (auto simp: QueryHandle_new_def resize_column_def is_dynamic_def vec_resize_def vec_new_def
        Let_def split: if_splits)
  have "h = with_out_state h0 (let v = (if ?n = 0
      then \<lparr>v_block = 1, v_cap = TRPC_BIND_BUFFER_MIN_SIZE, v_data = replicate TRPC_BIND_BUFFER_MIN_SIZE nul\<rparr>
      else \<lparr>v_block = 1, v_cap = ?n, v_data = replicate ?n nul\<rparr>) in
      \<lparr>output_binds = [\<lparr>ob_type = MYSQL_TYPE_STRING, ob_buffer = Some (1, 0),
         ob_buffer_length = buffer_size opt, ob_is_null_set = True, ob_length_set = True\<rparr>],
       output_buffer = [v], output_length = [0], null_flag_buffer = [False], next_buf = 2\<rparr>)"
    using h
    by (auto simp: BindOutputs_def bindE_Inr_iff h0' BindOutputImpl_def bind_column_def out_state_of_def
        output_bind_zero_def vec_resize_def vec_new_def buffer_size_def TRPC_BIND_BUFFER_MIN_SIZE_def
        numeral_2_eq_2 Let_def split: if_splits)
  then show thesis
    by (intro that) (auto simp: with_out_state_def Let_def write_limit_def buffer_size_def h0')
qed

text \<open>The first row of such a query, longer than the buffer: \<^verbatim>\<open>mysql_stmt_fetch\<close> stores its start.\<close>

lemma long_value_stored:
  assumes "output_binds h = [bind]" and "ob_buffer bind = Some (blk, 0)" and "write_limit bind = n"
    and "output_buffer h = [v]" and "v_block v = blk" and "length (v_data v) = n"
    and "length (output_length h) = 1" and "length (null_flag_buffer h) = 1" and "n < length x"
  shows "foldE (write_column (output_binds h)) (enumerate 0 [Some x]) h =
      Inr (h\<lparr>null_flag_buffer := [False], output_length := [length x],
             output_buffer := [v\<lparr>v_data := take n x\<rparr>]\<rparr>)" (is ?A)
    and "truncated (output_binds h) [Some x]" (is ?B)
proof -
  obtain l where l: "output_length h = [l]" using assms(7) by (cases "output_length h") auto
  obtain f where f: "null_flag_buffer h = [f]" using assms(8) by (cases "null_flag_buffer h") auto
  have "vec_write blk 0 (take n x) v = Inr (v\<lparr>v_data := take n x\<rparr>)"
    using vec_write_start [OF assms(5), of "take n x"] assms(6,9) by simp
  with assms l f show ?A by (simp add: write_column_def)
  show ?B using assms by (simp add: truncated_def)
qed

text \<open>\<^verbatim>\<open>FetchTruncatedResults\<close> on that column, when \<^verbatim>\<open>mysql_stmt_fetch_column\<close> answers \<open>ret\<close>.\<close>

lemma long_value_fetched:
  assumes st: "mysql_stmt stmt = Some b" "b \<in> stmts s"
    and h: "output_binds h = [bind]" "output_buffer h = [v]" "length (v_data v) = n" "v_cap v = n"
      "output_length h = [length x]" "dynamic_buffer_index h = [0]" "n < length x" "v_data v = take n x"
    and col: "s_fetch_column api b 0 n (lib s) = (ret, w)"
  obtains h' where "FetchTruncatedResults api stmt [Some x] h s = Inr (ret = 0, h', s\<lparr>lib := w\<rparr>)"
    and "output_buffer h' = [\<lparr>v_block = next_buf h, v_cap = max (length x) (2 * n),
           v_data = (if ret = 0 then x else take n x @ replicate (length x - n) nul)\<rparr>]"
    and "output_binds h' = [bind\<lparr>ob_buffer_length := length x,
           ob_buffer := Some (next_buf h, if ret = 0 then 0 else n)\<rparr>]"
    and "output_length h' = output_length h" and "null_flag_buffer h' = null_flag_buffer h"
proof -
  let ?d = "take n x @ replicate (length x - n) nul"
  let ?v = "\<lparr>v_block = next_buf h, v_cap = max (length x) (2 * n), v_data = ?d\<rparr>"
  have res: "vec_resize (length x) (next_buf h) v = (?v, Suc (next_buf h))"
    using h by (simp add: vec_resize_def Let_def min_def)
  have wr: "vec_write (next_buf h) n (take (length x) (drop n x)) ?v = Inr (?v\<lparr>v_data := x\<rparr>)"
    using h(7) by (simp add: vec_write_def)
  show thesis
  proof (cases "ret = 0")
    case True
    let ?h = "h\<lparr>output_buffer := [?v\<lparr>v_data := x\<rparr>], next_buf := Suc (next_buf h),
      output_binds := [bind\<lparr>ob_buffer_length := length x, ob_buffer := Some (next_buf h, 0)\<rparr>]\<rparr>"
    have "FetchTruncatedResults api stmt [Some x] h s = Inr (True, ?h, s\<lparr>lib := w\<rparr>)"
      using True st h(1-3,5-7) col res wr by (simp add: FetchTruncatedResults_def Let_def)
    with that [of ?h] True show thesis by simp
  next
    case False
    let ?h = "h\<lparr>output_buffer := [?v], next_buf := Suc (next_buf h),
      output_binds := [bind\<lparr>ob_buffer_length := length x, ob_buffer := Some (next_buf h, n)\<rparr>]\<rparr>"
    have "FetchTruncatedResults api stmt [Some x] h s = Inr (False, ?h, s\<lparr>lib := w\<rparr>)"
      using False st h(1-3,5-7) col res by (simp add: FetchTruncatedResults_def Let_def)
    with that [of ?h] False show thesis by simp
  qed
qed

text \<open>The first round of the loop on such a row.\<close>

lemma long_row:
  assumes h0: "QueryHandle_new opt [OString] 1 = Inr h0"
    and h: "BindOutputs api' [OString] stmt h0 s0 = Inr (h, s1)"
    and st: "mysql_stmt stmt = Some b" "b \<in> stmts s"
    and x: "buffer_size opt < length x"
    and col: "s_fetch_column api b 0 (buffer_size opt) (lib s) = (ret, w)"
  obtains (failed) "ret \<noteq> 0"
      and "fetch_row api stmt [OString] (output_binds h) [Some x] h res s = Inl Out_of_range"
  | (completed) h' bind blk v where "ret = 0"
      and "fetch_row api stmt [OString] (output_binds h) [Some x] h res s =
        Inr (h', res\<lparr>result_set := result_set res @ [[VString x]],
                     null_flags := null_flags res @ [[False]]\<rparr>, s\<lparr>lib := w\<rparr>)"
      and "output_binds h = [bind]" and "ob_buffer bind = Some (blk, 0)" and "output_buffer h' = [v]"
      and "v_block v \<noteq> blk" and "0 < write_limit bind"
proof -
  let ?n = "buffer_size opt"
  obtain blk bind v where H: "output_binds h = [bind]" "ob_buffer bind = Some (blk, 0)"
    "write_limit bind = ?n" "output_buffer h = [v]" "v_block v = blk" "length (v_data v) = ?n"
    "v_cap v = ?n" "blk < next_buf h" "output_length h = [0]" "null_flag_buffer h = [False]"
    "dynamic_buffer_index h = [0]"
    by (rule string_column_handle [OF h0 h])
  let ?h = "h\<lparr>null_flag_buffer := [False], output_length := [length x], output_buffer := [v\<lparr>v_data := take ?n x\<rparr>]\<rparr>"
  have w1: "foldE (write_column (output_binds h)) (enumerate 0 [Some x]) h = Inr ?h"
    "truncated (output_binds h) [Some x]"
    using long_value_stored [OF H(1-6) _ _ x] H(9,10) by simp_all
  obtain h' where h': "FetchTruncatedResults api stmt [Some x] ?h s = Inr (ret = 0, h', s\<lparr>lib := w\<rparr>)"
    "output_buffer h' = [\<lparr>v_block = next_buf ?h, v_cap = max (length x) (2 * ?n),
       v_data = (if ret = 0 then x else take ?n x @ replicate (length x - ?n) nul)\<rparr>]"
    "output_binds h' = [bind\<lparr>ob_buffer_length := length x,
       ob_buffer := Some (next_buf ?h, if ret = 0 then 0 else ?n)\<rparr>]"
    "output_length h' = output_length ?h" "null_flag_buffer h' = null_flag_buffer ?h"
    by (rule long_value_fetched [OF st, of ?h bind "v\<lparr>v_data := take ?n x\<rparr>" ?n x api ret w])
      (use H x col in simp_all)
  have pos: "0 < ?n" by (simp add: buffer_size_def TRPC_BIND_BUFFER_MIN_SIZE_def)
  have row: "fetch_row api stmt [OString] (output_binds h) [Some x] h res s =
      bindE (SetResultTuple [OString] (out_state_of h')) (\<lambda>tuple.
        Inr (h', res\<lparr>result_set := result_set res @ [tuple],
                     null_flags := null_flags res @ [null_flag_buffer h']\<rparr>, s\<lparr>lib := w\<rparr>))"
    using w1 h'(1) by (simp add: fetch_row_def)
  show thesis
  proof (cases "ret = 0")
    case False
    have "SetResultTuple [OString] (out_state_of h') = Inl Out_of_range"
      using False h' pos x
      by (simp add: SetResultTuple_def StepTupleSet_def is_dynamic_def read_buffer_def out_state_of_def)
    with row failed False show thesis by simp
  next
    case True
    have "SetResultTuple [OString] (out_state_of h') = Inr [VString x]"
      using True h'
      by (simp add: SetResultTuple_def StepTupleSet_def is_dynamic_def read_buffer_def out_state_of_def)
    moreover have "null_flag_buffer h' = [False]" using h'(5) by simp
    moreover have "next_buf ?h \<noteq> blk" using H(8) by simp
    ultimately show thesis
      using completed [OF True _ H(1,2), of h'] row h'(2) H(3) pos by simp
  qed
qed


text \<open>C35: When a further row with a value follows it, the client library writes that value through
  the bind it copied before the buffer grew, into memory that has been freed.\<close>

theorem next_row_uses_freed_buffer:
  assumes "QueryHandle_new opt [OString] 1 = Inr h0"
    and "BindOutputs api [OString] stmt h0 s0 = Inr (h, s)"
    and "mysql_stmt stmt = Some b" and "b \<in> stmts s" and "buffer_size opt < length x"
    and "s_store_result api b (lib s) = (0, w1)" and "s_fetch api b w1 = (Row [Some x], w2)"
    and "s_fetch_column api b 0 (buffer_size opt) w2 = (0, w3)"
    and "s_fetch api b w3 = (Row [Some y], w4)" and "y \<noteq> []"
  shows "FetchResults api stmt [OString] (output_binds h) h res s = Inl Use_after_free"
proof -
  have b: "b \<in> stmts (s\<lparr>lib := w2\<rparr>)"
    and c: "s_fetch_column api b 0 (buffer_size opt) (lib (s\<lparr>lib := w2\<rparr>)) = (0, w3)"
    using assms(4,8) by simp_all
  from long_row [OF assms(1,2,3) b assms(5) c, of res] show ?thesis
  proof cases
  case 1
  then show ?thesis by simp
next
  case (2 h' bind blk v)
  let ?res = "res\<lparr>result_set := result_set res @ [[VString x]], null_flags := null_flags res @ [[False]]\<rparr>"
  have "fetch_loop api stmt [OString] (output_binds h) h res (s\<lparr>lib := w1\<rparr>) =
      fetch_loop api stmt [OString] (output_binds h) h' ?res (s\<lparr>lib := w3\<rparr>)"
    using 2 assms(3,4,7) by (subst fetch_loop.simps) simp
  also have "fetch_row api stmt [OString] (output_binds h) [Some y] h' ?res (s\<lparr>lib := w4\<rparr>) = Inl Use_after_free"
    using 2 assms(10) by (simp add: fetch_row_def write_column_def vec_write_def)
  then have "fetch_loop api stmt [OString] (output_binds h) h' ?res (s\<lparr>lib := w3\<rparr>) = Some (Inl Use_after_free)"
    using assms(3,4,9) by (subst fetch_loop.simps) simp
  finally show ?thesis using assms(3,4,6) by (simp add: FetchResults_def)
  qed
qed

text \<open>When reading the rest of a long value fails, the error is ignored, and the tuple is filled
  from a position past the start of the buffer, beyond its end.\<close>

theorem failed_column_reads_out_of_range:
  assumes "QueryHandle_new opt [OString] 1 = Inr h0"
    and "BindOutputs api [OString] stmt h0 s0 = Inr (h, s)"
    and "mysql_stmt stmt = Some b" and "b \<in> stmts s" and "buffer_size opt < length x"
    and "s_store_result api b (lib s) = (0, w1)" and "s_fetch api b w1 = (Row [Some x], w2)"
    and "s_fetch_column api b 0 (buffer_size opt) w2 = (ret, w3)" and "ret \<noteq> 0"
  shows "FetchResults api stmt [OString] (output_binds h) h res s = Inl Out_of_range"
proof -
  have b: "b \<in> stmts (s\<lparr>lib := w2\<rparr>)"
    and c: "s_fetch_column api b 0 (buffer_size opt) (lib (s\<lparr>lib := w2\<rparr>)) = (ret, w3)"
    using assms(4,8) by simp_all
  from long_row [OF assms(1,2,3) b assms(5) c, of res] show ?thesis
  proof cases
  case 1
  then have "fetch_loop api stmt [OString] (output_binds h) h res (s\<lparr>lib := w1\<rparr>) = Some (Inl Out_of_range)"
    using assms(3,4,7) by (subst fetch_loop.simps) simp
  then show ?thesis using assms(3,4,6) by (simp add: FetchResults_def)
next
  case 2
  then show ?thesis using assms(9) by simp
  qed
qed

end
