(* ===== verification/Query_Properties.thy ===== *)
theory Query_Properties
  imports Mysql_Query
begin

text \<open>
  What the queries of \<open>Mysql_Query\<close> do on the paths the typed rows of its last section do
  not take: native rows, the text a native query sends, statements that only execute, and the
  error paths. The examples of the theorems on statements and output binds are here too, where
  a library with a table is at hand.
\<close>

section \<open>Examples for the parts of a query\<close>

theorem statement_lifecycle_witness:
  "\<exists>ok st t st' u. Init demo_api ''select 1'' (MysqlStatement_new (Some 1)) (demo_sys False True) = Inr (ok, st, t) \<and>
    CloseStatement demo_api st t = Inr (True, st', u) \<and> MysqlStatement_destroy st' = Inr () \<and> stmts u = {}"
proof -
  have "1 \<in> mysqls (demo_sys False True)" "frees demo_api" "\<forall>b \<in> stmts (demo_sys False True). b < next_block (demo_sys False True)"
    by (simp_all add: frees_def demo_api_def demo_sys_def)
  from statement_lifecycle [OF this, of "''select 1''"] show ?thesis by (auto simp: demo_sys_def)
qed

text \<open>A statement on block 5, and a state in which it is live.\<close>

definition demo_stmt :: statement where
  "demo_stmt = (MysqlStatement_new (Some 1))\<lparr>mysql_stmt := Some 5, field_count := 1\<rparr>"

definition demo_stmt_sys :: "demo_world sys" where
  "demo_stmt_sys = (demo_sys True True)\<lparr>stmts := {5}, next_block := 6\<rparr>"

lemma demo_stmt_sel [simp]:
  "mysql_stmt demo_stmt = Some 5" "stmts demo_stmt_sys = {5}" "5 \<in> stmts (demo_stmt_sys\<lparr>lib := w\<rparr>)"
  by (simp_all add: demo_stmt_def demo_stmt_sys_def)

theorem failed_free_aborts_witness:
  "\<exists>t. CloseStatement (demo_api\<lparr>s_free_result := \<lambda>_ w. (1, w)\<rparr>) demo_stmt demo_stmt_sys = Inr (False, demo_stmt, t) \<and>
    MysqlStatement_destroy demo_stmt = Inl Assertion_failed"
  using failed_free_aborts [of demo_stmt 5 demo_stmt_sys "demo_api\<lparr>s_free_result := \<lambda>_ w. (1, w)\<rparr>"]
  by simp blast


section \<open>Examples of long values\<close>

text \<open>A buffer of one byte, a handle bound to the table's column, and a row of two bytes.\<close>

definition demo_small :: MysqlResultsOption where
  "demo_small = \<lparr>dynamic_buffer_init_size = 1\<rparr>"

lemma demo_small_handle:
  obtains h0 h s where "QueryHandle_new demo_small [OString] 1 = Inr h0"
    and "BindOutputs (table_api row1 row2 col) [OString] demo_stmt h0 demo_stmt_sys = Inr (h, s)"
    and "stmts s = {5}"
proof -
  let ?fm = "[\<lparr>field_name = ''name'', field_type = MYSQL_TYPE_VAR_STRING\<rparr>]"
  obtain h0 where h0: "QueryHandle_new demo_small [OString] (length [OString]) = Inr h0"
    by (rule QueryHandle_spec)
  have ok: "stmt_succeeds (table_api row1 row2 col) ?fm 0" by (rule table_succeeds)
  obtain w where w: "GetResultsMeta (table_api row1 row2 col) demo_stmt demo_stmt_sys =
      Inr (Some 6, demo_stmt_sys\<lparr>lib := w, next_block := 7, ress := insert 6 (ress demo_stmt_sys)\<rparr>)"
    by (rule GetResultsMeta_succeeds [OF ok, of demo_stmt 5 demo_stmt_sys]) (simp_all add: demo_stmt_sys_def)
  have "columns_valid [OString] ?fm" by (simp add: columns_valid_def OutputTypeValid_def)
  then obtain h where "BindOutputs (table_api row1 row2 col) [OString] demo_stmt h0 demo_stmt_sys =
      Inr (h, demo_stmt_sys\<lparr>lib := w, next_block := 7, ress := insert 6 (ress demo_stmt_sys)\<rparr>)"
    using BindOutputs_spec [OF w, of ?fm "[OString]" demo_small h0] h0 by (auto simp: table_api_def)
  then show thesis using that h0 by simp
qed

lemma table_api_calls:
  "s_store_result (table_api row1 row2 col) b w = (0, w\<lparr>clock := 2\<rparr>)"
  "s_fetch (table_api row1 row2 col) b (w\<lparr>clock := 2\<rparr>) = (Row row1, w\<lparr>clock := 1\<rparr>)"
  "s_fetch (table_api row1 row2 col) b (w\<lparr>clock := 1\<rparr>) = (Row row2, w\<lparr>clock := 0\<rparr>)"
  "s_fetch_column (table_api row1 row2 col) b i n w = (col, w)"
  by (simp_all add: table_api_def)

theorem next_row_uses_freed_buffer_witness:
  "\<exists>h0 h s. QueryHandle_new demo_small [OString] 1 = Inr h0 \<and>
    BindOutputs (table_api [Some ''hi''] [Some ''x''] 0) [OString] demo_stmt h0 demo_stmt_sys = Inr (h, s) \<and>
    FetchResults (table_api [Some ''hi''] [Some ''x''] 0) demo_stmt [OString] (output_binds h) h
      (MysqlResults_new BindType) s = Inl Use_after_free"
proof -
  obtain h0 h s where H: "QueryHandle_new demo_small [OString] 1 = Inr h0"
    "BindOutputs (table_api [Some ''hi''] [Some ''x''] 0) [OString] demo_stmt h0 demo_stmt_sys = Inr (h, s)"
    "stmts s = {5}" by (rule demo_small_handle)
  then have "FetchResults (table_api [Some ''hi''] [Some ''x''] 0) demo_stmt [OString] (output_binds h) h
      (MysqlResults_new BindType) s = Inl Use_after_free"
    by (intro next_row_uses_freed_buffer [OF H(1,2), where b = 5 and x = "''hi''" and y = "''x''" and ?w1.0 = "(lib s)\<lparr>clock := 2\<rparr>"
        and ?w2.0 = "(lib s)\<lparr>clock := 1\<rparr>" and ?w3.0 = "(lib s)\<lparr>clock := 1\<rparr>" and ?w4.0 = "(lib s)\<lparr>clock := 0\<rparr>"])
      (simp_all add: table_api_calls buffer_size_def demo_small_def)
  with H show ?thesis by blast
qed

theorem failed_column_reads_out_of_range_witness:
  "\<exists>h0 h s. QueryHandle_new demo_small [OString] 1 = Inr h0 \<and>
    BindOutputs (table_api [Some ''hi''] [] 7) [OString] demo_stmt h0 demo_stmt_sys = Inr (h, s) \<and>
    FetchResults (table_api [Some ''hi''] [] 7) demo_stmt [OString] (output_binds h) h
      (MysqlResults_new BindType) s = Inl Out_of_range"
proof -
  obtain h0 h s where H: "QueryHandle_new demo_small [OString] 1 = Inr h0"
    "BindOutputs (table_api [Some ''hi''] [] 7) [OString] demo_stmt h0 demo_stmt_sys = Inr (h, s)"
    "stmts s = {5}" by (rule demo_small_handle)
  then have "FetchResults (table_api [Some ''hi''] [] 7) demo_stmt [OString] (output_binds h) h
      (MysqlResults_new BindType) s = Inl Out_of_range"
    by (intro failed_column_reads_out_of_range [OF H(1,2), where b = 5 and x = "''hi''" and ret = 7 and ?w1.0 = "(lib s)\<lparr>clock := 2\<rparr>"
        and ?w2.0 = "(lib s)\<lparr>clock := 1\<rparr>" and ?w3.0 = "(lib s)\<lparr>clock := 1\<rparr>"])
      (simp_all add: table_api_calls buffer_size_def demo_small_def)
  with H show ?thesis by blast
qed

text \<open>The same table read from its second row, the last one.\<close>

definition last_row_api :: "string option list \<Rightarrow> demo_world mysql_api" where
  "last_row_api row = (table_api [] row 0)\<lparr>s_store_result := (\<lambda>_ w. (0, w\<lparr>clock := 1\<rparr>))\<rparr>"


section \<open>The text of a native query\<close>

text \<open>\<^verbatim>\<open>ConvertPlaceHolder\<close> as a function of the previous character and the rest of the text.\<close>

fun convert_from :: "char \<Rightarrow> string \<Rightarrow> string" where
  "convert_from p [] = []"
| "convert_from p (c # cs) = (if c = CHR ''?'' \<and> p \<noteq> CHR 0x5C then ''{}'' else [c]) @ convert_from c cs"

lemma ConvertPlaceHolder_from: "ConvertPlaceHolder sql = convert_from CHR '' '' sql"
proof -
  let ?f = "\<lambda>i. if sql ! i = CHR ''?'' \<and> (i = 0 \<or> sql ! (i - 1) \<noteq> CHR 0x5C) then ''{}'' else [sql ! i]"
  have "concat (map ?f [k..<length sql]) = convert_from (if k = 0 then CHR '' '' else sql ! (k - 1)) (drop k sql)"
    if "k \<le> length sql" for k
    using that
  proof (induction "length sql - k" arbitrary: k)
    case 0
    then show ?case by simp
  next
    case (Suc n)
    then have k: "k < length sql" by linarith
    have "concat (map ?f [Suc k..<length sql]) = convert_from (sql ! k) (drop (Suc k) sql)"
      using Suc.hyps(1) [of "Suc k"] Suc.hyps(2) k by simp
    moreover have "[k..<length sql] = k # [Suc k..<length sql]" using k by (rule upt_conv_Cons)
    moreover have "drop k sql = sql ! k # drop (Suc k) sql" using k by (simp add: Cons_nth_drop_Suc)
    ultimately show ?case by auto
  qed
  from this [of 0] show ?thesis by (simp add: ConvertPlaceHolder_def)
qed

lemma convert_from_plain: "CHR ''?'' \<notin> set cs \<Longrightarrow> convert_from p cs = cs"
  by (induction cs arbitrary: p) auto

lemma convert_from_append:
  "convert_from p (xs @ ys) = convert_from p xs @ convert_from (if xs = [] then p else last xs) ys"
  by (induction xs arbitrary: p) auto

lemma ConvertPlaceHolder_marker:
  assumes "CHR ''?'' \<notin> set pre" and "CHR ''?'' \<notin> set post" and "pre = [] \<or> last pre \<noteq> CHR 0x5C"
  shows "ConvertPlaceHolder (pre @ ''?'' @ post) = pre @ ''{}'' @ post"
  using assms by (auto simp: ConvertPlaceHolder_from convert_from_append convert_from_plain)

text \<open>What a query relies on of \<^verbatim>\<open>util::FormatString\<close>: the replacement field of a format with no
  other brace is replaced by the text of the argument.\<close>

definition substitutes :: "formatter \<Rightarrow> bool" where
  "substitutes fmt \<longleftrightarrow> (\<forall>pre post t. set (pre @ post) \<inter> {CHR ''{'', CHR ''}''} = {} \<longrightarrow>
     fmt (pre @ ''{}'' @ post) [FText t] = pre @ t @ post)"

text \<open>A native query with one marker sends a string argument between quotes, byte for byte: quotes
  and backslashes in the argument are not escaped, so the argument can end the literal
  and go on with SQL of its own.\<close>

theorem native_query_text:
  assumes "substitutes fmt" and "set (pre @ post) \<inter> {CHR ''?'', CHR ''{'', CHR ''}''} = {}"
    and "pre = [] \<or> last pre \<noteq> CHR 0x5C"
  shows "FormatQuery fmt tfmt (pre @ ''?'' @ post) [InString s] = pre @ [CHR 0x27] @ s @ [CHR 0x27] @ post"
proof -
  have "ConvertPlaceHolder (pre @ ''?'' @ post) = pre @ ''{}'' @ post"
    by (rule ConvertPlaceHolder_marker) (use assms(2,3) in auto)
  moreover have "fmt (pre @ ''{}'' @ post) [FText (quoted s)] = pre @ quoted s @ post"
    using assms(1,2) unfolding substitutes_def by blast
  ultimately show ?thesis by (simp add: FormatQuery_def quoted_def)
qed

definition demo_formatter :: formatter where
  "demo_formatter f as =
     (case as of [FText t] \<Rightarrow> takeWhile (\<lambda>c. c \<noteq> CHR ''{'') f @ t @ drop 2 (dropWhile (\<lambda>c. c \<noteq> CHR ''{'') f)
      | _ \<Rightarrow> f)"

lemma demo_formatter_substitutes: "substitutes demo_formatter"
  unfolding substitutes_def
proof (intro allI impI)
  fix pre post t :: string
  assume "set (pre @ post) \<inter> {CHR ''{'', CHR ''}''} = {}"
  then have "\<forall>c \<in> set pre. c \<noteq> CHR ''{''" by auto
  then have "takeWhile (\<lambda>c. c \<noteq> CHR ''{'') (pre @ ''{}'' @ post) = pre"
    "dropWhile (\<lambda>c. c \<noteq> CHR ''{'') (pre @ ''{}'' @ post) = ''{}'' @ post"
    by (simp_all add: takeWhile_append2 dropWhile_append2)
  then show "demo_formatter (pre @ ''{}'' @ post) [FText t] = pre @ t @ post"
    by (simp add: demo_formatter_def)
qed

theorem native_query_text_witness:
  "FormatQuery demo_formatter (\<lambda>_ _. []) ''delete from t where a=?'' [InString (CHR 0x27 # '' or 1 -- '')] =
    ''delete from t where a='' @ [CHR 0x27] @ [CHR 0x27] @ '' or 1 -- '' @ [CHR 0x27]"
  using native_query_text [OF demo_formatter_substitutes, of "''delete from t where a=''" "[]" "\<lambda>_ _. []"
      "CHR 0x27 # '' or 1 -- ''"] by simp

section \<open>Native rows\<close>

definition native_view :: "nat \<Rightarrow> string option \<Rightarrow> view" where
  "native_view b c =
     (case c of Some t \<Rightarrow> \<lparr>view_of = Some b, view_text = t\<rparr> | None \<Rightarrow> \<lparr>view_of = None, view_text = []\<rparr>)"

lemma store_native_row_eq:
  assumes "length row = n"
  shows "store_native_row b n row res = Inr (res\<lparr>null_flags := null_flags res @ [map (\<lambda>c. c = None) row],
           result_set := result_set res @ [map (native_view b) row]\<rparr>)"
proof -
  have "mapE (nthE row) [0..<n] = Inr (map ((!) row) [0..<n])"
    by (rule mapE_map) (use assms in simp)
  moreover have "map ((!) row) [0..<n] = row" using assms map_nth [of row] by simp
  ultimately show ?thesis by (simp add: store_native_row_def native_view_def [abs_def])
qed

lemma store_native_rows:
  assumes "\<forall>row \<in> set rows. length row = n"
  shows "foldE (store_native_row b n) rows res =
    Inr (res\<lparr>null_flags := null_flags res @ map (map (\<lambda>c. c = None)) rows,
             result_set := result_set res @ map (map (native_view b)) rows\<rparr>)"
  using assms by (induction rows arbitrary: res) (simp_all add: store_native_row_eq)

text \<open>The world after \<^verbatim>\<open>Clear\<close>, which frees the raw result of the last query.\<close>

definition cleared_world :: "'w mysql_api \<Rightarrow> 'r results \<Rightarrow> 'w sys \<Rightarrow> 'w" where
  "cleared_world api res s =
     (case mysql_res res of None \<Rightarrow> lib s | Some b \<Rightarrow> c_free_result api b (lib s))"

lemma Clear_cleared_world:
  assumes "results_wf s res"
  shows "Clear api res s = Inr (cleared res, s\<lparr>lib := cleared_world api res s,
    ress := ress s - set_option (mysql_res res)\<rparr>)"
  using Clear_eq [OF assms, of api] by (cases "mysql_res res") (simp_all add: cleared_world_def)

lemma cleared_sel [simp]:
  "mode (cleared r) = mode r" "res_option (cleared r) = res_option r" "result_set (cleared r) = []"
  "fields_name (cleared r) = []" "null_flags (cleared r) = []" "error_number (cleared r) = error_number r"
  "error_message (cleared r) = []" "affected_rows (cleared r) = 0" "\<not> has_value (cleared r)"
  "mysql_res (cleared r) = None"
  by (simp_all add: cleared_def MysqlResults_with_def MysqlResults_new_def)

lemma native_query_spec:
  assumes start: "query_start r h res s" and mode: "mode res \<noteq> OnlyExec"
    and query: "c_real_query api h (FormatQuery fmt tfmt query args) (cleared_world api res s) = (0, w1)"
    and stored: "c_store_result api h (next_block s) w1 = (True, w2)"
    and rows: "\<forall>row \<in> set (c_rows api (next_block s) w2).
      length row = length (c_fetch_fields api (next_block s) w2)"
  shows "\<exists>res' t. QueryAll_native fmt tfmt api r res query args s = Inr (True, res', t) \<and>
    result_set res' = map (map (native_view (next_block s))) (c_rows api (next_block s) w2) \<and>
    null_flags res' = map (map (\<lambda>c. c = None)) (c_rows api (next_block s) w2) \<and>
    fields_name res' = map field_name (c_fetch_fields api (next_block s) w2) \<and>
    has_value res' \<and> error_number res' = error_number res \<and>
    mysql_res res' = Some (next_block s) \<and> execs t = execs s \<and> mysqls t = mysqls s \<and> stmts t = stmts s \<and>
    ress t = ress s - set_option (mysql_res res) \<union> {next_block s} \<and> next_block t = Suc (next_block s)"
proof -
  let ?b = "next_block s"
  let ?s1 = "s\<lparr>lib := cleared_world api res s, ress := ress s - set_option (mysql_res res)\<rparr>"
  let ?t = "s\<lparr>lib := w2, next_block := Suc ?b, ress := insert ?b (ress s - set_option (mysql_res res))\<rparr>"
  let ?res = "(cleared res)\<lparr>null_flags := map (map (\<lambda>c. c = None)) (c_rows api ?b w2),
    result_set := map (map (native_view ?b)) (c_rows api ?b w2)\<rparr>"
  let ?res' = "?res\<lparr>mysql_res := Some ?b, fields_name := map field_name (c_fetch_fields api ?b w2)\<rparr>"
  obtain e where e: "execs s r = Some e" "mysql e = Some h" "h \<in> mysqls s" and wf: "results_wf s res"
    using start by (auto simp: query_start_def)
  have clear: "Clear api res s = Inr (cleared res, ?s1)" by (rule Clear_cleared_world [OF wf])
  have call: "mysql_call (Some h) (\<lambda>h. c_real_query api h (FormatQuery fmt tfmt query args)) ?s1 =
      Inr (0, ?s1\<lparr>lib := w1\<rparr>)" using e(3) query by (simp add: mysql_call_def)
  have store: "mysql_store_result api (Some h) (?s1\<lparr>lib := w1\<rparr>) = Inr (Some ?b, ?t)"
    using e(3) stored by (simp add: mysql_store_result_def Let_def)
  have fold: "foldE (store_native_row ?b (length (c_fetch_fields api ?b (lib ?t)))) (c_rows api ?b (lib ?t))
      (cleared res) = Inr ?res" using store_native_rows [OF rows, of ?b "cleared res"] by simp
  have raw: "SetRawMysqlRes (Some ?b) ?res = Inr (?res\<lparr>mysql_res := Some ?b\<rparr>)"
    by (simp add: SetRawMysqlRes_def)
  have names: "SetFieldsName api (Some ?b) (?res\<lparr>mysql_res := Some ?b\<rparr>) ?t = Inr ?res'"
    by (simp add: SetFieldsName_def)
  have exec: "get_exec r ?s1 = Inr e" using e(1) by simp
  have "QueryAllInternal_native fmt tfmt api r res query args s = Inr (True, ?res', ?t)"
    unfolding QueryAllInternal_native_def
    by (simp only: clear exec e(2) call store fold raw names bindE_simps prod.case option.case not_True_eq_False if_False simp_thms)
  then have "QueryAll_native fmt tfmt api r res query args s = Inr (True, ?res'\<lparr>has_value := True\<rparr>, ?t)"
    using mode by (simp add: QueryAll_native_def QueryAll_def)
  then show ?thesis by (intro exI conjI) (assumption | simp)+
qed

text \<open>C18: A native query the server answers with a result set: \<^verbatim>\<open>QueryAll\<close> returns true; the result set
  has every row in order, as views that point into the raw result the object now owns, or
  to the literal \<^verbatim>\<open>""\<close> for NULL; flags and names are those of the columns, and the raw result
  of an earlier query is freed.\<close>

theorem native_query_returns_rows:
  assumes start: "query_start r h res s" and mode: "mode res \<noteq> OnlyExec"
    and query: "c_real_query api h (FormatQuery fmt tfmt query args) (cleared_world api res s) = (0, w1)"
    and stored: "c_store_result api h (next_block s) w1 = (True, w2)"
    and rows: "\<forall>row \<in> set (c_rows api (next_block s) w2).
      length row = length (c_fetch_fields api (next_block s) w2)"
  shows "\<exists>res' t. QueryAll_native fmt tfmt api r res query args s = Inr (True, res', t) \<and>
    result_set res' = map (map (native_view (next_block s))) (c_rows api (next_block s) w2) \<and>
    null_flags res' = map (map (\<lambda>c. c = None)) (c_rows api (next_block s) w2) \<and>
    fields_name res' = map field_name (c_fetch_fields api (next_block s) w2) \<and>
    has_value res' \<and> error_number res' = error_number res \<and>
    mysql_res res' = Some (next_block s) \<and> execs t = execs s \<and> mysqls t = mysqls s \<and> stmts t = stmts s \<and>
    ress t = ress s - set_option (mysql_res res) \<union> {next_block s}"
  using native_query_spec [OF assms] by blast

theorem native_query_returns_rows_witness:
  "\<exists>res' t. QueryAll_native demo_formatter (\<lambda>_ _. []) demo_api 0 (MysqlResults_new NativeString) ''select id from t'' []
      (demo_sys True True) = Inr (True, res', t) \<and>
    map (map view_text) (result_set res') = [[''7''], [[]]] \<and> null_flags res' = [[False], [True]]"
proof -
  let ?res = "MysqlResults_new NativeString :: view list results" and ?s = "demo_sys True True"
  let ?q = "FormatQuery demo_formatter (\<lambda>_ _. []) ''select id from t'' []"
  have "mode ?res \<noteq> OnlyExec" by (simp add: MysqlResults_new_def)
  moreover have "c_real_query demo_api 1 ?q (cleared_world demo_api ?res ?s) = (0, (lib ?s)\<lparr>seen := [?q]\<rparr>)"
    by (simp add: demo_api_def cleared_world_def MysqlResults_new_def)
  moreover have "c_store_result demo_api 1 (next_block ?s) ((lib ?s)\<lparr>seen := [?q]\<rparr>) = (True, (lib ?s)\<lparr>seen := [?q]\<rparr>)"
    by (simp add: demo_api_def)
  moreover have "\<forall>row \<in> set (c_rows demo_api (next_block ?s) ((lib ?s)\<lparr>seen := [?q]\<rparr>)). length row =
      length (c_fetch_fields demo_api (next_block ?s) ((lib ?s)\<lparr>seen := [?q]\<rparr>))"
    by (simp add: demo_api_def)
  ultimately show ?thesis
    using native_query_returns_rows [OF demo_query_start, of NativeString demo_api demo_formatter "\<lambda>_ _. []"
        "''select id from t''" "[]"]
    by (fastforce simp: demo_api_def native_view_def)
qed

section \<open>Statements that only execute\<close>

lemma sys_more: "clib.more t = clib.more s \<Longrightarrow> execs (t :: 'w sys) = execs s"
  by (cases t; cases s) simp

text \<open>The ends of a path, whatever the library answers.\<close>

lemma end_stmt_spec:
  assumes "stmt_wf st s" and "frees api"
  shows "\<exists>t. end_stmt api st s = Inr t \<and> stmts t = stmts s - set_option (mysql_stmt st) \<and>
    mysqls t = mysqls s \<and> ress t = ress s \<and> execs t = execs s \<and> next_block t = next_block s"
proof -
  obtain t where "CloseStatement api st s = Inr (True, st\<lparr>mysql_stmt := None\<rparr>, t)"
    "stmts t = stmts s - set_option (mysql_stmt st)" "mysqls t = mysqls s" "ress t = ress s"
    "clib.more t = clib.more s" "next_block t = next_block s" by (rule CloseStatement_spec [OF assms])
  moreover from this(5) have "execs t = execs s" by (rule sys_more)
  ultimately show ?thesis by (simp add: end_stmt_def MysqlStatement_destroy_def)
qed

lemma stmt_fail_spec:
  assumes "stmt_wf st s" and "frees api"
  shows "\<exists>m n t. stmt_fail api x st res s = Inr (x, set_error m n res, t) \<and>
    stmts t = stmts s - set_option (mysql_stmt st) \<and> mysqls t = mysqls s \<and> ress t = ress s \<and> execs t = execs s \<and>
    next_block t = next_block s"
proof -
  obtain m where m: "stmt_error api st s = Inr m" using stmt_error_returns(1) [OF assms(1)] by blast
  obtain n where n: "stmt_errno api st s = Inr n" using stmt_error_returns(2) [OF assms(1)] by blast
  obtain t where t: "end_stmt api st s = Inr t" "stmts t = stmts s - set_option (mysql_stmt st)"
    "mysqls t = mysqls s" "ress t = ress s" "execs t = execs s" "next_block t = next_block s"
    using end_stmt_spec [OF assms] by blast
  have "stmt_fail api x st res s = Inr (x, set_error m n res, t)" by (simp add: stmt_fail_def m n t(1))
  with t(2-) show ?thesis by blast
qed

lemma BindParam_returns:
  assumes "mysql_stmt st = Some b" and "b \<in> stmts s" and "unat (s_param_count api b (lib s)) \<le> length binds"
  shows "\<exists>ok w. BindParam api binds st s = Inr (ok, s\<lparr>lib := w\<rparr>)"
proof -
  let ?c = "s_bind_param api b binds (lib s)"
  have "BindParam api binds st s = Inr (fst ?c = 0, s\<lparr>lib := snd ?c\<rparr>)"
    using assms by (simp add: BindParam_def)
  then show ?thesis by blast
qed

lemma ExecuteStatement_alive:
  assumes "execs s r = Some e" and "is_connected e" and "mysql e = Some h" and "h \<in> mysqls s"
    and "fst (c_ping api h (lib s)) = 0" and "mysql_stmt st = Some b" and "b \<in> stmts s"
  shows "\<exists>f w. ExecuteStatement api r st s = Inr (f, s\<lparr>lib := w\<rparr>)"
proof -
  let ?w = "snd (c_ping api h (lib s))"
  let ?c = "s_execute api b ?w"
  have "CheckAlive api r s = Inr (True, s\<lparr>lib := ?w\<rparr>)"
    using CheckAlive_live [OF assms(1-4), of api] assms(5) by (simp add: split_beta Let_def)
  then have alive: "ensure_alive api r s = Inr (None, s\<lparr>lib := ?w\<rparr>)" by (simp add: ensure_alive_def)
  have exe: "stmt_call (mysql_stmt st) (s_execute api) (s\<lparr>lib := ?w\<rparr>) = Inr (fst ?c, s\<lparr>lib := snd ?c\<rparr>)"
    using assms(6,7) by simp
  have "stmt_status api st (s\<lparr>lib := snd ?c\<rparr>) =
      Inr \<lparr>frame_ret = s_errno api b (snd ?c), status_msg = s_error api b (snd ?c)\<rparr>"
    using assms(6,7) by (simp add: stmt_status_def stmt_errno_def stmt_error_def)
  with alive exe show ?thesis by (cases "fst ?c = 0") (auto simp: ExecuteStatement_def)
qed

lemma set_error_sel [simp]:
  "mysql_res (set_error m n res) = mysql_res res" "affected_rows (set_error m n res) = affected_rows res"
  by (simp_all add: set_error_def SetErrorNumber_def SetErrorMessage_def)

text \<open>The closing of a statement that was the only one allocated since \<open>s0\<close>.\<close>

lemma closed_again:
  assumes "stmts t = stmts s - set_option (mysql_stmt st)" and "stmts s = stmts s0 \<union> set_option (mysql_stmt st)"
    and "mysql_stmt st = None \<or> mysql_stmt st = Some b" and "b \<notin> stmts s0"
  shows "stmts t = stmts s0"
  using assms by auto

text \<open>What is allocated after a statement was closed is what was allocated before it was made.\<close>

definition stmt_closed :: "'w sys \<Rightarrow> 'w sys \<Rightarrow> bool" where
  "stmt_closed s t \<longleftrightarrow> execs t = execs s \<and> mysqls t = mysqls s \<and> stmts t = stmts s \<and> ress t = ress s \<and>
     next_block s \<le> next_block t"

lemma Init_closable:
  assumes h: "h \<in> mysqls s" and fresh: "next_block s \<notin> stmts s" and free: "frees api"
  obtains ok st s2 where "Init api query (MysqlStatement_new (Some h)) s = Inr (ok, st, s2)"
    and "ok \<Longrightarrow> mysql_stmt st = Some (next_block s) \<and> next_block s \<in> stmts s2"
    and "execs s2 = execs s" and "mysqls s2 = mysqls s"
    and "\<And>w. \<exists>t. end_stmt api st (s2\<lparr>lib := w\<rparr>) = Inr t \<and> stmt_closed s t"
    and "\<And>w. \<exists>m n t. stmt_fail api (0 :: u64) st res (s2\<lparr>lib := w\<rparr>) = Inr (0, set_error m n res, t) \<and> stmt_closed s t"
proof -
  have new: "st_mysql (MysqlStatement_new (Some h)) = Some h" "mysql_stmt (MysqlStatement_new (Some h)) = None"
    by (simp_all add: MysqlStatement_new_def)
  obtain ok st s2 where s2: "Init api query (MysqlStatement_new (Some h)) s = Inr (ok, st, s2)" "stmt_wf st s2"
    "ok \<Longrightarrow> mysql_stmt st = Some (next_block s)" "stmts s2 = stmts s \<union> set_option (mysql_stmt st)"
    "mysqls s2 = mysqls s" "ress s2 = ress s" "clib.more s2 = clib.more s" "next_block s \<le> next_block s2"
    "mysql_stmt st = None \<or> mysql_stmt st = Some (next_block s)"
    by (rule Init_spec [OF new(1) _ new(2), of s api query]) (use h in simp_all)
  have ex: "execs s2 = execs s" using sys_more [OF s2(7)] .
  have closed: "stmt_closed s t" if "stmts t = stmts (s2\<lparr>lib := w\<rparr>) - set_option (mysql_stmt st)"
    "mysqls t = mysqls (s2\<lparr>lib := w\<rparr>)" "ress t = ress (s2\<lparr>lib := w\<rparr>)" "execs t = execs (s2\<lparr>lib := w\<rparr>)"
    "next_block t = next_block (s2\<lparr>lib := w\<rparr>)" for t w
  proof -
    have "stmts t = stmts s" by (rule closed_again [OF that(1) _ _ fresh]) (use s2(4,9) in simp_all)
    with that(2-5) s2(5,6,8) ex show ?thesis by (simp add: stmt_closed_def)
  qed
  have wf: "stmt_wf st (s2\<lparr>lib := w\<rparr>)" for w using s2(2) by (simp add: stmt_wf_def)
  have "\<exists>t. end_stmt api st (s2\<lparr>lib := w\<rparr>) = Inr t \<and> stmt_closed s t" for w
    using end_stmt_spec [OF wf [of w] free] closed [of _ w] by blast
  moreover have "\<exists>m n t. stmt_fail api (0 :: u64) st res (s2\<lparr>lib := w\<rparr>) = Inr (0, set_error m n res, t) \<and> stmt_closed s t" for w
    using stmt_fail_spec [OF wf [of w] free, of "0 :: u64" res] closed [of _ w] by blast
  ultimately show thesis using that [OF s2(1) _ ex s2(5)] s2(3,4) by auto
qed

lemma ExecuteInternal_args_spec:
  assumes start: "query_start r h res s" and free: "frees api"
    and ping: "\<And>w. fst (c_ping api h w) = 0" and enough: "\<And>b w. unat (s_param_count api b w) \<le> length args"
  shows "\<exists>n res' t. ExecuteInternal_args api r query res args s = Inr (n, res', t) \<and> mysql_res res' = None \<and>
    stmt_closed (s\<lparr>lib := cleared_world api res s, ress := ress s - set_option (mysql_res res)\<rparr>) t"
proof -
  let ?s1 = "s\<lparr>lib := cleared_world api res s, ress := ress s - set_option (mysql_res res)\<rparr>"
  let ?r = "cleared res" and ?b = "next_block s"
  obtain e where e: "execs s r = Some e" "is_connected e" "mysql e = Some h" "h \<in> mysqls s"
    and wf: "results_wf s res" and fresh: "?b \<notin> stmts s"
    using start by (auto simp: query_start_def)
  have clear: "Clear api res s = Inr (?r, ?s1)" by (rule Clear_cleared_world [OF wf])
  obtain ok st s2 where s2: "Init api query (MysqlStatement_new (Some h)) ?s1 = Inr (ok, st, s2)"
    "ok \<Longrightarrow> mysql_stmt st = Some (next_block ?s1) \<and> next_block ?s1 \<in> stmts s2"
    "execs s2 = execs ?s1" "mysqls s2 = mysqls ?s1"
    "\<And>w. \<exists>t. end_stmt api st (s2\<lparr>lib := w\<rparr>) = Inr t \<and> stmt_closed ?s1 t"
    "\<And>w. \<exists>m n t. stmt_fail api (0 :: u64) st ?r (s2\<lparr>lib := w\<rparr>) = Inr (0, set_error m n ?r, t) \<and> stmt_closed ?s1 t"
    by (rule Init_closable [of h ?s1 api query ?r]) (use e(4) fresh free in simp_all)
  have exec1: "get_exec r ?s1 = Inr e" using e(1) by simp
  show ?thesis
  proof (cases ok)
    case False
    then show ?thesis using s2(6) [of "lib s2"] by (auto simp: ExecuteInternal_args_def clear exec1 e(3) s2(1))
  next
    case ok: True
    then have b: "mysql_stmt st = Some ?b" "?b \<in> stmts s2" using s2(2) by simp_all
    obtain bound w where bind: "BindParam api (BindInputImpl args) st s2 = Inr (bound, s2\<lparr>lib := w\<rparr>)"
      using BindParam_returns [OF b, of api "BindInputImpl args"] enough by (auto simp: BindInputImpl_def)
    show ?thesis
    proof (cases bound)
      case False
      then show ?thesis using s2(6) [of w] ok by (auto simp: ExecuteInternal_args_def clear exec1 e(3) s2(1) bind)
    next
      case True
      have live: "execs (s2\<lparr>lib := w\<rparr>) r = Some e" "h \<in> mysqls (s2\<lparr>lib := w\<rparr>)" "?b \<in> stmts (s2\<lparr>lib := w\<rparr>)"
        using e s2(3,4) b(2) by simp_all
      obtain f w' where exe: "ExecuteStatement api r st (s2\<lparr>lib := w\<rparr>) = Inr (f, s2\<lparr>lib := w'\<rparr>)"
        using ExecuteStatement_alive [OF live(1) e(2,3) live(2) ping b(1) live(3)] by auto
      obtain t where t: "end_stmt api st (s2\<lparr>lib := w'\<rparr>) = Inr t" "stmt_closed ?s1 t" using s2(5) [of w'] by blast
      have at: "get_exec r (s2\<lparr>lib := w'\<rparr>) = Inr e" "use_block (mysqls s2) (mysql e) = Inr h"
        using e s2(3,4) by simp_all
      have "\<exists>n res'. ExecuteInternal_args api r query res args s = Inr (n, res', t) \<and> mysql_res res' = None"
        by (cases "status_OK f")
          (simp_all add: ExecuteInternal_args_def clear exec1 e(3) s2(1) ok bind True exe t(1) at [unfolded e(3)])
      with t(2) show ?thesis by blast
    qed
  qed
qed

lemma execute_spec:
  assumes "query_start r h res s" and "frees api" and args: "args \<noteq> []"
    and "\<And>w. fst (c_ping api h w) = 0" and "\<And>b w. unat (s_param_count api b w) \<le> length args"
  shows "\<exists>res' t. Execute api r res query args s = Inr (True, res', t) \<and> mysql_res res' = None \<and>
    execs t = execs s \<and> mysqls t = mysqls s \<and> stmts t = stmts s \<and> ress t = ress s - set_option (mysql_res res) \<and>
    next_block s \<le> next_block t"
  using ExecuteInternal_args_spec [OF assms(1,2,4,5), of query] args
  by (fastforce simp: Execute_def SetAffectedRows_def stmt_closed_def)



section \<open>Error paths\<close>

lemma Execute_without_arguments:
  assumes "execs s r = Some e" and "mysql e = Some h" and "h \<in> mysqls s"
    and "c_real_query api h query (lib s) = (ret, w)"
  shows "Execute api r res query [] s =
    Inr (True, if ret = 0 then SetAffectedRows (c_affected_rows api h w) res
               else SetAffectedRows 0 (set_error (c_error api (Some h) w) (c_errno api (Some h) w) res),
         s\<lparr>lib := w\<rparr>)"
  using assms
  by (simp add: Execute_def ExecuteInternal_def mysql_call_def conn_fail_def GetErrorMessage_def
      GetErrorNumber_def)

text \<open>\<^verbatim>\<open>Execute\<close> without arguments returns true even when the server rejects the text, with the
  error in the results; and it resets nothing: when the next statement on the same object
  succeeds, its affected rows are right but the object still reports the old error.\<close>

theorem failure_then_success_is_not_OK:
  assumes "execs s r = Some e" and "mysql e = Some h" and "h \<in> mysqls s"
    and "c_real_query api h q1 (lib s) = (ret, w1)" and "ret \<noteq> 0" and "c_errno api (Some h) w1 \<noteq> 0"
    and "c_real_query api h q2 w1 = (0, w2)"
  shows "\<exists>res1 t1 res2 t2. Execute api r res q1 [] s = Inr (True, res1, t1) \<and>
    results_error res1 = (c_errno api (Some h) w1, c_error api (Some h) w1) \<and>
    Execute api r res1 q2 [] t1 = Inr (True, res2, t2) \<and>
    GetAffectedRowNum res2 = c_affected_rows api h w2 \<and> \<not> OK res2 \<and> results_error res2 = results_error res1"
proof -
  let ?res1 = "SetAffectedRows 0 (set_error (c_error api (Some h) w1) (c_errno api (Some h) w1) res)"
  have "Execute api r res q1 [] s = Inr (True, ?res1, s\<lparr>lib := w1\<rparr>)"
    using Execute_without_arguments [OF assms(1-4), of res] assms(5) by simp
  moreover have "Execute api r ?res1 q2 [] (s\<lparr>lib := w1\<rparr>) =
      Inr (True, SetAffectedRows (c_affected_rows api h w2) ?res1, s\<lparr>lib := w1\<rparr>\<lparr>lib := w2\<rparr>)"
    using Execute_without_arguments [of "s\<lparr>lib := w1\<rparr>" r e h api q2 0 w2] assms by simp
  ultimately show ?thesis
    using assms(6) by (simp add: OK_def results_error_def GetAffectedRowNum_def SetAffectedRows_def
        set_error_def SetErrorNumber_def SetErrorMessage_def)
qed

definition picky_api :: "demo_world mysql_api" where
  "picky_api = demo_api\<lparr>c_real_query := (\<lambda>_ q w. (if q = ''bad'' then 1 else 0, w)), c_errno := (\<lambda>_ _. 1064)\<rparr>"

theorem failure_then_success_is_not_OK_witness:
  "\<exists>res1 t1 res2 t2. Execute picky_api 0 (MysqlResults_new OnlyExec :: unit results) ''bad'' [] (demo_sys True True) =
      Inr (True, res1, t1) \<and> Execute picky_api 0 res1 ''good'' [] t1 = Inr (True, res2, t2) \<and> \<not> OK res2"
proof -
  have "c_real_query picky_api 1 ''bad'' (lib (demo_sys True True)) = (1, lib (demo_sys True True))"
    "c_errno picky_api (Some 1) (lib (demo_sys True True)) \<noteq> 0"
    "c_real_query picky_api 1 ''good'' (lib (demo_sys True True)) = (0, lib (demo_sys True True))"
    by (simp_all add: picky_api_def)
  from failure_then_success_is_not_OK [of "demo_sys True True" 0 "demo_exec True" 1, OF _ _ _ this(1) _ this(2,3),
      of "MysqlResults_new OnlyExec :: unit results"]
  show ?thesis by fastforce
qed

text \<open>A native query of a statement that has no result set is executed, and reported as failed
  with error number 0 and an empty result: \<^verbatim>\<open>QueryAll\<close> returns false and the object says OK.\<close>

theorem native_statement_without_rows:
  assumes start: "query_start r h res s" and mode: "mode res \<noteq> OnlyExec" and fresh: "error_number res = 0"
    and query: "c_real_query api h (FormatQuery fmt tfmt query args) (cleared_world api res s) = (0, w1)"
    and none: "c_store_result api h (next_block s) w1 = (False, w2)" and "c_errno api (Some h) w2 = 0"
  shows "\<exists>res' t. QueryAll_native fmt tfmt api r res query args s = Inr (False, res', t) \<and>
    OK res' \<and> result_set res' = [] \<and> \<not> has_value res' \<and> lib t = w2 \<and>
    ress t = ress s - set_option (mysql_res res)"
proof -
  let ?s1 = "s\<lparr>lib := cleared_world api res s, ress := ress s - set_option (mysql_res res)\<rparr>"
  obtain e where e: "execs s r = Some e" "mysql e = Some h" "h \<in> mysqls s" and wf: "results_wf s res"
    using start by (auto simp: query_start_def)
  have clear: "Clear api res s = Inr (cleared res, ?s1)" by (rule Clear_cleared_world [OF wf])
  have call: "mysql_call (Some h) (\<lambda>h. c_real_query api h (FormatQuery fmt tfmt query args)) ?s1 =
      Inr (0, ?s1\<lparr>lib := w1\<rparr>)" using e(3) query by (simp add: mysql_call_def)
  have store: "mysql_store_result api (Some h) (?s1\<lparr>lib := w1\<rparr>) = Inr (None, ?s1\<lparr>lib := w2\<rparr>)"
    using e(3) none by (simp add: mysql_store_result_def Let_def)
  have exec: "get_exec r ?s1 = Inr e" using e(1) by simp
  have "QueryAllInternal_native fmt tfmt api r res query args s =
      Inr (False, set_error (c_error api (Some h) w2) 0 (cleared res), ?s1\<lparr>lib := w2\<rparr>)"
    unfolding QueryAllInternal_native_def
    by (simp only: clear exec e(2) call store bindE_simps prod.case option.case simp_thms if_False)
      (simp add: conn_fail_def GetErrorMessage_def GetErrorNumber_def e assms(6))
  then show ?thesis
    using mode by (simp add: QueryAll_native_def QueryAll_def OK_def set_error_def SetErrorNumber_def SetErrorMessage_def)
qed

theorem native_statement_without_rows_witness:
  "\<exists>res' t. QueryAll_native demo_formatter (\<lambda>_ _. []) (demo_api\<lparr>c_store_result := \<lambda>_ _ w. (False, w)\<rparr>) 0
      (MysqlResults_new NativeString) ''delete from t'' [] (demo_sys True True) = Inr (False, res', t) \<and> OK res' \<and>
    seen (lib t) = [FormatQuery demo_formatter (\<lambda>_ _. []) ''delete from t'' []]"
proof -
  let ?res = "MysqlResults_new NativeString :: view list results" and ?s = "demo_sys True True"
  let ?q = "FormatQuery demo_formatter (\<lambda>_ _. []) ''delete from t'' []"
  let ?api = "demo_api\<lparr>c_store_result := \<lambda>_ _ w. (False, w)\<rparr>"
  have "mode ?res \<noteq> OnlyExec" "error_number ?res = 0" by (simp_all add: MysqlResults_new_def)
  moreover have "c_real_query ?api 1 ?q (cleared_world ?api ?res ?s) = (0, (lib ?s)\<lparr>seen := [?q]\<rparr>)"
    by (simp add: demo_api_def cleared_world_def MysqlResults_new_def)
  moreover have "c_store_result ?api 1 (next_block ?s) ((lib ?s)\<lparr>seen := [?q]\<rparr>) = (False, (lib ?s)\<lparr>seen := [?q]\<rparr>)"
    "c_errno ?api (Some 1) ((lib ?s)\<lparr>seen := [?q]\<rparr>) = 0"
    by (simp_all add: demo_api_def)
  ultimately show ?thesis
    using native_statement_without_rows [OF demo_query_start, of NativeString ?api demo_formatter "\<lambda>_ _. []"
        "''delete from t''" "[]"] by fastforce
qed

abbreviation after_clear :: "'w mysql_api \<Rightarrow> 'r results \<Rightarrow> 'w sys \<Rightarrow> 'w sys" where
  "after_clear api res s \<equiv>
     s\<lparr>lib := cleared_world api res s, ress := ress s - set_option (mysql_res res)\<rparr>"

text \<open>A text that prepares, on a live connection.\<close>

lemma prepared:
  assumes start: "query_start r h res s"
    and init: "s_init api h (next_block s) (cleared_world api res s) = (True, w1)"
    and prep: "s_prepare api (next_block s) query w1 = (0, w2)"
  obtains e st t where "Clear api res s = Inr (cleared res, after_clear api res s)"
    and "get_exec r (after_clear api res s) = Inr e"
    and "mysql e = Some h"
    and "Init api query (MysqlStatement_new (Some h)) (after_clear api res s) = Inr (True, st, t)"
    and "mysql_stmt st = Some (next_block s)" and "lib t = w2" and "stmts t = insert (next_block s) (stmts s)"
    and "next_block t = Suc (next_block s)"
proof -
  obtain e where e: "execs s r = Some e" "mysql e = Some h" "h \<in> mysqls s" and wf: "results_wf s res"
    using start by (auto simp: query_start_def)
  let ?b = "next_block s"
  let ?st = "(MysqlStatement_new (Some h))\<lparr>mysql_stmt := Some ?b, field_count := s_field_count api ?b w2,
    params_count := Some (s_param_count api ?b w2)\<rparr>"
  let ?t = "(after_clear api res s)\<lparr>next_block := Suc ?b, stmts := insert ?b (stmts s), lib := w2\<rparr>"
  have "Init api query (MysqlStatement_new (Some h)) (after_clear api res s) = Inr (True, ?st, ?t)"
    using e(3) init prep by (simp add: Init_def mysql_stmt_init_def MysqlStatement_new_def Let_def)
  moreover have "get_exec r (after_clear api res s) = Inr e" using e(1) by simp
  ultimately show thesis using that [OF Clear_cleared_world [OF wf], of e ?st ?t] e(2) by simp
qed

text \<open>The number of arguments is not checked against the markers of the statement: with fewer
  arguments the client library reads binds past the end of the vector.\<close>

theorem too_few_arguments_read_past_binds:
  assumes "query_start r h res s"
    and "s_init api h (next_block s) (cleared_world api res s) = (True, w1)"
    and "s_prepare api (next_block s) query w1 = (0, w2)"
    and "length args < unat (s_param_count api (next_block s) w2)" and "args \<noteq> []"
  shows "Execute api r res query args s = Inl Out_of_range"
proof -
  obtain e st t where P: "Clear api res s = Inr (cleared res, after_clear api res s)"
    "get_exec r (after_clear api res s) = Inr e" "mysql e = Some h"
    "Init api query (MysqlStatement_new (Some h)) (after_clear api res s) = Inr (True, st, t)"
    "mysql_stmt st = Some (next_block s)" "lib t = w2" "stmts t = insert (next_block s) (stmts s)"
    by (rule prepared [OF assms(1-3)])
  have "BindParam api (BindInputImpl args) st t = Inl Out_of_range"
    using P(5-7) assms(4) by (simp add: BindParam_def BindInputImpl_def)
  then show ?thesis using P(1-4) assms(5) by (simp add: Execute_def ExecuteInternal_args_def)
qed

theorem too_few_arguments_read_past_binds_witness:
  "Execute (demo_api\<lparr>s_param_count := \<lambda>_ _. 2\<rparr>) 0 (MysqlResults_new OnlyExec :: unit results)
    ''update t set a=? where b=?'' [InScalar (Int32 7)] (demo_sys True True) = Inl Out_of_range"
  by (rule too_few_arguments_read_past_binds [OF demo_query_start,
        where ?w1.0 = "lib (demo_sys True True)" and ?w2.0 = "(lib (demo_sys True True))\<lparr>seen := [''update t set a=? where b=?'']\<rparr>"])
    (simp_all add: demo_api_def cleared_world_def MysqlResults_new_def)

text \<open>A typed query of a statement that has no result set: the metadata pointer is null and is read
  all the same.\<close>

theorem query_without_result_set:
  assumes "query_start r h res s" and "mode res \<noteq> OnlyExec"
    and "s_init api h (next_block s) (cleared_world api res s) = (True, w1)"
    and "s_prepare api (next_block s) query w1 = (0, w2)"
    and "s_result_metadata api (next_block s) (Suc (next_block s)) w2 = (False, w3)"
  shows "QueryAll_typed fmt api r Ts res query args s = Inl Null_dereference"
proof -
  obtain e st t where P: "Clear api res s = Inr (cleared res, after_clear api res s)"
    "get_exec r (after_clear api res s) = Inr e" "mysql e = Some h"
    "Init api query (MysqlStatement_new (Some h)) (after_clear api res s) = Inr (True, st, t)"
    "mysql_stmt st = Some (next_block s)" "lib t = w2" "stmts t = insert (next_block s) (stmts s)"
    "next_block t = Suc (next_block s)"
    by (rule prepared [OF assms(1,3,4)])
  have "GetResultsMeta api st t = Inr (None, t\<lparr>lib := w3\<rparr>)"
    using P(5-8) assms(5) GetResultsMeta_eq [OF P(5), of t api] by simp
  then have "QueryAllInternal_typed fmt api r Ts res query args s = Inl Null_dereference"
    using P(1-4) by (simp add: QueryAllInternal_typed_def CheckFieldsOutputArgs_def)
  then show ?thesis using assms(2) by (simp add: QueryAll_typed_def QueryAll_def)
qed

theorem query_without_result_set_witness:
  "QueryAll_typed demo_formatter (demo_api\<lparr>s_result_metadata := \<lambda>_ _ w. (False, w)\<rparr>) 0 [OString]
    (MysqlResults_new BindType) ''delete from t'' [] (demo_sys True True) = Inl Null_dereference"
  by (rule query_without_result_set [OF demo_query_start,
        where ?w1.0 = "lib (demo_sys True True)" and ?w2.0 = "(lib (demo_sys True True))\<lparr>seen := [''delete from t'']\<rparr>"])
    (simp_all add: demo_api_def cleared_world_def MysqlResults_new_def)

end
