(* ===== verification/Executor_Pool.thy ===== *)
theory Executor_Pool
  imports Mysql_Executor
begin

text \<open>
  \<^verbatim>\<open>mysql_executor_pool.{h,cc}\<close>: the sharded pool of connections to one node. Executors are
  named by their block in the store of \<open>Mysql_Executor\<close>; a shard is the \<^verbatim>\<open>std::list\<close> of the
  references it holds, its back at the end. The sections a shard's mutex protects are one
  step here. \<open>pool_inv U\<close> is the invariant, \<open>U\<close> being the executors handed out.
\<close>

section \<open>State\<close>

text \<open>\<^verbatim>\<open>NodeAddr\<close> of the framework: the fields the code reads.\<close>

record NodeAddr =
  na_ip :: string
  na_port :: u16

record MysqlExecutorPoolOption =
  max_size :: u32
  max_idle_time :: u64
  num_shard_group :: u32
  po_dbname :: string
  po_username :: string
  po_password :: string
  po_char_set :: string

record pool =
  pool_option :: MysqlExecutorPoolOption
  target :: NodeAddr
  executor_num :: u32
  max_num_per_shard :: u32
  executor_shards :: "nat list list"
  shard_id_gen :: u32
  executor_id_gen :: u32

definition EXECUTOR_POOL_CONN_RETRY_NUM :: nat where "EXECUTOR_POOL_CONN_RETRY_NUM = 3"

text \<open>The shard limit is the quotient of two \<^verbatim>\<open>uint32_t\<close>: \<^verbatim>\<open>std::ceil\<close> is applied to a value
  that is already rounded down.\<close>

definition pool_new :: "MysqlExecutorPoolOption \<Rightarrow> NodeAddr \<Rightarrow> pool result" where
  "pool_new opt node_addr =
     (if num_shard_group opt = 0 then Inl Division_by_zero
      else Inr \<lparr>pool_option = opt, target = node_addr, executor_num = 0,
             max_num_per_shard = max_size opt div num_shard_group opt,
             executor_shards = replicate (unat (num_shard_group opt)) [],
             shard_id_gen = 0, executor_id_gen = 0\<rparr>)"

definition shard_index :: "pool \<Rightarrow> u32 \<Rightarrow> nat result" where
  "shard_index p shard_id =
     (if num_shard_group (pool_option p) = 0 then Inl Division_by_zero
      else let i = unat (shard_id mod num_shard_group (pool_option p))
           in if i < length (executor_shards p) then Inr i else Inl Out_of_range)"

definition set_shard :: "nat \<Rightarrow> nat list \<Rightarrow> pool \<Rightarrow> pool" where
  "set_shard i xs p = p\<lparr>executor_shards := (executor_shards p)[i := xs]\<rparr>"

section \<open>Operations\<close>

definition IsIdleTimeout :: "'w mysql_api \<Rightarrow> pool \<Rightarrow> ptr \<Rightarrow> 'w sys \<Rightarrow> bool result" where
  "IsIdleTimeout api p executor s =
     (case executor of
        None \<Rightarrow> Inr False
      | Some r \<Rightarrow>
          if max_idle_time (pool_option p) = 0 then Inr False
          else bindE (GetAliveTime api r s) (\<lambda>t. Inr (\<not> t < max_idle_time (pool_option p))))"

text \<open>
  The retry loop of \<^verbatim>\<open>GetOrCreate\<close>: \<open>n\<close> rounds are left, \<open>executor\<close> and \<open>idle\<close> are the local
  references. Taking the back of the list and popping it moves the list's reference into
  \<open>executor\<close>, whose old value is dropped. The first component of the result is the executor
  the loop returns, \<open>None\<close> when the loop ended or met an empty shard.
\<close>

fun take_loop ::
  "'w mysql_api \<Rightarrow> nat \<Rightarrow> u32 \<Rightarrow> ptr \<Rightarrow> ptr \<Rightarrow> pool \<Rightarrow> 'w sys \<Rightarrow>
   (nat option \<times> ptr \<times> ptr \<times> pool \<times> 'w sys) result" where
  "take_loop api 0 shard_id executor idle p s = Inr (None, executor, idle, p, s)"
| "take_loop api (Suc n) shard_id executor idle p s =
     bindE (shard_index p shard_id) (\<lambda>i.
       let xs = executor_shards p ! i in
       if xs = [] then Inr (None, executor, idle, p, s)
       else
         let r = last xs; p = set_shard i (butlast xs) p in
         bindE (ref_drop api executor s) (\<lambda>s.
         bindE (CheckAlive api r s) (\<lambda>(alive, s).
         bindE (if alive then IsIdleTimeout api p (Some r) s else Inr True) (\<lambda>unusable.
           if \<not> unusable then Inr (Some r, Some r, idle, p, s)
           else
             bindE (ref_copy r s) (\<lambda>s.
             bindE (ref_drop api idle s) (\<lambda>s.
             bindE (Close api r s) (\<lambda>s.
               take_loop api n shard_id (Some r) (Some r) p s)))))))"

definition CreateExecutor ::
  "'w mysql_api \<Rightarrow> u32 \<Rightarrow> pool \<Rightarrow> 'w sys \<Rightarrow> (nat \<times> pool \<times> 'w sys) result" where
  "CreateExecutor api shard_id p s =
     (let eid = or (push_bit 32 (ucast shard_id :: u64)) (ucast (executor_id_gen p));
          p = p\<lparr>executor_id_gen := executor_id_gen p + 1\<rparr>;
          opt = \<lparr>hostname = na_ip (target p), username = po_username (pool_option p),
                 password = po_password (pool_option p), database = po_dbname (pool_option p),
                 port = na_port (target p), char_set = po_char_set (pool_option p)\<rparr>
      in bindE (MysqlExecutor_new api opt s) (\<lambda>(r, s).
         bindE (SetExecutorId r eid s) (\<lambda>s. Inr (r, p, s))))"

definition GetOrCreate :: "'w mysql_api \<Rightarrow> pool \<Rightarrow> 'w sys \<Rightarrow> (nat \<times> pool \<times> 'w sys) result" where
  "GetOrCreate api p s =
     (let shard_id = shard_id_gen p;
          p = p\<lparr>shard_id_gen := shard_id + 1\<rparr>
      in bindE (take_loop api EXECUTOR_POOL_CONN_RETRY_NUM shard_id None None p s)
           (\<lambda>(found, executor, idle, p, s).
              case found of
                Some r \<Rightarrow> bindE (ref_drop api idle s) (\<lambda>s. Inr (r, p, s))
              | None \<Rightarrow>
                  bindE (CreateExecutor api shard_id p s) (\<lambda>(r, p, s).
                  bindE (ref_drop api executor s) (\<lambda>s.
                  bindE (Connect api r s) (\<lambda>(ok, s).
                    let p = (if ok then p\<lparr>executor_num := executor_num p + 1\<rparr> else p)
                    in bindE (ref_drop api idle s) (\<lambda>s. Inr (r, p, s)))))))"

definition GetExecutor :: "'w mysql_api \<Rightarrow> pool \<Rightarrow> 'w sys \<Rightarrow> (nat \<times> pool \<times> 'w sys) result" where
  "GetExecutor api p s = GetOrCreate api p s"

text \<open>
  \<^verbatim>\<open>Reclaim\<close> takes the caller's reference by rvalue reference. The first component of the
  result is what that variable holds afterwards: null when the reference moved into the
  shard, unchanged otherwise.
\<close>

definition Reclaim ::
  "'w mysql_api \<Rightarrow> int \<Rightarrow> ptr \<Rightarrow> pool \<Rightarrow> 'w sys \<Rightarrow> (ptr \<times> pool \<times> 'w sys) result" where
  "Reclaim api ret executor p s =
     (let close = (\<lambda>p s.
            bindE (deref executor) (\<lambda>r.
            bindE (Close api r s) (\<lambda>s.
              Inr (executor, p\<lparr>executor_num := executor_num p + 1\<rparr>, s))))
      in if ret = 0 then
           bindE (deref executor) (\<lambda>r.
           bindE (GetExecutorId r s) (\<lambda>eid.
           bindE (shard_index p (ucast (drop_bit 32 eid))) (\<lambda>i.
             let xs = executor_shards p ! i in
             if length xs \<le> unat (max_num_per_shard p) \<and>
                executor_num p \<le> max_size (pool_option p)
             then bindE (RefreshAliveTime api r s) (\<lambda>s. Inr (None, set_shard i (xs @ [r]) p, s))
             else close p s)))
         else close p s)"

text \<open>\<^verbatim>\<open>Stop\<close> copies each shard's list and closes the executors; they stay in the shards.\<close>

definition stop_shard :: "'w mysql_api \<Rightarrow> pool \<Rightarrow> nat \<Rightarrow> 'w sys \<Rightarrow> 'w sys result" where
  "stop_shard api p i s =
     bindE (nthE (executor_shards p) i) (\<lambda>xs.
     bindE (foldE ref_copy xs s) (\<lambda>s.
     bindE (foldE (Close api) xs s) (\<lambda>s.
       foldE (\<lambda>r. ref_drop api (Some r)) xs s)))"

definition pool_Stop :: "'w mysql_api \<Rightarrow> pool \<Rightarrow> 'w sys \<Rightarrow> 'w sys result" where
  "pool_Stop api p s = foldE (stop_shard api p) [0..<unat (num_shard_group (pool_option p))] s"

text \<open>\<^verbatim>\<open>Destroy\<close> swaps each list out and drops its references.\<close>

definition destroy_shard ::
  "'w mysql_api \<Rightarrow> nat \<Rightarrow> pool \<times> 'w sys \<Rightarrow> (pool \<times> 'w sys) result" where
  "destroy_shard api i ps =
     (let (p, s) = ps in
      bindE (nthE (executor_shards p) i) (\<lambda>xs.
      bindE (foldE (\<lambda>r. ref_drop api (Some r)) xs s) (\<lambda>s.
        Inr (set_shard i [] p, s))))"

definition pool_Destroy :: "'w mysql_api \<Rightarrow> pool \<Rightarrow> 'w sys \<Rightarrow> (pool \<times> 'w sys) result" where
  "pool_Destroy api p s =
     foldE (destroy_shard api) [0..<unat (num_shard_group (pool_option p))] (p, s)"

section \<open>The invariant\<close>

definition pooled :: "pool \<Rightarrow> nat set" where
  "pooled p = set (concat (executor_shards p))"

definition shards_ok :: "pool \<Rightarrow> bool" where
  "shards_ok p \<longleftrightarrow>
     num_shard_group (pool_option p) \<noteq> 0 \<and>
     length (executor_shards p) = unat (num_shard_group (pool_option p)) \<and>
     distinct (concat (executor_shards p)) \<and>
     (\<forall>xs \<in> set (executor_shards p). length xs \<le> Suc (unat (max_num_per_shard p)))"

text \<open>One reference each: the list's for a pooled executor, the user's for one in \<open>U\<close>.\<close>

definition single_refs :: "nat set \<Rightarrow> 'w sys \<Rightarrow> bool" where
  "single_refs R s \<longleftrightarrow> (\<forall>r \<in> R. \<forall>e. execs s r = Some e \<longrightarrow> refcount e = 1)"

definition pool_inv :: "nat set \<Rightarrow> pool \<Rightarrow> 'w sys \<Rightarrow> bool" where
  "pool_inv U p s \<longleftrightarrow>
     shards_ok p \<and> U \<inter> pooled p = {} \<and> wf_on (U \<union> pooled p) s \<and> single_refs (U \<union> pooled p) s"

lemma shard_index_Inr:
  assumes "shards_ok p"
  obtains i where "shard_index p sh = Inr i" and "i < length (executor_shards p)"
    and "i = unat (sh mod num_shard_group (pool_option p))"
proof -
  have "unat (sh mod num_shard_group (pool_option p)) < unat (num_shard_group (pool_option p))"
    using assms by (simp add: shards_ok_def unat_mod_distrib unat_gt_0)
  with assms show thesis
    by (intro that [of "unat (sh mod num_shard_group (pool_option p))"])
      (simp_all add: shard_index_def shards_ok_def)
qed

lemma set_shard_sel [simp]:
  "executor_shards (set_shard i xs p) = (executor_shards p)[i := xs]"
  "pool_option (set_shard i xs p) = pool_option p"
  "max_num_per_shard (set_shard i xs p) = max_num_per_shard p"
  "executor_num (set_shard i xs p) = executor_num p"
  "target (set_shard i xs p) = target p"
  "shard_id_gen (set_shard i xs p) = shard_id_gen p"
  "executor_id_gen (set_shard i xs p) = executor_id_gen p"
  by (simp_all add: set_shard_def)

lemma concat_split:
  "i < length xss \<Longrightarrow> concat xss = concat (take i xss) @ xss ! i @ concat (drop (Suc i) xss)"
  by (metis concat.simps(2) concat_append id_take_nth_drop)

lemma concat_update:
  "i < length xss \<Longrightarrow> concat (xss[i := ys]) = concat (take i xss) @ ys @ concat (drop (Suc i) xss)"
  by (simp add: upd_conv_take_nth_drop)

text \<open>Popping the back of a shard and pushing onto it.\<close>

lemma pop_shard:
  assumes ok: "shards_ok p" and i: "i < length (executor_shards p)"
    and ne: "executor_shards p ! i \<noteq> []"
  defines "r \<equiv> last (executor_shards p ! i)"
    and "q \<equiv> set_shard i (butlast (executor_shards p ! i)) p"
  shows "shards_ok q" and "pooled p = insert r (pooled q)" and "r \<notin> pooled q"
proof -
  let ?xs = "executor_shards p ! i"
  have split: "?xs = butlast ?xs @ [r]" using ne by (simp add: r_def)
  have c: "concat (executor_shards p) =
      concat (take i (executor_shards p)) @ (butlast ?xs @ [r]) @
      concat (drop (Suc i) (executor_shards p))"
    using concat_split [OF i] split by simp
  have q: "concat (executor_shards q) =
      concat (take i (executor_shards p)) @ butlast ?xs @ concat (drop (Suc i) (executor_shards p))"
    using i by (simp add: q_def concat_update)
  have d: "distinct (concat (executor_shards p))" using ok by (simp add: shards_ok_def)
  show "pooled p = insert r (pooled q)" unfolding pooled_def c q by auto
  show "r \<notin> pooled q" using d unfolding pooled_def c q by auto
  have "length xs \<le> Suc (unat (max_num_per_shard p))" if "xs \<in> set (executor_shards q)" for xs
  proof -
    from that have "xs = butlast ?xs \<or> xs \<in> set (executor_shards p)"
      unfolding q_def using set_update_subset_insert by fastforce
    moreover have "length ?xs \<le> Suc (unat (max_num_per_shard p))"
      using ok i by (simp add: shards_ok_def)
    ultimately show ?thesis using ok by (auto simp: shards_ok_def)
  qed
  moreover have "distinct (concat (executor_shards q))" using d unfolding c q by auto
  ultimately show "shards_ok q" using ok by (simp add: shards_ok_def q_def)
qed

lemma push_shard:
  assumes ok: "shards_ok p" and i: "i < length (executor_shards p)" and r: "r \<notin> pooled p"
    and le: "length (executor_shards p ! i) \<le> unat (max_num_per_shard p)"
  defines "q \<equiv> set_shard i (executor_shards p ! i @ [r]) p"
  shows "shards_ok q" and "pooled q = insert r (pooled p)"
proof -
  let ?xs = "executor_shards p ! i"
  have c: "concat (executor_shards p) =
      concat (take i (executor_shards p)) @ ?xs @ concat (drop (Suc i) (executor_shards p))"
    by (rule concat_split [OF i])
  have q: "concat (executor_shards q) =
      concat (take i (executor_shards p)) @ (?xs @ [r]) @ concat (drop (Suc i) (executor_shards p))"
    using i by (simp add: q_def concat_update)
  show "pooled q = insert r (pooled p)" unfolding pooled_def c q by auto
  have "distinct (concat (executor_shards q))"
    using ok r unfolding shards_ok_def pooled_def c q by auto
  moreover have "length xs \<le> Suc (unat (max_num_per_shard p))" if "xs \<in> set (executor_shards q)" for xs
  proof -
    from that have "xs = ?xs @ [r] \<or> xs \<in> set (executor_shards p)"
      unfolding q_def using set_update_subset_insert by fastforce
    then show ?thesis using ok le by (auto simp: shards_ok_def)
  qed
  ultimately show "shards_ok q" using ok by (simp add: shards_ok_def q_def)
qed

section \<open>Locals of \<^verbatim>\<open>GetOrCreate\<close>\<close>

text \<open>\<open>held R\<close>: the executors of \<open>R\<close> are well-formed with one reference each. \<open>stray n x R\<close>: the
  local \<open>x\<close> is null, or the disconnected executor it names, outside \<open>R\<close>, has \<open>n\<close> references.\<close>

definition held :: "nat set \<Rightarrow> 'w sys \<Rightarrow> bool" where
  "held R s \<longleftrightarrow> wf_on R s \<and> single_refs R s"

definition stray :: "nat \<Rightarrow> ptr \<Rightarrow> nat set \<Rightarrow> 'w sys \<Rightarrow> bool" where
  "stray n x R s \<longleftrightarrow>
     (\<forall>r. x = Some r \<longrightarrow> r \<notin> R \<and> (\<exists>e. execs s r = Some e \<and> refcount e = n \<and> \<not> is_connected e))"

definition same_on :: "nat set \<Rightarrow> 'w sys \<Rightarrow> 'w sys \<Rightarrow> bool" where
  "same_on R s t \<longleftrightarrow> (\<forall>r \<in> R. execs t r = execs s r)"

lemma pool_inv_held: "pool_inv U p s \<longleftrightarrow> shards_ok p \<and> U \<inter> pooled p = {} \<and> held (U \<union> pooled p) s"
  by (auto simp: pool_inv_def held_def)

lemma stray_None [simp]: "stray n None R s"
  by (simp add: stray_def)

lemma stray_Some: "stray n (Some r) R s \<longleftrightarrow>
    r \<notin> R \<and> (\<exists>e. execs s r = Some e \<and> refcount e = n \<and> \<not> is_connected e)"
  by (simp add: stray_def)

lemma held_subset: "held R s \<Longrightarrow> R' \<subseteq> R \<Longrightarrow> held R' s"
  unfolding held_def single_refs_def by (meson subsetD wf_on_subset)

lemma held_refcount:
  assumes "held R s" and "r \<in> R"
  obtains e where "execs s r = Some e" and "refcount e = 1"
proof -
  obtain e where "execs s r = Some e" using assms wf_onD(1) [of R s] by (auto simp: held_def)
  with assms that show thesis unfolding held_def single_refs_def by blast
qed

lemma stray_subset: "stray n x R s \<Longrightarrow> R' \<subseteq> R \<Longrightarrow> stray n x R' s"
  by (auto simp: stray_def)

lemma same_on_refl [simp]: "same_on R s s" by (simp add: same_on_def)

lemma same_on_trans [trans]: "same_on R s t \<Longrightarrow> same_on R t u \<Longrightarrow> same_on R s u"
  by (simp add: same_on_def)

lemma same_on_subset: "same_on R s t \<Longrightarrow> R' \<subseteq> R \<Longrightarrow> same_on R' s t"
  by (auto simp: same_on_def)

lemma single_refs_same: "single_refs R s \<Longrightarrow> same_on R s t \<Longrightarrow> single_refs R t"
  by (simp add: single_refs_def same_on_def)

lemma ref_drop_two:
  assumes x: "stray 2 x R s" and s: "held R s"
  obtains t where "ref_drop api x s = Inr t" and "stray 1 x R t" and "held R t" and "same_on R s t"
    and "lib t = lib s" and "next_block t = next_block s"
proof (cases x)
  case None
  with s that show thesis by simp
next
  case (Some r)
  with x obtain e where e: "execs s r = Some e" "refcount e = 2" "\<not> is_connected e" and r: "r \<notin> R"
    by (auto simp: stray_def)
  let ?t = "put_exec r (e\<lparr>refcount := 1\<rparr>) s"
  have "ref_drop api x s = Inr ?t" using e Some ref_drop_shared [of s r e api] by simp
  moreover have "same_on R s ?t" using r by (auto simp: same_on_def)
  moreover have "wf_on R ?t"
    by (rule wf_on_put [where e = e]) (use s e in \<open>simp_all add: held_def\<close>)
  ultimately show thesis
    using s e r Some that [of ?t] single_refs_same [of R s ?t] by (simp add: held_def stray_Some)
qed

lemma ref_drop_one:
  assumes x: "stray 1 x R s" and s: "wf_on R s"
  obtains t where "ref_drop api x s = Inr t" and "wf_on R t" and "same_on R s t"
    and "lib t = lib s" and "next_block t = next_block s" and "\<And>r. x = Some r \<Longrightarrow> execs t r = None"
proof (cases x)
  case None
  with s that show thesis by simp
next
  case (Some r)
  with x obtain e where e: "execs s r = Some e" "refcount e = 1" "\<not> is_connected e" and r: "r \<notin> R"
    by (auto simp: stray_def)
  let ?t = "s\<lparr>execs := (execs s)(r := None)\<rparr>"
  have "ref_drop api x s = Inr ?t" using e Some ref_drop_last [of s r e api] by simp
  moreover have "same_on R s ?t" using r by (auto simp: same_on_def)
  ultimately show thesis using that [of ?t] wf_on_delete [OF s r] Some by simp
qed

lemma ref_drop_frame:
  assumes "ref_drop api x s = Inr t"
  shows "x \<noteq> Some r \<Longrightarrow> execs t r = execs s r" and "mysqls t \<subseteq> mysqls s"
  using assms
  by (auto simp: ref_drop_def MysqlExecutor_destroy_def Close_def mysql_close_def bindE_Inr_iff
      split: option.splits if_splits)

lemma IsIdleTimeout_returns:
  "execs s r = Some e \<Longrightarrow> \<exists>b. IsIdleTimeout api p (Some r) s = Inr b"
  by (auto simp: IsIdleTimeout_def GetAliveTime_def)

lemma IsIdleTimeout_cong:
  "execs u r = execs t r \<Longrightarrow> lib u = lib t \<Longrightarrow>
    IsIdleTimeout api p (Some r) u = IsIdleTimeout api p (Some r) t"
  by (simp add: IsIdleTimeout_def GetAliveTime_def get_exec_def)

text \<open>Setting aside a popped executor that is not usable: the loop's new local references.\<close>

lemma set_aside:
  assumes s: "held (insert r R) s" and r: "r \<notin> R" and idle: "stray 1 idle (insert r R) s"
  obtains t u v where "ref_copy r s = Inr t" and "ref_drop api idle t = Inr u"
    and "Close api r u = Inr v" and "held R v" and "stray 2 (Some r) R v" and "same_on R s v"
    and "next_block v = next_block s"
proof -
  have wf: "wf_on (insert r R) s" using s by (simp add: held_def)
  obtain e where e: "execs s r = Some e" using wf by (auto simp: wf_on_def)
  then have one: "refcount e = 1" using s by (simp add: held_def single_refs_def)
  define t where "t = put_exec r (e\<lparr>refcount := Suc (refcount e)\<rparr>) s"
  have t: "ref_copy r s = Inr t" using e by (simp add: ref_copy_eq t_def)
  have wft: "wf_on (insert r R) t" using copy.op_returns [OF wf, of r] t by simp
  have idlet: "stray 1 idle (insert r R) t" using idle by (auto simp: stray_def t_def)
  obtain u where u: "ref_drop api idle t = Inr u" "wf_on (insert r R) u" "same_on (insert r R) t u"
    "next_block u = next_block t"
    by (rule ref_drop_one [OF idlet wft]) blast
  obtain f v where v: "execs u r = Some f" "Close api r u = Inr v" "wf_on (insert r R) v"
    "execs v = (execs u)(r \<mapsto> closed f)" "next_block v = next_block u"
    by (rule Close_spec [OF u(2), of r api]) simp
  have f: "f = e\<lparr>refcount := 2\<rparr>" using u(3) v(1) one by (simp add: same_on_def t_def)
  have sv: "same_on R s v" using u(3) v(4) r by (auto simp: same_on_def t_def)
  have "stray 2 (Some r) R v" using v(4) r f by (simp add: stray_Some closed_def)
  moreover have "held R v"
    using wf_on_subset [OF v(3), of R] single_refs_same [OF _ sv] held_subset [OF s, of R]
    by (auto simp: held_def)
  moreover have "next_block v = next_block s" using u(4) v(5) by (simp add: t_def)
  ultimately show thesis using that t u v sv by blast
qed

text \<open>What a round of the loop relies on, and what the loop gives back.\<close>

definition taken ::
  "'w mysql_api \<Rightarrow> nat set \<Rightarrow> u32 \<Rightarrow> pool \<Rightarrow> 'w sys \<Rightarrow> nat option \<times> ptr \<times> ptr \<times> pool \<times> 'w sys \<Rightarrow> bool" where
  "taken api U sh p s = (\<lambda>(found, x, idle, q, t).
     shards_ok q \<and> pooled q \<subseteq> pooled p \<and> same_on (U \<union> pooled q) s t \<and>
     q = p\<lparr>executor_shards := executor_shards q\<rparr> \<and>
     (case found of
        None \<Rightarrow> held (U \<union> pooled q) t \<and> stray 2 x (U \<union> pooled q) t \<and> idle = x
      | Some r \<Rightarrow> r \<in> pooled p \<and> r \<notin> pooled q \<and> held (insert r (U \<union> pooled q)) t \<and>
          stray 1 idle (insert r (U \<union> pooled q)) t \<and> connected t r \<and>
          IsIdleTimeout api q (Some r) t = Inr False))"

text \<open>One round of the loop: the last executor of the previous round is let go and the one taken from the
  shard is checked; what a later round takes is taken from here as well.\<close>

lemma check_popped:
  assumes x: "stray 2 x (insert r R) s" and h: "held (insert r R) s" and rR: "r \<notin> R"
  obtains s1 b s2 unusable where "ref_drop api x s = Inr s1" and "CheckAlive api r s1 = Inr (b, s2)"
    and "(if b then IsIdleTimeout api q (Some r) s2 else Inr True) = Inr unusable"
    and "held (insert r R) s2" and "stray 1 x (insert r R) s2" and "same_on R s s2" and "connected s2 r = b"
proof -
  obtain s1 where s1: "ref_drop api x s = Inr s1" "stray 1 x (insert r R) s1"
    "held (insert r R) s1" "same_on (insert r R) s s1"
    by (rule ref_drop_two [OF x h]) auto
  obtain e s2 b where s2: "execs s1 r = Some e" "CheckAlive api r s1 = Inr (b, s2)"
    "wf_on (insert r R) s2" "execs s2 = (execs s1)(r \<mapsto> e\<lparr>is_connected := b\<rparr>)"
    by (rule CheckAlive_spec [of "insert r R" s1 r api]) (use s1(3) in \<open>auto simp: held_def\<close>)
  have h2: "held (insert r R) s2" using s1(3) s2 by (auto simp: held_def single_refs_def)
  have x2: "stray 1 x (insert r R) s2" using s1(2) s2(4) by (auto simp: stray_def)
  have f2: "same_on R s s2" using s1(4) s2(4) rR by (auto simp: same_on_def)
  have c: "connected s2 r = b" using s2(4) by simp
  obtain unusable where "(if b then IsIdleTimeout api q (Some r) s2 else Inr True) = Inr unusable"
    using IsIdleTimeout_returns [of s2 r _ api q] s2(4) by (cases b) auto
  with s1(1) s2(2) show thesis using h2 x2 f2 c by (rule that)
qed

lemma taken_later:
  assumes t: "taken api U sh q v res" and q: "pooled q \<subseteq> pooled p" "q = p\<lparr>executor_shards := ss\<rparr>"
    and f: "same_on (U \<union> pooled q) s v"
  shows "taken api U sh p s res"
proof -
  obtain found x idle q' t' where r: "res = (found, x, idle, q', t')" by (cases res) blast
  note T = t [unfolded r taken_def prod.case]
  have upd: "p\<lparr>executor_shards := ss'\<rparr> = q\<lparr>executor_shards := ss'\<rparr>" for ss' by (simp add: q(2))
  have "pooled q' \<subseteq> pooled p" "same_on (U \<union> pooled q') s t'"
    using T q(1) f by (auto simp: same_on_def)
  moreover have "shards_ok q'" "q' = p\<lparr>executor_shards := executor_shards q'\<rparr>" using T unfolding upd by blast+
  ultimately show ?thesis
    using T q(1) unfolding r taken_def prod.case by (cases found) (simp_all only: option.case, blast+)
qed

lemma take_loop_spec:
  assumes "shards_ok p" and "U \<inter> pooled p = {}" and "held (U \<union> pooled p) s"
    and "stray 2 x (U \<union> pooled p) s"
  shows "\<exists>res. take_loop api n sh x x p s = Inr res \<and> taken api U sh p s res"
  using assms
proof (induction n arbitrary: x p s)
  case 0
  then show ?case by (simp add: taken_def)
next
  case (Suc n)
  obtain i where i: "shard_index p sh = Inr i" "i < length (executor_shards p)"
    using shard_index_Inr [OF Suc.prems(1)] by blast
  show ?case
  proof (cases "executor_shards p ! i = []")
    case True
    with Suc.prems i show ?thesis by (simp add: taken_def Let_def)
  next
    case ne: False
    define r where "r = last (executor_shards p ! i)"
    define q where "q = set_shard i (butlast (executor_shards p ! i)) p"
    define R where "R = U \<union> pooled q"
    have q: "shards_ok q" and pq: "pooled p = insert r (pooled q)" and rq: "r \<notin> pooled q"
      using pop_shard [OF Suc.prems(1) i(2) ne] by (simp_all add: r_def q_def)
    have R: "U \<union> pooled p = insert r R" and rR: "r \<notin> R" and Uq: "U \<inter> pooled q = {}"
      using rq pq Suc.prems(2) by (auto simp: R_def)
    obtain s1 b s2 unusable where c: "ref_drop api x s = Inr s1" "CheckAlive api r s1 = Inr (b, s2)"
      "(if b then IsIdleTimeout api q (Some r) s2 else Inr True) = Inr unusable"
      "held (insert r R) s2" "stray 1 x (insert r R) s2" "same_on R s s2" "connected s2 r = b"
      by (rule check_popped [OF _ _ rR, of x s api q]) (use Suc.prems(3,4) R in auto)
    have eq: "take_loop api (Suc n) sh x x p s = (if \<not> unusable then Inr (Some r, Some r, x, q, s2)
       else bindE (ref_copy r s2) (\<lambda>s. bindE (ref_drop api x s) (\<lambda>s. bindE (Close api r s)
              (\<lambda>s. take_loop api n sh (Some r) (Some r) q s))))"
      using i ne c(1,2,3) unfolding r_def q_def by (simp add: Let_def)
    show ?thesis
    proof (cases unusable)
      case False
      with c(3) have "b" "IsIdleTimeout api q (Some r) s2 = Inr False" by (auto split: if_splits)
      then show ?thesis using eq False q pq rq c(4-7) by (auto simp: taken_def R_def q_def set_shard_def)
    next
      case True
      obtain t u v where v: "ref_copy r s2 = Inr t" "ref_drop api x t = Inr u"
        "Close api r u = Inr v" "held R v" "stray 2 (Some r) R v" "same_on R s2 v"
        by (rule set_aside [OF c(4) rR c(5)])
      obtain res where res: "take_loop api n sh (Some r) (Some r) q v = Inr res" "taken api U sh q v res"
        using Suc.IH [OF q Uq] v(4,5) unfolding R_def by blast
      have "taken api U sh p s res"
        by (rule taken_later [OF res(2)]) (use pq same_on_trans [OF c(6) v(6)] in \<open>auto simp: q_def R_def set_shard_def\<close>)
      with res(1) eq True v show ?thesis by simp
    qed
  qed
qed

text \<open>\<^verbatim>\<open>CreateExecutor\<close>: a fresh disconnected executor with its handle and identifier.\<close>

definition pool_conn_option :: "pool \<Rightarrow> MysqlConnOption" where
  "pool_conn_option p =
     \<lparr>hostname = na_ip (target p), username = po_username (pool_option p),
      password = po_password (pool_option p), database = po_dbname (pool_option p),
      port = na_port (target p), char_set = po_char_set (pool_option p)\<rparr>"

definition new_id :: "u32 \<Rightarrow> u32 \<Rightarrow> u64" where
  "new_id sh n = or (push_bit 32 (ucast sh)) (ucast n)"

lemma CreateExecutor_spec:
  assumes s: "held R s" and oom: "no_oom api"
  obtains t e where
    "CreateExecutor api sh p s = Inr (next_block s, p\<lparr>executor_id_gen := executor_id_gen p + 1\<rparr>, t)"
    and "wf_on (insert (next_block s) R) t" and "execs t = (execs s)(next_block s \<mapsto> e)"
    and "\<not> is_connected e" and "refcount e = 1" and "conn_option e = pool_conn_option p"
    and "executor_id e = new_id sh (executor_id_gen p)"
proof -
  let ?r = "next_block s" and ?id = "new_id sh (executor_id_gen p)"
  have wf: "wf_on R s" using s by (simp add: held_def)
  obtain t e where t: "MysqlExecutor_new api (pool_conn_option p) s = Inr (?r, t)"
    "wf_on (insert ?r R) t" "execs t = (execs s)(?r \<mapsto> e)"
    "\<not> is_connected e" "conn_option e = pool_conn_option p" "refcount e = 1" "mysql e \<noteq> None"
    by (rule New_spec [OF wf oom, of "pool_conn_option p"]) blast
  let ?e = "e\<lparr>executor_id := ?id\<rparr>"
  have "wf_on (insert ?r R) (put_exec ?r ?e t)"
    by (rule wf_on_put [where e = e, OF t(2)]) (use t in simp_all)
  moreover have "SetExecutorId ?r ?id t = Inr (put_exec ?r ?e t)"
    using t by (simp add: SetExecutorId_def)
  ultimately show thesis
    using t that [of "put_exec ?r ?e t" ?e]
    by (simp add: CreateExecutor_def Let_def pool_conn_option_def new_id_def)
qed

text \<open>What \<^verbatim>\<open>GetOrCreate\<close> promises: the executor is nobody else's; connected, it joins the
  users' executors, otherwise it is outside them with one reference and a dangling handle.\<close>

definition leased :: "'w mysql_api \<Rightarrow> nat set \<Rightarrow> pool \<Rightarrow> 'w sys \<Rightarrow> nat \<times> pool \<times> 'w sys \<Rightarrow> bool" where
  "leased api U p s = (\<lambda>(r, q, t).
     r \<notin> U \<and> r \<notin> pooled q \<and> same_on U s t \<and> pooled q \<subseteq> pooled p \<and>
     pool_option q = pool_option p \<and> target q = target p \<and> max_num_per_shard q = max_num_per_shard p \<and>
     (if executor_id_gen q = executor_id_gen p
      then r \<in> pooled p \<and> connected t r \<and> IsIdleTimeout api q (Some r) t = Inr False \<and>
        executor_num q = executor_num p
      else executor_id_gen q = executor_id_gen p + 1 \<and>
        executor_num q = executor_num p + (if connected t r then 1 else 0) \<and>
        (\<exists>e. execs t r = Some e \<and> executor_id e = new_id (shard_id_gen p) (executor_id_gen p) \<and>
             conn_option e = pool_conn_option p)) \<and>
     (if connected t r then pool_inv (insert r U) q t
      else pool_inv U q t \<and> stray 1 (Some r) (U \<union> pooled q) t \<and>
           (\<exists>h. handle t r = Some h \<and> h \<notin> mysqls t)))"

text \<open>The three ways a request ends: with the executor the loop took, and with a new one, which is made
  while the loop's last executor is let go and then connected while the idle one is.\<close>

lemma taken_pool:
  assumes "taken api U sh (p\<lparr>shard_id_gen := g\<rparr>) s (found, x, idle, q, t)"
  shows "shards_ok q" and "pooled q \<subseteq> pooled p" and "same_on (U \<union> pooled q) s t"
    and "pool_option q = pool_option p" and "target q = target p" and "max_num_per_shard q = max_num_per_shard p"
    and "executor_id_gen q = executor_id_gen p" and "executor_num q = executor_num p"
    and "pool_conn_option q = pool_conn_option p"
proof -
  let ?p = "p\<lparr>shard_id_gen := g\<rparr>"
  have "pooled ?p = pooled p" by (simp add: pooled_def)
  then show "shards_ok q" "pooled q \<subseteq> pooled p" "same_on (U \<union> pooled q) s t"
    using assms unfolding taken_def prod.case by blast+
  have q: "q = ?p\<lparr>executor_shards := executor_shards q\<rparr>" using assms unfolding taken_def prod.case by blast
  show sel: "pool_option q = pool_option p" "target q = target p" "max_num_per_shard q = max_num_per_shard p"
    "executor_id_gen q = executor_id_gen p" "executor_num q = executor_num p"
    by (subst q, simp)+
  show "pool_conn_option q = pool_conn_option p" using sel by (simp add: pool_conn_option_def)
qed

lemma taken_leased:
  assumes T: "taken api U sh (p\<lparr>shard_id_gen := g\<rparr>) s (Some r, x, idle, q, t)" and I: "U \<inter> pooled p = {}"
  shows "\<exists>u. ref_drop api idle t = Inr u \<and> leased api U p s (r, q, u)"
proof -
  let ?R = "insert r (U \<union> pooled q)"
  have "pooled (p\<lparr>shard_id_gen := g\<rparr>) = pooled p" by (simp add: pooled_def)
  then have r: "r \<in> pooled p" "r \<notin> pooled q" "held ?R t" "stray 1 idle ?R t" "connected t r"
    "IsIdleTimeout api q (Some r) t = Inr False"
    using T unfolding taken_def prod.case option.case by blast+
  obtain u where u: "ref_drop api idle t = Inr u" "wf_on ?R u" "same_on ?R t u" "lib u = lib t"
    by (rule ref_drop_one [OF r(4)]) (use r(3) in \<open>auto simp: held_def\<close>)
  have "held ?R u" using u r(3) single_refs_same by (auto simp: held_def)
  moreover have "connected u r" using r(5) u(3) by (simp add: connected_def same_on_def)
  moreover have "IsIdleTimeout api q (Some r) u = Inr False"
    using r(6) IsIdleTimeout_cong [of u r t] u(3,4) by (simp add: same_on_def)
  moreover have "same_on U s u" using taken_pool(3) [OF T] u(3) by (auto simp: same_on_def)
  ultimately have "leased api U p s (r, q, u)"
    using taken_pool [OF T] r(1,2) I by (auto simp: leased_def pool_inv_held insert_commute)
  with u(1) show ?thesis by blast
qed

lemma create_fresh:
  assumes h: "held R t" "stray 2 x R t" and oom: "no_oom api"
  obtains u v e where "CreateExecutor api sh q t =
      Inr (next_block t, q\<lparr>executor_id_gen := executor_id_gen q + 1\<rparr>, u)"
    and "ref_drop api x u = Inr v" and "held (insert (next_block t) R) v" and "stray 1 x (insert (next_block t) R) v"
    and "execs v (next_block t) = Some e" and "refcount e = 1" and "conn_option e = pool_conn_option q"
    and "executor_id e = new_id sh (executor_id_gen q)" and "same_on R t v" and "next_block t \<notin> R"
proof -
  let ?r = "next_block t"
  let ?R = "insert ?r R"
  have wf: "wf_on R t" using h(1) by (simp add: held_def)
  have fresh: "execs t ?r = None" using wf_onD(6) [OF wf, of ?r] by blast
  then have rR: "?r \<notin> R" using wf_onD(1) [OF wf] by auto
  obtain u e where u: "CreateExecutor api sh q t = Inr (?r, q\<lparr>executor_id_gen := executor_id_gen q + 1\<rparr>, u)"
    "wf_on ?R u" "execs u = (execs t)(?r \<mapsto> e)" "\<not> is_connected e" "refcount e = 1"
    "conn_option e = pool_conn_option q" "executor_id e = new_id sh (executor_id_gen q)"
    by (rule CreateExecutor_spec [OF h(1) oom, of sh q]) blast
  have "held ?R u" using h(1) u(2,3,5) rR by (auto simp: held_def single_refs_def)
  moreover have "stray 2 x ?R u" using h(2) u(3) fresh by (auto simp: stray_def)
  ultimately obtain v where v: "ref_drop api x u = Inr v" "stray 1 x ?R v" "held ?R v" "same_on ?R u v"
    using ref_drop_two [of x ?R u api] by blast
  have e: "execs v ?r = Some e" using v(4) u(3) by (simp add: same_on_def)
  have "same_on R t v" using u(3) v(4) rR by (auto simp: same_on_def)
  with u(1) v(1,3,2) e u(5,6,7) show thesis using rR by (rule that)
qed

lemma connect_fresh:
  assumes h: "held (insert r R) v" and rR: "r \<notin> R" and x: "stray 1 x (insert r R) v" and e: "execs v r = Some e"
    and c: "refcount e = 1" and oom: "no_oom api"
  obtains b w z f where "Connect api r v = Inr (b, w)" and "ref_drop api x w = Inr z" and "execs z r = Some f"
    and "is_connected f = b" and "refcount f = 1" and "conn_option f = conn_option e" and "executor_id f = executor_id e"
    and "same_on R v z" and "held (if b then insert r R else R) z"
    and "\<not> b \<Longrightarrow> \<exists>d. mysql f = Some d \<and> d \<notin> mysqls z"
proof -
  have wf: "wf_on (insert r R) v" using h by (simp add: held_def)
  obtain f0 f w b where w: "execs v r = Some f0" "Connect api r v = Inr (b, w)"
    "execs w = (execs v)(r \<mapsto> f)" "is_connected f = b" "f = f0\<lparr>mysql := mysql f, is_connected := b\<rparr>"
    "wf_on (if b then insert r R else insert r R - {r}) w" "\<not> b \<Longrightarrow> \<exists>d. mysql f = Some d \<and> d \<notin> mysqls w"
    by (rule Connect_spec [OF wf _ oom, of r]) auto
  have "f0 = e" using w(1) e by simp
  then have f: "refcount f = 1" "conn_option f = conn_option e" "executor_id f = executor_id e"
    using c by (subst w(5), simp)+
  let ?W = "if b then insert r R else R"
  have wfw: "wf_on ?W w" using w(6) rR by (cases b) auto
  have xr: "x \<noteq> Some r" using x by (auto simp: stray_def)
  have x1: "stray 1 x ?W w" using x w(3) xr by (auto simp: stray_def)
  obtain z where z: "ref_drop api x w = Inr z" "wf_on ?W z" "same_on ?W w z"
    by (rule ref_drop_one [OF x1 wfw]) blast
  have ez: "execs z r = Some f" using ref_drop_frame(1) [OF z(1) xr] w(3) by simp
  have vz: "same_on R v z" using w(3) z(3) rR by (auto simp: same_on_def split: if_splits)
  have "single_refs R v" using h by (auto simp: held_def single_refs_def)
  then have "single_refs R z" using single_refs_same [OF _ vz] by simp
  then have hz: "held ?W z" using z(2) ez f(1) by (auto simp: held_def single_refs_def)
  have "\<exists>d. mysql f = Some d \<and> d \<notin> mysqls z" if "\<not> b" using w(7) [OF that] ref_drop_frame(2) [OF z(1)] by blast
  with w(2) z(1) ez w(4) f vz hz show thesis by (rule that)
qed

lemma created_leased:
  assumes T: "taken api U (shard_id_gen p) (p\<lparr>shard_id_gen := g\<rparr>) s (None, x, idle, q, t)"
    and inv: "pool_inv U p s" and oom: "no_oom api"
  shows "\<exists>r q' u v b w z. CreateExecutor api (shard_id_gen p) q t = Inr (r, q', u) \<and> ref_drop api x u = Inr v \<and>
    Connect api r v = Inr (b, w) \<and> ref_drop api idle w = Inr z \<and>
    leased api U p s (r, if b then q'\<lparr>executor_num := executor_num q' + 1\<rparr> else q', z)"
proof -
  let ?R = "U \<union> pooled q" and ?r = "next_block t" and ?q = "q\<lparr>executor_id_gen := executor_id_gen q + 1\<rparr>"
  have I: "U \<inter> pooled p = {}" using inv by (simp add: pool_inv_held)
  have h: "held ?R t" "stray 2 x ?R t" and idle: "idle = x" using T unfolding taken_def prod.case option.case by blast+
  note q = taken_pool [OF T]
  obtain u v e where 1: "CreateExecutor api (shard_id_gen p) q t = Inr (?r, ?q, u)" "ref_drop api x u = Inr v"
    "held (insert ?r ?R) v" "stray 1 x (insert ?r ?R) v" "execs v ?r = Some e" "refcount e = 1"
    "conn_option e = pool_conn_option q" "executor_id e = new_id (shard_id_gen p) (executor_id_gen q)"
    "same_on ?R t v" and r: "?r \<notin> ?R"
    by (rule create_fresh [OF h oom])
  obtain b w z f where 2: "Connect api ?r v = Inr (b, w)" "ref_drop api x w = Inr z" "execs z ?r = Some f"
    "is_connected f = b" "refcount f = 1" "conn_option f = conn_option e" "executor_id f = executor_id e"
    "same_on ?R v z" "held (if b then insert ?r ?R else ?R) z" "\<not> b \<Longrightarrow> \<exists>d. mysql f = Some d \<and> d \<notin> mysqls z"
    by (rule connect_fresh [OF 1(3) r 1(4,5,6) oom]) blast
  have sz: "same_on U s z" using q(3) 1(9) 2(8) by (auto simp: same_on_def)
  have "leased api U p s (?r, if b then ?q\<lparr>executor_num := executor_num ?q + 1\<rparr> else ?q, z)"
  proof (cases b)
    case True
    then show ?thesis using q(1,2,4-9) I r sz 1(7,8) 2(3,4,6,7,9)
      by (auto simp: leased_def pool_inv_held shards_ok_def pooled_def)
  next
    case False
    then show ?thesis using q(1,2,4-9) I r sz 1(7,8) 2(3-7,9) 2(10)
      by (auto simp: leased_def pool_inv_held shards_ok_def pooled_def stray_Some)
  qed
  with 1(1,2) 2(1,2) idle show ?thesis by blast
qed

lemma GetOrCreate_spec:
  assumes inv: "pool_inv U p s" and oom: "no_oom api"
  shows "\<exists>res. GetOrCreate api p s = Inr res \<and> leased api U p s res"
proof -
  let ?sh = "shard_id_gen p"
  let ?p = "p\<lparr>shard_id_gen := ?sh + 1\<rparr>"
  have eq: "shards_ok ?p = shards_ok p" "pooled ?p = pooled p"
    by (simp_all add: shards_ok_def pooled_def)
  have I: "shards_ok ?p" "U \<inter> pooled ?p = {}" "held (U \<union> pooled ?p) s"
    using inv unfolding eq by (simp_all add: pool_inv_held)
  obtain found x idle q t where loop: "take_loop api EXECUTOR_POOL_CONN_RETRY_NUM ?sh None None ?p s =
      Inr (found, x, idle, q, t)" and T: "taken api U ?sh ?p s (found, x, idle, q, t)"
    using take_loop_spec [OF I, of None api EXECUTOR_POOL_CONN_RETRY_NUM ?sh] by auto
  show ?thesis
  proof (cases found)
    case (Some r)
    then obtain u where "ref_drop api idle t = Inr u" "leased api U p s (r, q, u)"
      using taken_leased [OF T [unfolded Some]] I(2) eq(2) by auto
    then show ?thesis using loop Some by (simp add: GetOrCreate_def Let_def)
  next
    case None
    show ?thesis using created_leased [OF T [unfolded None] inv oom] loop None
      by (auto simp: GetOrCreate_def Let_def)
  qed
qed

section \<open>Reclaim, stop and destroy\<close>

lemma pool_inv_executor_num [simp]:
  "shards_ok (p\<lparr>executor_num := n\<rparr>) = shards_ok p" "pooled (p\<lparr>executor_num := n\<rparr>) = pooled p"
  "pool_inv U (p\<lparr>executor_num := n\<rparr>) s = pool_inv U p s"
  by (simp_all add: shards_ok_def pooled_def pool_inv_def)

definition home_shard :: "pool \<Rightarrow> 'w sys \<Rightarrow> nat \<Rightarrow> nat" where
  "home_shard p s r =
     unat (ucast (drop_bit 32 (executor_id (the (execs s r)))) mod num_shard_group (pool_option p))"

definition has_room :: "pool \<Rightarrow> nat \<Rightarrow> bool" where
  "has_room p i \<longleftrightarrow>
     length (executor_shards p ! i) \<le> unat (max_num_per_shard p) \<and>
     executor_num p \<le> max_size (pool_option p)"

lemma Reclaim_keep:
  assumes p: "shards_ok p" and e: "execs s r = Some e" and "has_room p (home_shard p s r)"
  shows "Reclaim api 0 (Some r) p s =
    Inr (None, set_shard (home_shard p s r) (executor_shards p ! home_shard p s r @ [r]) p,
         put_exec r (e\<lparr>m_alivetime := steady_ms api (lib s)\<rparr>) s)"
proof -
  obtain i where "shard_index p (ucast (drop_bit 32 (executor_id e))) = Inr i"
    "i = home_shard p s r"
    using shard_index_Inr [OF p] e by (metis home_shard_def option.sel)
  then show ?thesis
    using assms
    by (simp add: Reclaim_def deref_def GetExecutorId_def Refresh_eq has_room_def Let_def)
qed

lemma Reclaim_close:
  assumes p: "shards_ok p" and e: "execs s r = Some e"
    and "ret \<noteq> 0 \<or> \<not> has_room p (home_shard p s r)"
  shows "Reclaim api ret (Some r) p s =
    bindE (Close api r s) (\<lambda>t. Inr (Some r, p\<lparr>executor_num := executor_num p + 1\<rparr>, t))"
proof (cases "ret = 0")
  case True
  obtain i where "shard_index p (ucast (drop_bit 32 (executor_id e))) = Inr i"
    "i = home_shard p s r"
    using shard_index_Inr [OF p] e by (metis home_shard_def option.sel)
  then show ?thesis
    using assms True
    by (auto simp: Reclaim_def deref_def GetExecutorId_def has_room_def Let_def)
qed (simp add: Reclaim_def deref_def)

lemma home_shard_less: "shards_ok p \<Longrightarrow> home_shard p s r < length (executor_shards p)"
  using shard_index_Inr [of p "ucast (drop_bit 32 (executor_id (the (execs s r))))"]
  by (metis home_shard_def)

text \<open>What \<^verbatim>\<open>Reclaim\<close> promises: the executor is in the pool and no longer its user's, or it is
  disconnected and its user still has the reference.\<close>

definition returned ::
  "nat set \<Rightarrow> nat \<Rightarrow> pool \<Rightarrow> 'w sys \<Rightarrow> ptr \<times> pool \<times> 'w sys \<Rightarrow> bool" where
  "returned U r p s = (\<lambda>(x, q, t).
     pool_option q = pool_option p \<and> max_num_per_shard q = max_num_per_shard p \<and>
     same_on (U \<union> pooled p - {r}) s t \<and>
     (if x = None then pool_inv (U - {r}) q t \<and> pooled q = insert r (pooled p)
      else x = Some r \<and> pool_inv U q t \<and> pooled q = pooled p \<and> \<not> connected t r))"

lemma Reclaim_spec:
  assumes inv: "pool_inv U p s" and r: "r \<in> U"
  shows "\<exists>res. Reclaim api ret (Some r) p s = Inr res \<and> returned U r p s res"
proof -
  let ?R = "U \<union> pooled p" and ?i = "home_shard p s r"
  have I: "shards_ok p" "U \<inter> pooled p = {}" "wf_on ?R s" "single_refs ?R s"
    using inv by (simp_all add: pool_inv_def)
  obtain e where e: "execs s r = Some e" using wf_onD(1) [OF I(3)] r by auto
  have one: "refcount e = 1" using I(4) e r unfolding single_refs_def by blast
  show ?thesis
  proof (cases "ret = 0 \<and> has_room p ?i")
    case True
    let ?q = "set_shard ?i (executor_shards p ! ?i @ [r]) p"
    let ?t = "put_exec r (e\<lparr>m_alivetime := steady_ms api (lib s)\<rparr>) s"
    have rp: "r \<notin> pooled p" using r I(2) by blast
    have "length (executor_shards p ! ?i) \<le> unat (max_num_per_shard p)"
      using True by (simp add: has_room_def)
    then have q: "shards_ok ?q" "pooled ?q = insert r (pooled p)"
      using push_shard [OF I(1) home_shard_less [OF I(1)] rp, of s r] by simp_all
    have R: "U - {r} \<union> pooled ?q = ?R" using q(2) r by auto
    have "wf_on ?R ?t" using refresh.op_returns [OF I(3), of r api] r e by (simp add: Refresh_eq)
    moreover have "single_refs ?R ?t" using I(4) one by (simp add: single_refs_def)
    moreover have "(U - {r}) \<inter> pooled ?q = {}" using q(2) I(2) by auto
    ultimately have "pool_inv (U - {r}) ?q ?t" using q(1) R by (simp add: pool_inv_def)
    then show ?thesis
      using True Reclaim_keep [OF I(1) e] q(2) by (simp add: returned_def same_on_def)
  next
    case False
    obtain f t where t: "execs s r = Some f" "Close api r s = Inr t" "wf_on ?R t"
      "execs t = (execs s)(r \<mapsto> closed f)"
      by (rule Close_spec [OF I(3), of r api]) (use r in auto)
    have "single_refs ?R t" using I(4) t one e by (simp add: single_refs_def closed_def)
    then have "pool_inv U p t" using I t(3) by (simp add: pool_inv_def)
    then show ?thesis
      using Reclaim_close [OF I(1) e, of ret api] False t
      by (auto simp: returned_def same_on_def closed_def)
  qed
qed

text \<open>An operation that rewrites its executor's record by \<open>g\<close>, run over distinct executors.\<close>

locale record_op = executor_op op for op :: "nat \<Rightarrow> 'w sys \<Rightarrow> 'w sys result" +
  fixes g :: "executor \<Rightarrow> executor"
  assumes op_record: "op r s = Inr t \<Longrightarrow> \<exists>e. execs s r = Some e \<and> execs t = (execs s)(r \<mapsto> g e)"
begin

lemma all_records:
  "foldE op rs s = Inr t \<Longrightarrow> distinct rs \<Longrightarrow>
    execs t r = (if r \<in> set rs then map_option g (execs s r) else execs s r)"
proof (induction rs arbitrary: s)
  case Nil
  then show ?case by simp
next
  case (Cons x rs)
  then obtain u where u: "op x s = Inr u" "foldE op rs u = Inr t" by (auto simp: bindE_Inr_iff)
  obtain e where "execs s x = Some e" "execs u = (execs s)(x \<mapsto> g e)" using op_record [OF u(1)] by blast
  with Cons u(2) show ?case by auto
qed

end

interpretation copy: record_op ref_copy "\<lambda>e. e\<lparr>refcount := Suc (refcount e)\<rparr>"
  by unfold_locales (auto simp: ref_copy_def bindE_Inr_iff get_exec_Inr)

lemma Close_record:
  assumes "Close api r s = Inr t"
  shows "\<exists>e. execs s r = Some e \<and> execs t = (execs s)(r \<mapsto> closed e)"
proof -
  obtain e where e: "execs s r = Some e" using assms by (auto simp: Close_def bindE_Inr_iff get_exec_Inr)
  have "mysql e = None \<Longrightarrow> e\<lparr>mysql := None, is_connected := False\<rparr> = e\<lparr>is_connected := False\<rparr>"
    by simp
  with e assms show ?thesis
    by (cases "mysql e"; cases "is_connected e")
      (auto simp: Close_def closed_def mysql_close_def bindE_Inr_iff)
qed

interpretation close: record_op "Close api" closed for api :: "'w mysql_api"
  by unfold_locales (rule Close_record)

definition drop_ref :: "executor \<Rightarrow> executor" where
  "drop_ref e = e\<lparr>refcount := refcount e - 1\<rparr>"

lemma drop_all_shared:
  assumes "wf_on R s" and "set xs \<subseteq> R" and "distinct xs"
    and "\<forall>r \<in> set xs. \<forall>e. execs s r = Some e \<longrightarrow> 1 < refcount e"
  shows "\<exists>t. foldE (\<lambda>r. ref_drop api (Some r)) xs s = Inr t \<and> wf_on R t \<and>
    (\<forall>r. execs t r = (if r \<in> set xs then map_option drop_ref (execs s r) else execs s r))"
  using assms
proof (induction xs arbitrary: s)
  case Nil
  then show ?case by simp
next
  case (Cons x xs)
  obtain e where e: "execs s x = Some e" using wf_onD(1) [OF Cons.prems(1)] Cons.prems(2) by auto
  let ?u = "put_exec x (drop_ref e) s"
  have "1 < refcount e" using Cons.prems(4) e by simp
  from ref_drop_shared [OF e this, of api] have u: "ref_drop api (Some x) s = Inr ?u"
    by (simp add: drop_ref_def)
  have "wf_on R ?u"
    by (rule wf_on_put [where e = e, OF Cons.prems(1) e])
      (use wf_onD(3) [OF Cons.prems(1), of x] Cons.prems(2) e in \<open>auto simp: drop_ref_def\<close>)
  moreover have "\<forall>r \<in> set xs. \<forall>e. execs ?u r = Some e \<longrightarrow> 1 < refcount e"
    using Cons.prems(3,4) by auto
  ultimately obtain t where t: "foldE (\<lambda>r. ref_drop api (Some r)) xs ?u = Inr t" "wf_on R t"
    "\<forall>r. execs t r = (if r \<in> set xs then map_option drop_ref (execs ?u r) else execs ?u r)"
    using Cons.IH [of ?u] Cons.prems(2,3) by auto
  have "execs t r = (if r \<in> set (x # xs) then map_option drop_ref (execs s r) else execs s r)" for r
    using t(3) e Cons.prems(3) by auto
  with u t(1,2) show ?case by simp
qed

text \<open>One shard of \<^verbatim>\<open>Stop\<close>: the references it copied are dropped again.\<close>

lemma stop_shard_spec:
  assumes s: "held R s" and i: "i < length (executor_shards p)"
    and sub: "set (executor_shards p ! i) \<subseteq> R" and d: "distinct (executor_shards p ! i)"
  obtains t where "stop_shard api p i s = Inr t" and "held R t"
    and "\<And>r. execs t r =
      (if r \<in> set (executor_shards p ! i) then map_option closed (execs s r) else execs s r)"
proof -
  let ?xs = "executor_shards p ! i"
  have wf: "wf_on R s" and one: "single_refs R s" using s by (simp_all add: held_def)
  obtain u where u: "foldE ref_copy ?xs s = Inr u" "wf_on R u" using copy.all_return [OF wf sub] by blast
  obtain v where v: "foldE (Close api) ?xs u = Inr v" "wf_on R v"
    using close.all_return [OF u(2) sub, of api] by blast
  note E = copy.all_records [OF u(1) d] close.all_records [OF v(1) d]
  have two: "\<forall>r \<in> set ?xs. \<forall>e. execs v r = Some e \<longrightarrow> 1 < refcount e"
    using E one sub by (fastforce simp: single_refs_def closed_def)
  obtain t where t: "foldE (\<lambda>r. ref_drop api (Some r)) ?xs v = Inr t" "wf_on R t"
    "\<forall>r. execs t r = (if r \<in> set ?xs then map_option drop_ref (execs v r) else execs v r)"
    using drop_all_shared [OF v(2) sub d two, of api] by blast
  have "drop_ref (closed (e\<lparr>refcount := Suc (refcount e)\<rparr>)) = closed e" for e
    by (simp add: closed_def drop_ref_def)
  then have rec: "execs t r = (if r \<in> set ?xs then map_option closed (execs s r) else execs s r)" for r
    using t(3) E [of r] by (auto simp: option.map_comp comp_def)
  have "single_refs R t" using one rec by (auto simp: single_refs_def closed_def split: if_splits)
  with t(2) have "held R t" by (simp add: held_def)
  with rec u(1) v(1) t(1) i that show thesis by (simp add: stop_shard_def)
qed

lemma shards_sub: "i < length (executor_shards p) \<Longrightarrow> set (executor_shards p ! i) \<subseteq> pooled p"
  unfolding pooled_def set_concat using nth_mem by blast

lemma shards_distinct: "shards_ok p \<Longrightarrow> i < length (executor_shards p) \<Longrightarrow> distinct (executor_shards p ! i)"
  by (auto simp: shards_ok_def distinct_concat_iff)

text \<open>\<^verbatim>\<open>Stop\<close> over the first \<open>k\<close> shards.\<close>

lemma stop_loop:
  assumes p: "shards_ok p" and s: "held R s" and R: "pooled p \<subseteq> R"
    and k: "k \<le> length (executor_shards p)"
  shows "\<exists>t. foldE (stop_shard api p) [0..<k] s = Inr t \<and> held R t \<and>
    (\<forall>r. execs t r = (if r \<in> set (concat (take k (executor_shards p)))
                        then map_option closed (execs s r) else execs s r))"
  using k
proof (induction k)
  case 0
  with s show ?case by simp
next
  case (Suc k)
  then obtain t where t: "foldE (stop_shard api p) [0..<k] s = Inr t" "held R t"
    "\<forall>r. execs t r = (if r \<in> set (concat (take k (executor_shards p)))
                        then map_option closed (execs s r) else execs s r)" by auto
  have k: "k < length (executor_shards p)" using Suc.prems by simp
  obtain u where u: "stop_shard api p k t = Inr u" "held R u"
    "\<And>r. execs u r =
      (if r \<in> set (executor_shards p ! k) then map_option closed (execs t r) else execs t r)"
    by (rule stop_shard_spec [OF t(2) k, of api])
      (use shards_sub [OF k] shards_distinct [OF p k] R in auto)
  have "closed (closed e) = closed e" for e by (simp add: closed_def)
  then have "execs u r = (if r \<in> set (concat (take (Suc k) (executor_shards p)))
                        then map_option closed (execs s r) else execs s r)" for r
    using t(3) u(3) [of r] k by (auto simp: take_Suc_conv_app_nth option.map_comp comp_def)
  then show ?case using t(1) u(1,2) by (simp add: foldE_append)
qed

lemma pool_Stop_spec:
  assumes "pool_inv U p s"
  shows "\<exists>t. pool_Stop api p s = Inr t \<and> pool_inv U p t \<and>
    (\<forall>r. execs t r = (if r \<in> pooled p then map_option closed (execs s r) else execs s r))"
  using stop_loop [of p "U \<union> pooled p" s "length (executor_shards p)" api] assms
  by (auto simp: pool_inv_held pool_Stop_def pooled_def shards_ok_def)

text \<open>Dropping the last references of disconnected executors.\<close>

lemma drop_all_last:
  assumes "held R s" and "set xs \<subseteq> R" and "distinct xs" and "\<forall>r \<in> set xs. \<not> connected s r"
  shows "\<exists>t. foldE (\<lambda>r. ref_drop api (Some r)) xs s = Inr t \<and> held (R - set xs) t \<and>
    (\<forall>r. execs t r = (if r \<in> set xs then None else execs s r))"
  using assms
proof (induction xs arbitrary: s R)
  case Nil
  then show ?case by simp
next
  case (Cons x xs)
  have wf: "wf_on R s" using Cons.prems(1) by (simp add: held_def)
  obtain e where e: "execs s x = Some e" using wf_onD(1) [OF wf] Cons.prems(2) by auto
  let ?u = "s\<lparr>execs := (execs s)(x := None)\<rparr>"
  have c: "refcount e \<le> 1" "\<not> is_connected e"
    using Cons.prems e by (auto simp: held_def single_refs_def)
  from ref_drop_last [OF e this, of api] have u: "ref_drop api (Some x) s = Inr ?u" .
  have "wf_on (R - {x}) ?u" by (rule wf_on_delete [OF wf_on_subset [OF wf]]) auto
  moreover have "single_refs (R - {x}) ?u" using Cons.prems(1) by (auto simp: held_def single_refs_def)
  ultimately have h: "held (R - {x}) ?u" by (simp add: held_def)
  have cu: "\<forall>r \<in> set xs. \<not> connected ?u r" using Cons.prems(3,4) by (auto simp: connected_def)
  have sub: "set xs \<subseteq> R - {x}" using Cons.prems(2,3) by auto
  obtain t where t: "foldE (\<lambda>r. ref_drop api (Some r)) xs ?u = Inr t" "held (R - {x} - set xs) t"
    "\<forall>r. execs t r = (if r \<in> set xs then None else execs ?u r)"
    using Cons.IH [OF h sub _ cu] Cons.prems(3) by auto
  have "R - {x} - set xs = R - set (x # xs)" by auto
  with u t show ?case by auto
qed

lemma destroy_loop:
  assumes p: "shards_ok p" and dis: "U \<inter> pooled p = {}" and s: "held (U \<union> pooled p) s"
    and c: "\<forall>r \<in> pooled p. \<not> connected s r" and k: "k \<le> length (executor_shards p)"
  shows "\<exists>t. foldE (destroy_shard api) [0..<k] (p, s) =
      Inr (p\<lparr>executor_shards := replicate k [] @ drop k (executor_shards p)\<rparr>, t) \<and>
    held (U \<union> set (concat (drop k (executor_shards p)))) t \<and>
    (\<forall>r. execs t r = (if r \<in> set (concat (take k (executor_shards p))) then None else execs s r))"
  using k
proof (induction k)
  case 0
  with s show ?case by (simp add: pooled_def)
next
  case (Suc k)
  let ?ss = "executor_shards p"
  let ?q = "\<lambda>k. p\<lparr>executor_shards := replicate k [] @ drop k ?ss\<rparr>"
  have k: "k < length ?ss" using Suc.prems by simp
  have split: "drop k ?ss = ?ss ! k # drop (Suc k) ?ss" using k by (simp add: Cons_nth_drop_Suc)
  have d: "distinct (concat (take k ?ss) @ ?ss ! k @ concat (drop (Suc k) ?ss))"
    using p concat_split [OF k] by (simp add: shards_ok_def)
  obtain t where t: "foldE (destroy_shard api) [0..<k] (p, s) = Inr (?q k, t)"
    "held (U \<union> set (concat (drop k ?ss))) t"
    "\<forall>r. execs t r = (if r \<in> set (concat (take k ?ss)) then None else execs s r)"
    using Suc by auto
  have sub: "set (?ss ! k) \<subseteq> U \<union> set (concat (drop k ?ss))" using split by auto
  have "\<forall>r \<in> set (?ss ! k). \<not> connected t r"
    using c t(3) shards_sub [OF k] by (auto simp: connected_def)
  then obtain u where u: "foldE (\<lambda>r. ref_drop api (Some r)) (?ss ! k) t = Inr u"
    "held (U \<union> set (concat (drop k ?ss)) - set (?ss ! k)) u"
    "\<forall>r. execs u r = (if r \<in> set (?ss ! k) then None else execs t r)"
    using drop_all_last [OF t(2) sub, of api] d by auto
  have "U \<inter> set (?ss ! k) = {}" using dis shards_sub [OF k] by blast
  then have R: "U \<union> set (concat (drop k ?ss)) - set (?ss ! k) = U \<union> set (concat (drop (Suc k) ?ss))"
    using d split by auto
  have q: "set_shard k [] (?q k) = ?q (Suc k)"
    using k split by (simp add: set_shard_def list_update_append replicate_append_same [symmetric])
  have nth: "nthE (executor_shards (?q k)) k = Inr (?ss ! k)" using k split by (simp add: nthE_def nth_append)
  have "destroy_shard api k (?q k, t) = Inr (?q (Suc k), u)"
    unfolding destroy_shard_def prod.case Let_def nth bindE_simps u(1) q ..
  moreover have "execs u r = (if r \<in> set (concat (take (Suc k) ?ss)) then None else execs s r)" for r
    using t(3) u(3) k by (auto simp: take_Suc_conv_app_nth)
  ultimately show ?case using t(1) u(2) R by (simp add: foldE_append)
qed

lemma pool_Destroy_spec:
  assumes inv: "pool_inv U p s" and c: "\<forall>r \<in> pooled p. \<not> connected s r"
  shows "\<exists>q t. pool_Destroy api p s = Inr (q, t) \<and> pooled q = {} \<and> pool_inv U q t \<and>
    (\<forall>r. execs t r = (if r \<in> pooled p then None else execs s r))"
proof -
  let ?n = "length (executor_shards p)"
  let ?q = "p\<lparr>executor_shards := replicate ?n []\<rparr>"
  have I: "shards_ok p" "U \<inter> pooled p = {}" "held (U \<union> pooled p) s"
    using inv by (simp_all add: pool_inv_held)
  obtain t where t: "foldE (destroy_shard api) [0..<?n] (p, s) = Inr (?q, t)" "held U t"
    "\<forall>r. execs t r = (if r \<in> pooled p then None else execs s r)"
    using destroy_loop [OF I c, of ?n api] by (auto simp: pooled_def)
  have "pooled ?q = {}" "shards_ok ?q" using I(1) by (auto simp: pooled_def shards_ok_def)
  moreover have "pool_Destroy api p s = Inr (?q, t)"
    using t(1) I(1) by (simp add: pool_Destroy_def shards_ok_def)
  ultimately show ?thesis using t(2,3) by (auto simp: pool_inv_held)
qed

section \<open>Runs of a pool\<close>

text \<open>
  The users' executors, the pool and the rest of the program. A user that got a connected
  executor uses it (\<open>conn_step\<close>) and gives it back; one that got a failed executor drops it,
  and so does one whose executor \<^verbatim>\<open>Reclaim\<close> closed. \<open>mysql_init\<close> does not run out of memory.
\<close>

inductive pool_step ::
  "'w mysql_api \<Rightarrow> nat set \<times> pool \<times> 'w sys \<Rightarrow> nat set \<times> pool \<times> 'w sys \<Rightarrow> bool"
  for api :: "'w mysql_api" where
  step_get: "GetExecutor api p s = Inr (r, q, t) \<Longrightarrow> connected t r \<Longrightarrow>
    pool_step api (U, p, s) (insert r U, q, t)"
| step_get_failed: "GetExecutor api p s = Inr (r, q, t) \<Longrightarrow> \<not> connected t r \<Longrightarrow>
    ref_drop api (Some r) t = Inr u \<Longrightarrow> pool_step api (U, p, s) (U, q, u)"
| step_use: "r \<in> U \<Longrightarrow> conn_step api {r} s t \<Longrightarrow> pool_step api (U, p, s) (U, p, t)"
| step_reclaim: "r \<in> U \<Longrightarrow> Reclaim api ret (Some r) p s = Inr (x, q, t) \<Longrightarrow>
    ref_drop api x t = Inr u \<Longrightarrow> pool_step api (U, p, s) (U - {r}, q, u)"
| step_stop: "pool_Stop api p s = Inr t \<Longrightarrow> pool_step api (U, p, s) (U, p, t)"
| step_destroy: "pool_Stop api p s = Inr t \<Longrightarrow> pool_Destroy api p t = Inr (q, u) \<Longrightarrow>
    pool_step api (U, p, s) (U, q, u)"
| step_world: "pool_step api (U, p, s) (U, p, s\<lparr>lib := w\<rparr>)"

text \<open>The protocol a pool implements: who uses which connection, and which are free.\<close>

inductive lease_step :: "nat set \<times> nat set \<Rightarrow> nat set \<times> nat set \<Rightarrow> bool" where
  acquire: "r \<notin> U \<Longrightarrow> r \<notin> F' \<Longrightarrow> F' \<subseteq> F \<Longrightarrow> lease_step (U, F) (insert r U, F')"
| release: "r \<in> U \<Longrightarrow> r \<notin> F \<Longrightarrow> lease_step (U, F) (U - {r}, insert r F)"
| discard: "r \<in> U \<Longrightarrow> lease_step (U, F) (U - {r}, F)"
| evict: "F' \<subseteq> F \<Longrightarrow> lease_step (U, F) (U, F')"

lemma conn_step_mono: "conn_step api R s t \<Longrightarrow> R \<subseteq> R' \<Longrightarrow> conn_step api R' s t"
  by (induction rule: conn_step.induct) (auto intro: conn_step.intros)

text \<open>A step on one executor keeps every reference count.\<close>

definition counts :: "'w sys \<Rightarrow> nat \<Rightarrow> nat option" where
  "counts s r = map_option refcount (execs s r)"

lemma single_refs_counts: "single_refs R s \<longleftrightarrow> (\<forall>r \<in> R. \<forall>n. counts s r = Some n \<longrightarrow> n = 1)"
  by (fastforce simp: single_refs_def counts_def)

lemma conn_step_counts: "conn_step api R s t \<Longrightarrow> counts t = counts s"
proof (induction rule: conn_step.induct)
  case (step_close r s t)
  then show ?case using Close_record [of api r s t] by (auto simp: counts_def closed_def fun_eq_iff)
next
  case (step_refresh r s t)
  then show ?case by (auto simp: RefreshAliveTime_def counts_def bindE_Inr_iff get_exec_Inr fun_eq_iff)
next
  case (step_alive r s b t)
  then show ?case
    by (auto simp: CheckAlive_def mysql_call_def on_block_Inr counts_def bindE_Inr_iff get_exec_Inr fun_eq_iff
        split: if_splits)
next
  case (step_connect r s t)
  then show ?case
    by (auto simp: Connect_def mysql_call_def on_block_Inr mysql_init_def counts_def bindE_Inr_iff
        get_exec_Inr fun_eq_iff Let_def split: if_splits prod.splits)
next
  case (step_world s w)
  then show ?case by (simp add: counts_def fun_eq_iff)
qed

lemma conn_step_pool_inv:
  assumes inv: "pool_inv U p s" and "no_oom api" and "r \<in> U" and st: "conn_step api {r} s t"
  shows "pool_inv U p t"
proof -
  have "conn_step api (U \<union> pooled p) s t" using conn_step_mono [OF st] assms(3) by blast
  with assms conn_step_wf [of api "U \<union> pooled p" s t] conn_step_counts [OF st] show ?thesis
    by (simp add: pool_inv_def single_refs_counts)
qed

lemma pool_inv_drop:
  assumes inv: "pool_inv U p t" and x: "stray 1 x (U \<union> pooled p) t" and d: "ref_drop api x t = Inr u"
  shows "pool_inv U p u"
proof -
  have I: "shards_ok p" "U \<inter> pooled p = {}" "held (U \<union> pooled p) t"
    using inv by (simp_all add: pool_inv_held)
  obtain v where "ref_drop api x t = Inr v" "wf_on (U \<union> pooled p) v" "same_on (U \<union> pooled p) t v"
    by (rule ref_drop_one [OF x]) (use I(3) in \<open>auto simp: held_def\<close>)
  with d I single_refs_same show ?thesis by (auto simp: pool_inv_held held_def)
qed

lemma pool_inv_fewer: "pool_inv U p s \<Longrightarrow> U' \<subseteq> U \<Longrightarrow> pool_inv U' p s"
  using held_subset [of "U \<union> pooled p" s "U' \<union> pooled p"] by (auto simp: pool_inv_held)

lemma pool_step_sim:
  assumes oom: "no_oom api" and inv: "pool_inv U p s" and st: "pool_step api (U, p, s) (V, q, u)"
  shows "pool_inv V q u \<and> lease_step (U, pooled p) (V, pooled q)"
  using st
proof (cases rule: pool_step.cases)
  case (step_get r)
  then have "leased api U p s (r, q, u)" using GetOrCreate_spec [OF inv oom] by (auto simp: GetExecutor_def)
  with step_get show ?thesis by (auto simp: leased_def intro: lease_step.acquire)
next
  case (step_get_failed r t)
  then have "leased api U p s (r, q, t)" using GetOrCreate_spec [OF inv oom] by (auto simp: GetExecutor_def)
  then have "pool_inv U q t" "stray 1 (Some r) (U \<union> pooled q) t" "pooled q \<subseteq> pooled p"
    using step_get_failed by (auto simp: leased_def)
  with step_get_failed pool_inv_drop show ?thesis by (auto intro: lease_step.evict)
next
  case (step_use r)
  then show ?thesis using conn_step_pool_inv [OF inv oom] by (auto intro: lease_step.evict)
next
  case (step_reclaim r ret x t)
  then have R: "returned U r p s (x, q, t)" using Reclaim_spec [OF inv step_reclaim(2), of api ret] by auto
  have rp: "r \<notin> pooled p" using inv step_reclaim(2) by (auto simp: pool_inv_def)
  show ?thesis
  proof (cases x)
    case None
    with R step_reclaim rp show ?thesis by (auto simp: returned_def intro: lease_step.release)
  next
    case (Some y)
    then have t: "x = Some r" "pool_inv U q t" "pooled q = pooled p" "\<not> connected t r"
      using R by (auto simp: returned_def)
    have "held (U \<union> pooled q) t" using t(2) by (simp add: pool_inv_held)
    then obtain e where "execs t r = Some e" "refcount e = 1"
      using step_reclaim(2) held_refcount [of "U \<union> pooled q" t r] by blast
    then have "stray 1 x (U - {r} \<union> pooled q) t" using t rp by (simp add: stray_Some)
    then have "pool_inv (U - {r}) q u"
      using pool_inv_drop [OF pool_inv_fewer [OF t(2)]] step_reclaim(4) by blast
    with t(3) step_reclaim show ?thesis by (auto intro: lease_step.discard)
  qed
next
  case step_stop
  then show ?thesis using pool_Stop_spec [OF inv, of api] by (auto intro: lease_step.evict)
next
  case (step_destroy t)
  then have t: "pool_inv U p t" "\<forall>r \<in> pooled p. \<not> connected t r"
    using pool_Stop_spec [OF inv, of api]
    by (auto simp: connected_def closed_def split: option.splits)
  with step_destroy show ?thesis using pool_Destroy_spec [OF t, of api] by (auto intro: lease_step.evict)
next
  case (step_world w)
  with inv show ?thesis by (auto simp: pool_inv_def single_refs_def intro: lease_step.evict)
qed

definition pool_state_inv :: "nat set \<times> pool \<times> 'w sys \<Rightarrow> bool" where
  "pool_state_inv c = (case c of (U, p, s) \<Rightarrow> pool_inv U p s)"

definition lease_of :: "nat set \<times> pool \<times> 'w sys \<Rightarrow> nat set \<times> nat set" where
  "lease_of c = (case c of (U, p, s) \<Rightarrow> (U, pooled p))"

text \<open>Where a run starts: a new pool, nobody uses an executor.\<close>

definition pool_start :: "nat set \<times> pool \<times> 'w sys \<Rightarrow> bool" where
  "pool_start c \<longleftrightarrow>
     (\<exists>opt addr p s. pool_new opt addr = Inr p \<and> wf_on {} s \<and> c = ({}, p, s))"

lemma pool_new_inv: "pool_new opt addr = Inr p \<Longrightarrow> wf_on {} s \<Longrightarrow> pool_inv {} p s \<and> pooled p = {}"
  by (auto simp: pool_new_def pool_inv_def shards_ok_def pooled_def single_refs_def split: if_splits)

interpretation pool_runs: invariant_system
  "pool_start" "\<lambda>c d. no_oom api \<and> pool_step api c d" "pool_state_inv" for api :: "'w mysql_api"
  by unfold_locales
    (auto simp: pool_start_def pool_state_inv_def dest: pool_new_inv pool_step_sim)

interpretation pool_leases: simulation
  "\<lambda>c d. no_oom api \<and> pool_step api c d" lease_step lease_of pool_state_inv for api :: "'w mysql_api"
  by unfold_locales (auto simp: pool_state_inv_def lease_of_def dest: pool_step_sim)

section \<open>Properties\<close>

definition demo_option :: "u64 \<Rightarrow> MysqlExecutorPoolOption" where
  "demo_option idle =
     \<lparr>max_size = 2, max_idle_time = idle, num_shard_group = 1, po_dbname = ''db'', po_username = ''u'',
      po_password = ''p'', po_char_set = ''utf8mb4''\<rparr>"

definition demo_pool :: "nat list \<Rightarrow> u32 \<Rightarrow> pool" where
  "demo_pool xs n =
     \<lparr>pool_option = demo_option 0, target = \<lparr>na_ip = ''h'', na_port = 3306\<rparr>, executor_num = n,
      max_num_per_shard = 2, executor_shards = [xs], shard_id_gen = 0, executor_id_gen = 0\<rparr>"

lemma demo_pool_inv:
  "pool_inv {} (demo_pool [0] n) (demo_sys b c)" "pool_inv {0} (demo_pool [] n) (demo_sys b c)"
  by (simp_all add: pool_inv_def shards_ok_def demo_pool_def demo_option_def pooled_def
      demo_sys_wf single_refs_def)

lemma demo_start: "pool_start ({}, demo_pool [] 0, demo_sys b c)"
proof -
  have "pool_new (demo_option 0) \<lparr>na_ip = ''h'', na_port = 3306\<rparr> = Inr (demo_pool [] 0)"
    by (simp add: pool_new_def demo_option_def demo_pool_def)
  moreover have "wf_on {} (demo_sys b c)" by (rule wf_on_subset [OF demo_sys_wf]) simp
  ultimately show ?thesis unfolding pool_start_def by blast
qed

text \<open>C1: In every state a pool and its users can reach, \<^verbatim>\<open>GetExecutor\<close> returns an executor no user
  has and that is in no shard; when it is connected its handle is live and no other
  executor in use or in the pool has it. \<^verbatim>\<open>Reclaim\<close> and \<^verbatim>\<open>Stop\<close> return, no executor is in use
  and in the pool at once, and none is in two places of the pool.\<close>

theorem pool_never_shares_a_connection:
  assumes "reach pool_start (\<lambda>c d. no_oom api \<and> pool_step api c d) (U, p, s)" and "no_oom api"
  shows "(\<exists>r q t. GetExecutor api p s = Inr (r, q, t) \<and> r \<notin> U \<and> r \<notin> pooled q \<and>
      (connected t r \<longrightarrow> (\<exists>h. handle t r = Some h \<and> h \<in> mysqls t \<and>
         (\<forall>r' \<in> U \<union> pooled q. handle t r' \<noteq> Some h)))) \<and>
    (\<forall>r \<in> U. \<forall>ret. \<exists>x q t. Reclaim api ret (Some r) p s = Inr (x, q, t)) \<and>
    (\<exists>t. pool_Stop api p s = Inr t) \<and>
    U \<inter> pooled p = {} \<and> distinct (concat (executor_shards p))"
proof -
  have inv: "pool_inv U p s" using pool_runs.inv_reach [OF assms(1)] by (simp add: pool_state_inv_def)
  obtain r q t where g: "GetExecutor api p s = Inr (r, q, t)" "leased api U p s (r, q, t)"
    using GetOrCreate_spec [OF inv assms(2)] by (auto simp: GetExecutor_def)
  have "\<exists>h. handle t r = Some h \<and> h \<in> mysqls t \<and> (\<forall>r' \<in> U \<union> pooled q. handle t r' \<noteq> Some h)"
    if c: "connected t r"
  proof -
    have "pool_inv (insert r U) q t" and n: "r \<notin> U \<union> pooled q" using g(2) c by (auto simp: leased_def)
    then have wf: "wf_on (insert r (U \<union> pooled q)) t" by (simp add: pool_inv_def)
    obtain h where h: "handle t r = Some h" "h \<in> mysqls t" using wf_onD(2,3) [OF wf] c by blast
    with n wf_onD(4) [OF wf, of r] show ?thesis by blast
  qed
  moreover have "r \<notin> U" "r \<notin> pooled q" using g(2) by (auto simp: leased_def)
  moreover have "\<exists>x q t. Reclaim api ret (Some r) p s = Inr (x, q, t)" if "r \<in> U" for r ret
    using Reclaim_spec [OF inv that, of api ret] by (metis prod.exhaust)
  moreover have "U \<inter> pooled p = {}" "distinct (concat (executor_shards p))"
    using inv by (simp_all add: pool_inv_def shards_ok_def)
  ultimately show ?thesis using g(1) pool_Stop_spec [OF inv, of api] by blast
qed

theorem pool_never_shares_a_connection_witness:
  "\<exists>r q t. GetExecutor demo_api (demo_pool [] 0) (demo_sys True False) = Inr (r, q, t) \<and> r \<notin> pooled q"
proof -
  have "reach pool_start (\<lambda>c d. no_oom demo_api \<and> pool_step demo_api c d)
      ({}, demo_pool [] 0, demo_sys True False)" using demo_start by (rule reach_start)
  from pool_never_shares_a_connection [OF this demo_no_oom] show ?thesis by blast
qed



text \<open>\<^verbatim>\<open>GetExecutor\<close> either takes an executor out of the pool, connected and within the idle
  time, and creates none, or it creates one: its identifier is the shard counter above
  the creation counter, it has the pool's connection options, and the number of
  connections goes up by one exactly when the new connection was made.\<close>

theorem GetExecutor_takes_or_creates:
  assumes "pool_inv U p s" and "no_oom api"
  shows "\<exists>r q t. GetExecutor api p s = Inr (r, q, t) \<and>
    (if executor_id_gen q = executor_id_gen p
     then r \<in> pooled p \<and> connected t r \<and> IsIdleTimeout api q (Some r) t = Inr False \<and>
       executor_num q = executor_num p
     else (\<exists>e. execs t r = Some e \<and> executor_id e = new_id (shard_id_gen p) (executor_id_gen p) \<and>
            conn_option e = pool_conn_option p) \<and>
       executor_num q = executor_num p + (if connected t r then 1 else 0)) \<and>
    (\<forall>u \<in> U. execs t u = execs s u)"
  using GetOrCreate_spec [OF assms] by (fastforce simp: leased_def GetExecutor_def same_on_def)

theorem GetExecutor_takes_or_creates_witness:
  "\<exists>r q t. GetExecutor demo_api (demo_pool [0] 1) (demo_sys True True) = Inr (r, q, t)"
  using GetExecutor_takes_or_creates [OF demo_pool_inv(1) demo_no_oom] by blast

text \<open>Giving a healthy connection back and asking the same shard for one yields that
  connection: the pool is as before, except for the shard counter, and no other
  executor was touched.\<close>

theorem reclaim_then_get:
  assumes inv: "pool_inv U p s" and r: "r \<in> U" and e: "execs s r = Some e" "is_connected e"
    and h: "mysql e = Some h" "c_ping api h (lib s) = (0, w)"
    and idle: "steady_ms api w - steady_ms api (lib s) < max_idle_time (pool_option p)"
    and shard: "shard_index p (shard_id_gen p) = shard_index p (ucast (drop_bit 32 (executor_id e)))"
    and room: "has_room p (home_shard p s r)"
  shows "\<exists>q t u. Reclaim api 0 (Some r) p s = Inr (None, q, t) \<and>
    GetExecutor api q t = Inr (r, p\<lparr>shard_id_gen := shard_id_gen p + 1\<rparr>, u) \<and>
    execs u = (execs s)(r \<mapsto> e\<lparr>m_alivetime := steady_ms api (lib s)\<rparr>) \<and> mysqls u = mysqls s"
proof -
  let ?i = "home_shard p s r" and ?e = "e\<lparr>m_alivetime := steady_ms api (lib s)\<rparr>"
  let ?q = "set_shard ?i (executor_shards p ! ?i @ [r]) p" and ?t = "put_exec r ?e s"
  let ?q' = "?q\<lparr>shard_id_gen := shard_id_gen p + 1\<rparr>" and ?u = "put_exec r ?e (s\<lparr>lib := w\<rparr>)"
  have p: "shards_ok p" using inv by (simp add: pool_inv_def)
  have live: "h \<in> mysqls s"
    using wf_onD(2) [of "U \<union> pooled p" s r h] inv r e h by (simp add: pool_inv_def)
  have len: "?i < length (executor_shards p)" by (rule home_shard_less [OF p])
  have i: "shard_index p (shard_id_gen p) = Inr ?i"
    using shard_index_Inr [OF p] e shard by (metis home_shard_def option.sel)
  then have i': "shard_index ?q' (shard_id_gen p) = Inr ?i"
    by (auto simp: shard_index_def Let_def split: if_splits)
  have ping: "CheckAlive api r ?t = Inr (True, ?u)"
    using CheckAlive_live [of ?t r ?e h api] e h live by (simp add: put_exec_def)
  have fresh: "IsIdleTimeout api q (Some r) ?u = Inr False" if "pool_option q = pool_option p" for q
    using idle that by (simp add: IsIdleTimeout_def GetAliveTime_def)
  have restored: "set_shard ?i (executor_shards p ! ?i) ?q' = p\<lparr>shard_id_gen := shard_id_gen p + 1\<rparr>"
    by (simp add: set_shard_def)
  have "take_loop api EXECUTOR_POOL_CONN_RETRY_NUM (shard_id_gen p) None None ?q' ?t =
      Inr (Some r, Some r, None, p\<lparr>shard_id_gen := shard_id_gen p + 1\<rparr>, ?u)"
    using i' len ping fresh restored by (simp add: EXECUTOR_POOL_CONN_RETRY_NUM_def numeral_3_eq_3 Let_def)
  then have "GetExecutor api ?q ?t = Inr (r, p\<lparr>shard_id_gen := shard_id_gen p + 1\<rparr>, ?u)"
    by (simp add: GetExecutor_def GetOrCreate_def Let_def)
  moreover have "Reclaim api 0 (Some r) p s = Inr (None, ?q, ?t)" by (rule Reclaim_keep [OF p e(1) room])
  moreover have "execs ?u = (execs s)(r \<mapsto> ?e)" "mysqls ?u = mysqls s" by simp_all
  ultimately show ?thesis by blast
qed

definition demo_idle_pool :: pool where
  "demo_idle_pool = (demo_pool [] 1)\<lparr>pool_option := demo_option 60000\<rparr>"

theorem reclaim_then_get_witness:
  "\<exists>q t u. Reclaim demo_api 0 (Some 0) demo_idle_pool (demo_sys True True) = Inr (None, q, t) \<and>
    GetExecutor demo_api q t =
      Inr (0, demo_idle_pool\<lparr>shard_id_gen := shard_id_gen demo_idle_pool + 1\<rparr>, u) \<and>
    execs u = (execs (demo_sys True True))
      (0 \<mapsto> (demo_exec True)\<lparr>m_alivetime := steady_ms demo_api (lib (demo_sys True True))\<rparr>) \<and>
    mysqls u = mysqls (demo_sys True True)"
proof (rule reclaim_then_get [where U = "{0}" and h = 1 and w = "lib (demo_sys True True)"])
  show "pool_inv {0} demo_idle_pool (demo_sys True True)"
    using demo_pool_inv(2) [of 1 True True]
    by (simp add: pool_inv_def shards_ok_def demo_idle_pool_def pooled_def demo_option_def demo_pool_def)
qed (simp_all add: demo_api_def demo_idle_pool_def demo_pool_def demo_option_def shard_index_def
    demo_exec_def has_room_def home_shard_def)

text \<open>\<^verbatim>\<open>Reclaim\<close> after a failed call (a non-zero code) closes the connection and frees its handle
  and leaves every shard as it was, and the count of connections goes up: closing a
  connection adds one where it should subtract.\<close>

theorem Reclaim_failed_closes:
  assumes inv: "pool_inv U p s" and r: "r \<in> U" and c: "handle s r = Some h" "connected s r"
    and ret: "ret \<noteq> 0"
  shows "\<exists>t. Reclaim api ret (Some r) p s =
      Inr (Some r, p\<lparr>executor_num := executor_num p + 1\<rparr>, t) \<and>
    \<not> connected t r \<and> handle t r = None \<and> mysqls t = mysqls s - {h} \<and>
    (\<forall>r'. r' \<noteq> r \<longrightarrow> execs t r' = execs s r')"
proof -
  have I: "shards_ok p" "wf_on (U \<union> pooled p) s" using inv by (simp_all add: pool_inv_def)
  obtain e where e: "execs s r = Some e" using wf_onD(1) [OF I(2)] r by auto
  have live: "h \<in> mysqls s" using wf_onD(2) [OF I(2)] r c by blast
  have "Close api r s = Inr (put_exec r (e\<lparr>mysql := None, is_connected := False\<rparr>)
    (s\<lparr>lib := c_close api h (lib s), mysqls := mysqls s - {h}\<rparr>))"
    by (rule Close_eq) (use e c live in simp_all)
  then show ?thesis using Reclaim_close [OF I(1) e, of ret api] ret by simp
qed

theorem Reclaim_failed_closes_witness:
  "\<exists>t. Reclaim demo_api 1 (Some 0) (demo_pool [] 0) (demo_sys True True) =
      Inr (Some 0, (demo_pool [] 0)\<lparr>executor_num := executor_num (demo_pool [] 0) + 1\<rparr>, t) \<and>
    \<not> connected t 0 \<and> handle t 0 = None \<and> mysqls t = mysqls (demo_sys True True) - {1} \<and>
    (\<forall>r'. r' \<noteq> 0 \<longrightarrow> execs t r' = execs (demo_sys True True) r')"
  by (rule Reclaim_failed_closes [OF demo_pool_inv(2)]) simp_all

text \<open>No step of a run lowers the connection count, as long as the 32-bit counter does not wrap.\<close>

definition no_wrap :: "nat set \<times> pool \<times> 'w sys \<Rightarrow> bool" where
  "no_wrap c \<longleftrightarrow> executor_num (fst (snd c)) \<noteq> -1"

definition pool_count :: "nat set \<times> pool \<times> 'w sys \<Rightarrow> nat" where
  "pool_count c = unat (executor_num (fst (snd c)))"

lemma unat_add_one: "n \<noteq> -1 \<Longrightarrow> unat (n + 1 :: 'a::len word) = Suc (unat n)"
  by (metis add.commute eq_neg_iff_add_eq_0 unatSuc Suc_eq_plus1)

lemma take_loop_round:
  assumes "take_loop api (Suc n) sh x y p s = Inr res" and i: "shard_index p sh = Inr i"
    and ne: "executor_shards p ! i \<noteq> []"
  defines "r \<equiv> last (executor_shards p ! i)"
    and "q \<equiv> set_shard i (butlast (executor_shards p ! i)) p"
  shows "(\<exists>t. res = (Some r, Some r, y, q, t)) \<or> (\<exists>t. take_loop api n sh (Some r) (Some r) q t = Inr res)"
proof -
  have "bindE (ref_drop api x s) (\<lambda>s. bindE (CheckAlive api (r) s) (\<lambda>(alive, s).
      bindE (if alive then IsIdleTimeout api q (Some r) s else Inr True) (\<lambda>idle.
        if \<not> idle then Inr (Some r, Some r, y, q, s)
        else bindE (ref_copy (r) s) (\<lambda>s. bindE (ref_drop api y s) (\<lambda>s.
             bindE (Close api (r) s) (\<lambda>s. take_loop api n sh (Some r) (Some r) q s)))))) = Inr res"
    using assms(1) i ne unfolding r_def q_def by (simp add: Let_def)
  then show ?thesis
    by (elim bindE_InrE) (auto split: prod.splits if_splits elim!: bindE_InrE)
qed

lemma take_loop_count:
  "take_loop api n sh x y p s = Inr (f, a, b, q, t) \<Longrightarrow>
    executor_num q = executor_num p \<and> pool_option q = pool_option p \<and> executor_id_gen q = executor_id_gen p"
proof (induction n arbitrary: x y p s)
  case 0
  then show ?case by simp
next
  case (Suc n)
  from Suc.prems obtain i where i: "shard_index p sh = Inr i"
    by (auto elim: bindE_InrE)
  show ?case
  proof (cases "executor_shards p ! i = []")
    case True
    with Suc.prems i show ?thesis by simp
  next
    case False
    let ?r = "Some (last (executor_shards p ! i))"
    let ?q = "set_shard i (butlast (executor_shards p ! i)) p"
    consider u where "(f, a, b, q, t) = (?r, ?r, y, ?q, u)"
      | u where "take_loop api n sh ?r ?r ?q u = Inr (f, a, b, q, t)"
      using take_loop_round [OF Suc.prems i False] by blast
    then show ?thesis
    proof cases
      case 1
      then show ?thesis by simp
    next
      case 2
      from Suc.IH [OF 2] show ?thesis by simp
    qed
  qed
qed

lemma GetExecutor_count:
  assumes "GetExecutor api p s = Inr (r, q, t)"
  shows "(executor_num q = executor_num p \<or> executor_num q = executor_num p + 1) \<and>
    pool_option q = pool_option p"
proof -
  let ?p = "p\<lparr>shard_id_gen := shard_id_gen p + 1\<rparr>"
  obtain res where res: "take_loop api EXECUTOR_POOL_CONN_RETRY_NUM (shard_id_gen p) None None ?p s = Inr res"
    using assms by (auto simp: GetExecutor_def GetOrCreate_def Let_def elim: bindE_InrE)
  obtain f a b p' s' where r5: "res = (f, a, b, p', s')" by (cases res) blast
  have p': "executor_num p' = executor_num p" "pool_option p' = pool_option p"
    using take_loop_count [OF res [unfolded r5]] by simp_all
  show ?thesis
    using assms res p' unfolding r5
    by (cases f) (auto simp: GetExecutor_def GetOrCreate_def CreateExecutor_def Let_def
        elim!: bindE_InrE split: prod.splits if_splits)
qed

lemma Reclaim_count:
  assumes "Reclaim api ret x p s = Inr (y, q, t)"
  shows "(executor_num q = executor_num p \<or> executor_num q = executor_num p + 1) \<and>
    pool_option q = pool_option p"
  using assms by (auto simp: Reclaim_def Let_def bindE_Inr_iff split: if_splits)

lemma destroy_count:
  assumes "foldE (destroy_shard api) is (p, s) = Inr (q, t)"
  shows "executor_num q = executor_num p \<and> pool_option q = pool_option p"
  using assms by (induction "is" arbitrary: p s) (fastforce simp: destroy_shard_def bindE_Inr_iff)+

lemma pool_step_count:
  assumes "pool_step api (U, p, s) (V, q, t)"
  shows "(executor_num q = executor_num p \<or> executor_num q = executor_num p + 1) \<and>
    pool_option q = pool_option p"
  using assms
  by (cases rule: pool_step.cases)
    (auto dest!: GetExecutor_count Reclaim_count destroy_count simp: pool_Destroy_def)

interpretation pool_growth: monotone_system
  "\<lambda>c d. no_wrap c \<and> pool_step api c d" pool_count for api :: "'w mysql_api"
proof unfold_locales
  fix c d :: "nat set \<times> pool \<times> 'w sys" assume "no_wrap c \<and> pool_step api c d"
  then show "pool_count c \<le> pool_count d"
    using pool_step_count [of api "fst c" "fst (snd c)" "snd (snd c)" "fst d" "fst (snd d)" "snd (snd d)"]
    by (auto simp: no_wrap_def pool_count_def unat_add_one)
qed

interpretation pool_option_kept: invariant_system
  "\<lambda>c. pool_option (fst (snd c)) = opt" "pool_step api" "\<lambda>c. pool_option (fst (snd c)) = opt"
  for api :: "'w mysql_api" and opt
proof unfold_locales
  fix c d :: "nat set \<times> pool \<times> 'w sys"
  assume "pool_option (fst (snd c)) = opt" "pool_step api c d"
  then show "pool_option (fst (snd d)) = opt"
    using pool_step_count [of api "fst c" "fst (snd c)" "snd (snd c)" "fst d" "fst (snd d)" "snd (snd d)"]
    by simp
qed

text \<open>C37: Once the connection count of a pool is above \<^verbatim>\<open>max_size\<close> the pool never keeps a
  connection again: after any further run (short of wrapping the counter, and even if
  every executor was returned, stopped and destroyed) \<^verbatim>\<open>Reclaim\<close> of a healthy connection
  closes it and leaves the shards as they were.\<close>

theorem full_pool_never_recovers:
  assumes run: "(\<lambda>c d. no_wrap c \<and> pool_step api c d)\<^sup>*\<^sup>* (U, p, s) (V, q, t)"
    and full: "max_size (pool_option p) < executor_num p"
    and inv: "pool_inv V q t" and r: "r \<in> V"
  shows "\<exists>u. Reclaim api 0 (Some r) q t = Inr (Some r, q\<lparr>executor_num := executor_num q + 1\<rparr>, u) \<and>
    \<not> connected u r"
proof -
  have "(pool_step api)\<^sup>*\<^sup>* (U, p, s) (V, q, t)"
    using run by (rule rtranclp_mono [THEN predicate2D, rotated]) auto
  then have opt: "pool_option q = pool_option p"
    using pool_option_kept.inv_rtrancl [of api "(U, p, s)" "(V, q, t)" "pool_option p"] by simp
  have "unat (executor_num p) \<le> unat (executor_num q)"
    using pool_growth.qty_rtrancl [OF run] by (simp add: pool_count_def)
  with full opt have room: "\<not> has_room q i" for i
    by (simp add: has_room_def word_le_nat_alt word_less_nat_alt)
  have I: "shards_ok q" "wf_on (V \<union> pooled q) t" using inv by (simp_all add: pool_inv_def)
  obtain e where e: "execs t r = Some e" using wf_onD(1) [OF I(2)] r by auto
  obtain u where u: "Close api r t = Inr u" using close.op_returns [OF I(2), of r api] r by blast
  then show ?thesis using room Reclaim_close [OF I(1) e, of 0 api] Close_closes [of api r t u] by auto
qed

theorem full_pool_never_recovers_witness:
  "\<exists>u. Reclaim demo_api 0 (Some 0) (demo_pool [] 3) (demo_sys True True) =
      Inr (Some 0, (demo_pool [] 3)\<lparr>executor_num := executor_num (demo_pool [] 3) + 1\<rparr>, u) \<and>
    \<not> connected u 0"
  by (rule full_pool_never_recovers
      [OF rtranclp.rtrancl_refl [of _ "({0}, demo_pool [] 3, demo_sys True True)"] _ demo_pool_inv(2)])
    (simp_all add: demo_pool_def demo_option_def)

text \<open>\<^verbatim>\<open>Stop\<close> closes every connection of the pool; \<^verbatim>\<open>Destroy\<close> after it empties the shards and
  destroys exactly the executors of the pool, and those in use are not touched.\<close>

theorem stop_then_destroy:
  assumes "pool_inv U p s"
  shows "\<exists>t q u. pool_Stop api p s = Inr t \<and> (\<forall>r \<in> pooled p. \<not> connected t r) \<and>
    pool_Destroy api p t = Inr (q, u) \<and> pooled q = {} \<and> (\<forall>r \<in> pooled p. execs u r = None) \<and>
    (\<forall>r \<in> U. execs u r = execs s r)"
proof -
  obtain t where t: "pool_Stop api p s = Inr t" "pool_inv U p t"
    "\<forall>r. execs t r = (if r \<in> pooled p then map_option closed (execs s r) else execs s r)"
    using pool_Stop_spec [OF assms, of api] by blast
  then have c: "\<forall>r \<in> pooled p. \<not> connected t r" by (auto simp: connected_def closed_def split: option.splits)
  have "U \<inter> pooled p = {}" using assms by (simp add: pool_inv_def)
  then have "r \<in> U \<Longrightarrow> r \<notin> pooled p" for r by blast
  with t c pool_Destroy_spec [OF t(2) c, of api] show ?thesis by fastforce
qed

theorem stop_then_destroy_witness:
  "\<exists>t q u. pool_Stop demo_api (demo_pool [0] 1) (demo_sys True True) = Inr t \<and>
    pool_Destroy demo_api (demo_pool [0] 1) t = Inr (q, u) \<and> execs u 0 = None"
  using stop_then_destroy [OF demo_pool_inv(1), of demo_api 1 True True]
  by (auto simp: demo_pool_def pooled_def)

end
