(* ===== verification/Pool_Manager.thy ===== *)
theory Pool_Manager
  imports Executor_Pool "HOL-Library.AList"
begin

text \<open>
  \<^verbatim>\<open>mysql_executor_pool_manager.{h,cc}\<close>: one pool per node, under a key printed from the node's
  address. The framework's \<^verbatim>\<open>LightlyConcurrentHashMap\<close> is the parameter \<open>hashmap_api\<close>; the
  hypothesis \<open>hashmap_laws\<close> says what its documentation promises. Pools are objects in a
  store, named by their block. \<^verbatim>\<open>Get\<close> is split where another thread can run: after the
  lookup (with the creation of a pool on a miss), and at the insertion.
\<close>

section \<open>State\<close>

record 'm hashmap_api =
  hm_new :: 'm
  hm_get :: "'m \<Rightarrow> string \<Rightarrow> nat option"
  hm_get_or_insert :: "string \<Rightarrow> nat \<Rightarrow> 'm \<Rightarrow> nat option \<times> 'm"
  hm_get_all_items :: "'m \<Rightarrow> (string \<times> nat) list"
  hm_reclaim :: "'m \<Rightarrow> 'm"

text \<open>\<^verbatim>\<open>GetOrInsert\<close> finds the value already there, or inserts the new one and finds none.\<close>

definition hashmap_laws :: "'m hashmap_api \<Rightarrow> bool" where
  "hashmap_laws H \<longleftrightarrow>
     (\<forall>k v m. fst (hm_get_or_insert H k v m) = hm_get H m k) \<and>
     (\<forall>k v m k'. hm_get H (snd (hm_get_or_insert H k v m)) k' =
        (if k' = k \<and> hm_get H m k = None then Some v else hm_get H m k')) \<and>
     (\<forall>m. map_of (hm_get_all_items H m) = hm_get H m \<and> distinct (map fst (hm_get_all_items H m))) \<and>
     (\<forall>m k. hm_get H (hm_reclaim H m) k = None) \<and> (\<forall>k. hm_get H (hm_new H) k = None)"

text \<open>\<^verbatim>\<open>class MysqlExecutorPoolManager\<close>, and the program around it: the pools that exist and
  the executors.\<close>

record ('m, 'w) manager =
  executor_pools :: 'm
  pools_to_destroy :: "(string \<times> nat) list"
  mgr_option :: MysqlExecutorPoolOption
  pools :: "nat \<rightharpoonup> pool"
  msys :: "'w sys"

section \<open>Operations\<close>

text \<open>The key: at most 63 characters of \<^verbatim>\<open>ip:port\<close>, filled up to 64 with NUL.\<close>

definition endpoint_key :: "NodeAddr \<Rightarrow> string" where
  "endpoint_key a =
     (let len = 64; endpoint = replicate len nul in
      case c_printf ''%s:%d'' [StrArg (c_str (na_ip a)), IntArg (ucast (na_port a))] of
        None \<Rightarrow> endpoint
      | Some out \<Rightarrow> snprintf_into endpoint len out)"

definition get_pool :: "nat \<Rightarrow> ('m, 'w) manager \<Rightarrow> pool result" where
  "get_pool q st = (case pools st q of None \<Rightarrow> Inl Use_after_free | Some p \<Rightarrow> Inr p)"

definition CreateExecutorPool ::
  "NodeAddr \<Rightarrow> ('m, 'w) manager \<Rightarrow> (nat \<times> ('m, 'w) manager) result" where
  "CreateExecutorPool a st =
     bindE (pool_new (mgr_option st) a) (\<lambda>p.
       let n = next_block (msys st)
       in Inr (n, st\<lparr>pools := (pools st)(n \<mapsto> p), msys := (msys st)\<lparr>next_block := Suc n\<rparr>\<rparr>))"

text \<open>\<^verbatim>\<open>delete pool\<close> destroys its lists, which drop their references.\<close>

definition delete_pool :: "'w mysql_api \<Rightarrow> nat \<Rightarrow> ('m, 'w) manager \<Rightarrow> ('m, 'w) manager result" where
  "delete_pool api q st =
     bindE (get_pool q st) (\<lambda>p.
     bindE (foldE (\<lambda>r. ref_drop api (Some r)) (concat (executor_shards p)) (msys st)) (\<lambda>s.
       Inr (st\<lparr>pools := (pools st)(q := None), msys := s\<rparr>)))"

definition Get_lookup ::
  "'m hashmap_api \<Rightarrow> NodeAddr \<Rightarrow> ('m, 'w) manager \<Rightarrow> ((nat + nat) \<times> ('m, 'w) manager) result" where
  "Get_lookup H a st =
     (case hm_get H (executor_pools st) (endpoint_key a) of
        Some q \<Rightarrow> Inr (Inl q, st)
      | None \<Rightarrow> bindE (CreateExecutorPool a st) (\<lambda>(n, st). Inr (Inr n, st)))"

definition Get_insert ::
  "'w mysql_api \<Rightarrow> 'm hashmap_api \<Rightarrow> NodeAddr \<Rightarrow> nat \<Rightarrow> ('m, 'w) manager \<Rightarrow>
   (nat \<times> ('m, 'w) manager) result" where
  "Get_insert api H a n st =
     (let (found, m) = hm_get_or_insert H (endpoint_key a) n (executor_pools st);
          st = st\<lparr>executor_pools := m\<rparr>
      in case found of
           None \<Rightarrow> Inr (n, st)
         | Some q \<Rightarrow> bindE (delete_pool api n st) (\<lambda>st. Inr (q, st)))"

definition mgr_Get ::
  "'w mysql_api \<Rightarrow> 'm hashmap_api \<Rightarrow> NodeAddr \<Rightarrow> ('m, 'w) manager \<Rightarrow> (nat \<times> ('m, 'w) manager) result" where
  "mgr_Get api H a st =
     bindE (Get_lookup H a st) (\<lambda>(res, st).
       case res of Inl q \<Rightarrow> Inr (q, st) | Inr n \<Rightarrow> Get_insert api H a n st)"

definition stop_one :: "'w mysql_api \<Rightarrow> nat \<Rightarrow> ('m, 'w) manager \<Rightarrow> ('m, 'w) manager result" where
  "stop_one api q st =
     bindE (get_pool q st) (\<lambda>p. bindE (pool_Stop api p (msys st)) (\<lambda>s. Inr (st\<lparr>msys := s\<rparr>)))"

definition mgr_Stop ::
  "'w mysql_api \<Rightarrow> 'm hashmap_api \<Rightarrow> ('m, 'w) manager \<Rightarrow> ('m, 'w) manager result" where
  "mgr_Stop api H st =
     (let st = st\<lparr>pools_to_destroy := hm_get_all_items H (executor_pools st)\<rparr>
      in foldE (stop_one api) (map snd (pools_to_destroy st)) st)"

definition destroy_one :: "'w mysql_api \<Rightarrow> nat \<Rightarrow> ('m, 'w) manager \<Rightarrow> ('m, 'w) manager result" where
  "destroy_one api q st =
     bindE (get_pool q st) (\<lambda>p.
     bindE (pool_Destroy api p (msys st)) (\<lambda>(p, s).
       delete_pool api q (st\<lparr>pools := (pools st)(q \<mapsto> p), msys := s\<rparr>)))"

definition mgr_Destroy ::
  "'w mysql_api \<Rightarrow> 'm hashmap_api \<Rightarrow> ('m, 'w) manager \<Rightarrow> ('m, 'w) manager result" where
  "mgr_Destroy api H st =
     bindE (foldE (destroy_one api) (map snd (pools_to_destroy st)) st) (\<lambda>st.
       Inr (st\<lparr>executor_pools := hm_reclaim H (executor_pools st), pools_to_destroy := []\<rparr>))"

section \<open>Keys\<close>

definition endpoint_text :: "NodeAddr \<Rightarrow> string" where
  "endpoint_text a = c_str (na_ip a) @ '':'' @ dec_digits (unat (na_port a))"

lemma sint_port: "sint (ucast (n :: u16) :: u32) = int (unat n)"
proof -
  have "- (2 ^ 31) \<le> uint n" by (rule order_trans [OF _ uint_ge_0]) simp
  moreover have "uint n < 2 ^ 31" using uint_lt2p [of n] by simp
  ultimately have "signed_take_bit 31 (uint n) = uint n" by (rule signed_take_bit_int_eq_self)
  then show ?thesis by (simp add: sint_uint uint_up_ucast is_up)
qed

lemma snprintf_nul:
  assumes "0 < n"
  shows "snprintf_into (replicate n nul) n out =
    (let t = take (n - 1) out in t @ replicate (n - length t) nul)"
proof -
  have "n - length t = Suc (n - Suc (length t))" if "t = take (n - 1) out" for t
    using that assms by simp
  then show ?thesis using assms by (simp add: snprintf_into_def Let_def)
qed

lemma endpoint_key_eq:
  "endpoint_key a = (let t = take 63 (endpoint_text a) in t @ replicate (64 - length t) nul)"
proof -
  have "c_printf ''%s:%d'' [StrArg x, IntArg (ucast (n :: u16))] =
      Some (x @ '':'' @ dec_digits (unat n))" for x n
    by (simp add: c_printf.simps [of "CHR ''%'' # xs" for xs] Let_def dec_val_def is_digit_def
        fmt_int_def sint_port)
  then show ?thesis
    using snprintf_nul [of 64] by (simp add: endpoint_key_def endpoint_text_def Let_def)
qed

lemma digits_not:
  "c \<in> set (dec_digits n) \<Longrightarrow> c \<noteq> CHR '':'' \<and> c \<noteq> nul"
  using dec_digits_all [of n] by (auto simp: is_digit_def nul_def)

lemma first_mark_inject:
  assumes "xs @ c # us = ys @ c # vs" and "c \<notin> set xs" and "c \<notin> set ys"
  shows "xs = ys \<and> us = vs"
proof -
  have "takeWhile (\<lambda>x. x \<noteq> c) (xs @ c # us) = xs" "takeWhile (\<lambda>x. x \<noteq> c) (ys @ c # vs) = ys"
    using assms(2,3) by (subst takeWhile_append2; auto)+
  with assms(1) have "xs = ys" by metis
  with assms(1) show ?thesis by simp
qed

lemma endpoint_text_inject:
  assumes "endpoint_text a = endpoint_text b"
  shows "c_str (na_ip a) = c_str (na_ip b) \<and> na_port a = na_port b"
proof -
  let ?da = "dec_digits (unat (na_port a))" and ?db = "dec_digits (unat (na_port b))"
  have eq: "rev ?da @ CHR '':'' # rev (c_str (na_ip a)) = rev ?db @ CHR '':'' # rev (c_str (na_ip b))"
    using arg_cong [OF assms, of rev] by (simp add: endpoint_text_def)
  have "CHR '':'' \<notin> set (rev ?da)" "CHR '':'' \<notin> set (rev ?db)" using digits_not by auto
  with eq have "rev ?da = rev ?db \<and> rev (c_str (na_ip a)) = rev (c_str (na_ip b))"
    using first_mark_inject by metis
  then show ?thesis by (simp add: dec_digits_inject word_unat_eq_iff)
qed

lemma endpoint_text_no_nul: "nul \<notin> set (endpoint_text a)"
proof -
  have "nul \<notin> set (c_str x)" for x by (auto simp: c_str_def dest: set_takeWhileD)
  moreover have "CHR '':'' \<noteq> nul" by (simp add: nul_def char_of_def)
  ultimately show ?thesis using digits_not by (auto simp: endpoint_text_def)
qed

lemma padded_nul_inject:
  assumes "s @ replicate m nul = t @ replicate n nul" and "nul \<notin> set s" and "nul \<notin> set t"
  shows "s = t"
proof -
  have "takeWhile (\<lambda>c. c \<noteq> nul) (s @ replicate m nul) = s"
    "takeWhile (\<lambda>c. c \<noteq> nul) (t @ replicate n nul) = t"
    using assms(2,3) by (subst takeWhile_append2; auto)+
  with assms(1) show ?thesis by metis
qed

lemma endpoint_key_inject:
  assumes eq: "endpoint_key a = endpoint_key b" and short: "length (endpoint_text a) < 63"
  shows "c_str (na_ip a) = c_str (na_ip b) \<and> na_port a = na_port b"
proof (rule endpoint_text_inject)
  let ?t = "\<lambda>a. take 63 (endpoint_text a)"
  have no: "nul \<notin> set (?t a)" for a using endpoint_text_no_nul [of a] by (meson in_set_takeD)
  have "?t a @ replicate (64 - length (?t a)) nul = ?t b @ replicate (64 - length (?t b)) nul"
    using eq unfolding endpoint_key_eq Let_def .
  then have t: "?t a = ?t b" by (rule padded_nul_inject) (rule no)+
  then have "length (?t b) < 63" using short by (metis length_take min.strict_coboundedI1)
  then show "endpoint_text a = endpoint_text b" using t short by simp
qed

section \<open>Threads asking for pools\<close>

text \<open>
  Where a thread is in \<^verbatim>\<open>Get\<close>: outside it, between a miss (with the pool it created) and
  the insertion, or done with the pool it got. The threads run in any order, and pools in
  use change (\<open>get_use\<close>), but never their target and options.
\<close>

datatype thread = Idle | Missed NodeAddr nat | Got NodeAddr nat

inductive get_step ::
  "'w mysql_api \<Rightarrow> 'm hashmap_api \<Rightarrow> (nat \<Rightarrow> thread) \<times> ('m, 'w) manager \<Rightarrow>
   (nat \<Rightarrow> thread) \<times> ('m, 'w) manager \<Rightarrow> bool"
  for api :: "'w mysql_api" and H :: "'m hashmap_api" where
  get_hit: "T i = Idle \<Longrightarrow> Get_lookup H a st = Inr (Inl q, st') \<Longrightarrow>
    get_step api H (T, st) (T(i := Got a q), st')"
| get_miss: "T i = Idle \<Longrightarrow> Get_lookup H a st = Inr (Inr n, st') \<Longrightarrow>
    get_step api H (T, st) (T(i := Missed a n), st')"
| get_insert: "T i = Missed a n \<Longrightarrow> Get_insert api H a n st = Inr (q, st') \<Longrightarrow>
    get_step api H (T, st) (T(i := Got a q), st')"
| get_again: "T i = Got a q \<Longrightarrow> get_step api H (T, st) (T(i := Idle), st)"
| get_use: "T i = Got a q \<Longrightarrow> pools st q = Some p \<Longrightarrow> target p' = target p \<Longrightarrow>
    get_step api H (T, st) (T, st\<lparr>pools := (pools st)(q \<mapsto> p')\<rparr>)"

definition map_of_mgr :: "'m hashmap_api \<Rightarrow> ('m, 'w) manager \<Rightarrow> string \<rightharpoonup> nat" where
  "map_of_mgr H st = hm_get H (executor_pools st)"

definition pending :: "(nat \<Rightarrow> thread) \<Rightarrow> nat \<rightharpoonup> NodeAddr \<times> nat" where
  "pending T i = (case T i of Missed a n \<Rightarrow> Some (a, n) | _ \<Rightarrow> None)"

text \<open>The map \<open>m\<close>, the pools \<open>P\<close>, the pools \<open>M\<close> not yet inserted, the next block \<open>nb\<close>.\<close>

definition core_inv ::
  "(string \<rightharpoonup> nat) \<Rightarrow> (nat \<rightharpoonup> pool) \<Rightarrow> (nat \<rightharpoonup> NodeAddr \<times> nat) \<Rightarrow> nat \<Rightarrow> bool" where
  "core_inv m P M nb \<longleftrightarrow>
     (\<forall>k q. m k = Some q \<longrightarrow> (\<exists>p. P q = Some p \<and> endpoint_key (target p) = k)) \<and>
     (\<forall>i a n. M i = Some (a, n) \<longrightarrow>
        n \<notin> ran m \<and> (\<exists>p. P n = Some p \<and> target p = a \<and> concat (executor_shards p) = [])) \<and>
     (\<forall>i j a b n. M i = Some (a, n) \<longrightarrow> M j = Some (b, n) \<longrightarrow> i = j) \<and>
     (\<forall>q p. P q = Some p \<longrightarrow> q < nb \<and> (q \<in> ran m \<or> (\<exists>i a. M i = Some (a, q))))"

definition threads_inv :: "'m hashmap_api \<Rightarrow> (nat \<Rightarrow> thread) \<times> ('m, 'w) manager \<Rightarrow> bool" where
  "threads_inv H c = (case c of (T, st) \<Rightarrow>
     core_inv (map_of_mgr H st) (pools st) (pending T) (next_block (msys st)) \<and>
     (\<forall>i a q. T i = Got a q \<longrightarrow> map_of_mgr H st (endpoint_key a) = Some q))"

lemma pending_update:
  "pending (T(i := Got a q)) = (pending T)(i := None)" "pending (T(i := Idle)) = (pending T)(i := None)"
  "pending (T(i := Missed a n)) = (pending T)(i \<mapsto> (a, n))"
  "T i = Idle \<Longrightarrow> pending T i = None" "T i = Got a q \<Longrightarrow> pending T i = None"
  "T i = Missed a n \<Longrightarrow> pending T i = Some (a, n)"
  by (auto simp: pending_def fun_eq_iff)

lemma core_invD:
  assumes "core_inv m P M nb"
  shows "m k = Some q \<Longrightarrow> \<exists>p. P q = Some p \<and> endpoint_key (target p) = k"
    and "M i = Some (a, n) \<Longrightarrow>
      n \<notin> ran m \<and> (\<exists>p. P n = Some p \<and> target p = a \<and> concat (executor_shards p) = [])"
    and "M i = Some (a, n) \<Longrightarrow> M j = Some (b, n) \<Longrightarrow> i = j"
    and "P q = Some p \<Longrightarrow> q < nb \<and> (q \<in> ran m \<or> (\<exists>i a. M i = Some (a, q)))"
  using assms unfolding core_inv_def by (blast | fast)+

lemma core_miss:
  assumes C: "core_inv m P M nb" and i: "M i = None" and p: "target p = a" "concat (executor_shards p) = []"
  shows "core_inv m (P(nb \<mapsto> p)) (M(i \<mapsto> (a, nb))) (Suc nb)"
proof -
  note D = core_invD [OF C]
  have new: "P nb = None" using D(4) [of nb] by fastforce
  then have "m k \<noteq> Some nb" for k using D(1) [of k nb] by auto
  then have r: "nb \<notin> ran m" by (simp add: ran_def)
  have M: "M j \<noteq> Some (b, nb)" for j b using D(2) [of j b nb] new by auto
  show ?thesis
    unfolding core_inv_def
  proof (intro conjI allI impI)
    show "\<exists>p'. (P(nb \<mapsto> p)) q = Some p' \<and> endpoint_key (target p') = k" if "m k = Some q" for k q
      using D(1) [OF that] new by (cases "q = nb") auto
    show "n \<notin> ran m" if "(M(i \<mapsto> (a, nb))) j = Some (b, n)" for j b n
      using that D(2) [of j b n] r by (auto split: if_splits)
    show "\<exists>p'. (P(nb \<mapsto> p)) n = Some p' \<and> target p' = b \<and> concat (executor_shards p') = []"
      if "(M(i \<mapsto> (a, nb))) j = Some (b, n)" for j b n
      using that D(2) [of j b n] p new by (cases "j = i"; cases "n = nb") auto
    show "j = k" if "(M(i \<mapsto> (a, nb))) j = Some (b, n)" "(M(i \<mapsto> (a, nb))) k = Some (c, n)" for j k b c n
      using that D(3) [of j b n k c] M by (auto split: if_splits)
    fix q p' assume q: "(P(nb \<mapsto> p)) q = Some p'"
    show "q < Suc nb" using q D(4) [of q p'] by (auto split: if_splits)
    show "q \<in> ran m \<or> (\<exists>j b. (M(i \<mapsto> (a, nb))) j = Some (b, q))"
    proof (cases "q = nb")
      case False
      then have "q \<in> ran m \<or> (\<exists>j b. M j = Some (b, q))" using q D(4) [of q p'] by simp
      then show ?thesis using i by (metis fun_upd_apply option.distinct(1))
    qed auto
  qed
qed

lemma core_win:
  assumes C: "core_inv m P M nb" and i: "M i = Some (a, n)" and k: "m (endpoint_key a) = None"
  shows "core_inv (m(endpoint_key a \<mapsto> n)) P (M(i := None)) nb"
proof -
  note D = core_invD [OF C]
  have ran: "ran (m(endpoint_key a \<mapsto> n)) = insert n (ran m)" using k by simp
  show ?thesis
    unfolding core_inv_def ran
  proof (intro conjI allI impI)
    show "\<exists>p. P q = Some p \<and> endpoint_key (target p) = l"
      if "(m(endpoint_key a \<mapsto> n)) l = Some q" for l q
      using that D(1) [of l q] D(2) [OF i] by (auto split: if_splits)
    show "l \<notin> insert n (ran m)" if "(M(i := None)) j = Some (b, l)" for j b l
      using that D(2) [of j b l] D(3) [OF i, of j b] by (auto split: if_splits)
    show "\<exists>p. P l = Some p \<and> target p = b \<and> concat (executor_shards p) = []"
      if "(M(i := None)) j = Some (b, l)" for j b l
      using that D(2) [of j b l] by (auto split: if_splits)
    show "j = k" if "(M(i := None)) j = Some (b, l)" "(M(i := None)) k = Some (c, l)" for j k b c l
      using that D(3) [of j b l k c] by (auto split: if_splits)
    show "q < nb" if "P q = Some p" for q p using D(4) [OF that] by simp
    show "q \<in> insert n (ran m) \<or> (\<exists>j b. (M(i := None)) j = Some (b, q))" if "P q = Some p" for q p
      using D(4) [OF that] i by (metis fun_upd_apply insertCI insertI1 option.inject prod.inject)
  qed
qed

lemma core_lose:
  assumes C: "core_inv m P M nb" and i: "M i = Some (a, n)"
  shows "core_inv m (P(n := None)) (M(i := None)) nb"
proof -
  note D = core_invD [OF C]
  have n: "m k \<noteq> Some n" for k using D(2) [OF i] by (auto simp: ran_def)
  show ?thesis
    unfolding core_inv_def
  proof (intro conjI allI impI)
    show "\<exists>p. (P(n := None)) q = Some p \<and> endpoint_key (target p) = l" if "m l = Some q" for l q
      using that D(1) [of l q] n [of l] by auto
    show "l \<notin> ran m" if "(M(i := None)) j = Some (b, l)" for j b l
      using that D(2) [of j b l] by (auto split: if_splits)
    show "\<exists>p. (P(n := None)) l = Some p \<and> target p = b \<and> concat (executor_shards p) = []"
      if "(M(i := None)) j = Some (b, l)" for j b l
      using that D(2) [of j b l] D(3) [OF i, of j b] by (auto split: if_splits)
    show "j = k" if "(M(i := None)) j = Some (b, l)" "(M(i := None)) k = Some (c, l)" for j k b c l
      using that D(3) [of j b l k c] by (auto split: if_splits)
    fix q p assume "(P(n := None)) q = Some p"
    then have q: "P q = Some p" "q \<noteq> n" by (auto split: if_splits)
    show "q < nb" using D(4) [OF q(1)] by simp
    show "q \<in> ran m \<or> (\<exists>j b. (M(i := None)) j = Some (b, q))"
      using D(4) [OF q(1)] i q(2) by (metis fun_upd_apply option.inject prod.inject)
  qed
qed

lemma core_use:
  assumes C: "core_inv m P M nb" and q: "P q = Some p" "target p' = target p" "m k = Some q"
  shows "core_inv m (P(q \<mapsto> p')) M nb"
proof -
  note D = core_invD [OF C]
  have M: "M i \<noteq> Some (a, q)" for i a using D(2) [of i a q] q(3) by (auto simp: ran_def)
  show ?thesis
    unfolding core_inv_def
  proof (intro conjI allI impI)
    show "\<exists>p''. (P(q \<mapsto> p')) r = Some p'' \<and> endpoint_key (target p'') = l" if "m l = Some r" for l r
      using D(1) [OF that] q by auto
    show "l \<notin> ran m" if "M j = Some (b, l)" for j b l using D(2) [OF that] by simp
    show "\<exists>p''. (P(q \<mapsto> p')) l = Some p'' \<and> target p'' = b \<and> concat (executor_shards p'') = []"
      if "M j = Some (b, l)" for j b l
      using D(2) [OF that] M that by auto
    show "j = k" if "M j = Some (b, l)" "M k = Some (c, l)" for j k b c l using D(3) that by blast
    fix r p'' assume "(P(q \<mapsto> p')) r = Some p''"
    then have "r = q \<or> P r = Some p''" by (auto split: if_splits)
    then show "r < nb" "r \<in> ran m \<or> (\<exists>j b. M j = Some (b, r))" using D(4) q(1) by auto
  qed
qed

lemma hashmap_get_or_insert:
  assumes "hashmap_laws H" and "hm_get_or_insert H k v m = (found, m')"
  shows "found = hm_get H m k"
    and "hm_get H m' = (if hm_get H m k = None then (hm_get H m)(k \<mapsto> v) else hm_get H m)"
proof -
  have "fst (hm_get_or_insert H k v m) = hm_get H m k"
    "hm_get H (snd (hm_get_or_insert H k v m)) k' =
      (if k' = k \<and> hm_get H m k = None then Some v else hm_get H m k')" for k'
    using assms(1) by (simp_all add: hashmap_laws_def)
  with assms(2) show "found = hm_get H m k"
    and "hm_get H m' = (if hm_get H m k = None then (hm_get H m)(k \<mapsto> v) else hm_get H m)"
    by (auto simp: fun_eq_iff)
qed

text \<open>The two halves of \<^verbatim>\<open>Get\<close>.\<close>

lemma Get_lookup_cases:
  assumes "Get_lookup H a st = Inr (res, st')"
  obtains (hit) q where "map_of_mgr H st (endpoint_key a) = Some q" "res = Inl q" "st' = st"
  | (miss) p n where "map_of_mgr H st (endpoint_key a) = None" "res = Inr n"
      "pool_new (mgr_option st) a = Inr p" "n = next_block (msys st)"
      "st' = st\<lparr>pools := (pools st)(n \<mapsto> p), msys := (msys st)\<lparr>next_block := Suc n\<rparr>\<rparr>"
  using assms
  by (auto simp: Get_lookup_def CreateExecutorPool_def map_of_mgr_def bindE_Inr_iff Let_def
      split: option.splits)

lemma Get_insert_eq:
  assumes H: "hashmap_laws H" and p: "pools st n = Some p" "concat (executor_shards p) = []"
  obtains st' where
    "Get_insert api H a n st =
      Inr (case map_of_mgr H st (endpoint_key a) of None \<Rightarrow> n | Some q \<Rightarrow> q, st')"
    and "map_of_mgr H st' = (if map_of_mgr H st (endpoint_key a) = None
           then (map_of_mgr H st)(endpoint_key a \<mapsto> n) else map_of_mgr H st)"
    and "pools st' = (if map_of_mgr H st (endpoint_key a) = None
           then pools st else (pools st)(n := None))"
    and "msys st' = msys st"
proof -
  obtain found m where m: "hm_get_or_insert H (endpoint_key a) n (executor_pools st) = (found, m)"
    by fastforce
  note G = hashmap_get_or_insert [OF H m]
  show thesis
  proof (cases "map_of_mgr H st (endpoint_key a)")
    case None
    then have "found = None" using G by (simp add: map_of_mgr_def)
    with that [of "st\<lparr>executor_pools := m\<rparr>"] m G(2) None show thesis
      by (simp add: Get_insert_def map_of_mgr_def)
  next
    case (Some q)
    then have "found = Some q" using G by (simp add: map_of_mgr_def)
    with that [of "st\<lparr>executor_pools := m, pools := (pools st)(n := None)\<rparr>"] m G(2) p Some show thesis
      by (simp add: Get_insert_def map_of_mgr_def delete_pool_def get_pool_def Let_def)
  qed
qed

lemma get_step_inv:
  assumes H: "hashmap_laws H" and inv: "threads_inv H (T, st)"
    and st: "get_step api H (T, st) (T', st')"
  shows "threads_inv H (T', st')"
proof -
  have C: "core_inv (map_of_mgr H st) (pools st) (pending T) (next_block (msys st))"
    and G: "\<And>i a q. T i = Got a q \<Longrightarrow> map_of_mgr H st (endpoint_key a) = Some q"
    using inv by (simp_all add: threads_inv_def)
  from st show ?thesis
  proof (cases rule: get_step.cases)
    case (get_hit i a q)
    from get_hit(3) have "map_of_mgr H st (endpoint_key a) = Some q \<and> st' = st"
      by (cases rule: Get_lookup_cases) auto
    with get_hit C G show ?thesis by (auto simp: threads_inv_def pending_update fun_upd_idem)
  next
    case (get_miss i a n)
    from get_miss(3) obtain p where p: "pool_new (mgr_option st) a = Inr p"
      "n = next_block (msys st)"
      "st' = st\<lparr>pools := (pools st)(n \<mapsto> p), msys := (msys st)\<lparr>next_block := Suc n\<rparr>\<rparr>"
      by (cases rule: Get_lookup_cases) auto
    then have "target p = a" "concat (executor_shards p) = []"
      by (auto simp: pool_new_def split: if_splits)
    from core_miss [OF C _ this, of i] get_miss p G show ?thesis
      by (auto simp: threads_inv_def pending_update map_of_mgr_def)
  next
    case (get_insert i a n q)
    have i: "pending T i = Some (a, n)" using get_insert(2) by (simp add: pending_update)
    obtain p where p: "pools st n = Some p" "concat (executor_shards p) = []"
      using core_invD(2) [OF C i] by blast
    obtain u where u: "Get_insert api H a n st =
        Inr (case map_of_mgr H st (endpoint_key a) of None \<Rightarrow> n | Some q \<Rightarrow> q, u)"
      "map_of_mgr H u = (if map_of_mgr H st (endpoint_key a) = None
           then (map_of_mgr H st)(endpoint_key a \<mapsto> n) else map_of_mgr H st)"
      "pools u = (if map_of_mgr H st (endpoint_key a) = None then pools st else (pools st)(n := None))"
      "msys u = msys st"
      by (rule Get_insert_eq [OF H p]) blast
    show ?thesis
    proof (cases "map_of_mgr H st (endpoint_key a)")
      case None
      with get_insert u core_win [OF C i] G show ?thesis
        by (auto simp: threads_inv_def pending_update dest: G)
    next
      case (Some q')
      with get_insert u core_lose [OF C i] G show ?thesis
        by (auto simp: threads_inv_def pending_update)
    qed
  next
    case (get_again i a q)
    with C G show ?thesis by (auto simp: threads_inv_def pending_update fun_upd_idem)
  next
    case (get_use i a q p p')
    with core_use [OF C get_use(4,5)] G show ?thesis by (auto simp: threads_inv_def map_of_mgr_def)
  qed
qed

text \<open>At the start no thread is in \<^verbatim>\<open>Get\<close>, and map and store have no pools.\<close>

definition threads_start :: "'m hashmap_api \<Rightarrow> (nat \<Rightarrow> thread) \<times> ('m, 'w) manager \<Rightarrow> bool" where
  "threads_start H c = (case c of (T, st) \<Rightarrow>
     (\<forall>i. T i = Idle) \<and> map_of_mgr H st = Map.empty \<and> pools st = Map.empty)"

interpretation gets: invariant_system "threads_start H"
  "\<lambda>c d. hashmap_laws H \<and> get_step api H c d" "threads_inv H" for api H
proof unfold_locales
  fix c d :: "(nat \<Rightarrow> thread) \<times> ('a, 'b) manager"
  show "threads_start H c \<Longrightarrow> threads_inv H c"
    by (auto simp: threads_start_def threads_inv_def core_inv_def pending_def)
  show "threads_inv H c \<Longrightarrow> hashmap_laws H \<and> get_step api H c d \<Longrightarrow> threads_inv H d"
    by (cases c; cases d) (auto intro: get_step_inv)
qed

section \<open>Properties of \<open>Get\<close>\<close>

text \<open>A map and a manager to run the model on.\<close>

definition demo_map :: "(string \<times> nat) list hashmap_api" where
  "demo_map = \<lparr>hm_new = [], hm_get = map_of,
     hm_get_or_insert = (\<lambda>k v m. (map_of m k, if map_of m k = None then (k, v) # m else m)),
     hm_get_all_items = AList.clearjunk, hm_reclaim = (\<lambda>m. [])\<rparr>"

lemma demo_map_laws: "hashmap_laws demo_map"
  by (auto simp: hashmap_laws_def demo_map_def map_of_clearjunk distinct_clearjunk)

definition demo_manager :: "(string \<times> nat) list \<Rightarrow> (nat \<rightharpoonup> pool) \<Rightarrow> nat \<Rightarrow>
    ((string \<times> nat) list, demo_world) manager" where
  "demo_manager m P nb = \<lparr>executor_pools = m, pools_to_destroy = [], mgr_option = demo_option 0,
     pools = P, msys = (demo_sys True False)\<lparr>next_block := nb\<rparr>\<rparr>"

definition demo_addr :: NodeAddr where
  "demo_addr = \<lparr>na_ip = ''h'', na_port = 3306\<rparr>"

lemma demo_got:
  "reach (threads_start demo_map) (\<lambda>c d. hashmap_laws demo_map \<and> get_step demo_api demo_map c d)
    ((\<lambda>_. Idle)(0 := Got demo_addr 2),
     demo_manager [(endpoint_key demo_addr, 2)] [2 \<mapsto> demo_pool [] 0] 3)"
proof -
  let ?R = "reach (threads_start demo_map)
    (\<lambda>c d. hashmap_laws demo_map \<and> get_step demo_api demo_map c d)"
  let ?T = "\<lambda>_. Idle" and ?s0 = "demo_manager [] Map.empty 2"
    and ?s1 = "demo_manager [] [2 \<mapsto> demo_pool [] 0] 3"
  have "?R (?T, ?s0)"
    by (rule reach_start) (simp add: threads_start_def map_of_mgr_def demo_map_def demo_manager_def)
  moreover have "Get_lookup demo_map demo_addr ?s0 = Inr (Inr 2, ?s1)"
    by (simp add: Get_lookup_def demo_map_def demo_manager_def CreateExecutorPool_def pool_new_def
        demo_option_def demo_pool_def demo_addr_def)
  then have "get_step demo_api demo_map (?T, ?s0) (?T(0 := Missed demo_addr 2), ?s1)"
    by (intro get_miss) simp_all
  ultimately have "?R (?T(0 := Missed demo_addr 2), ?s1)" using demo_map_laws by (blast intro: reach_step)
  moreover have "Get_insert demo_api demo_map demo_addr 2 ?s1 =
      Inr (2, demo_manager [(endpoint_key demo_addr, 2)] [2 \<mapsto> demo_pool [] 0] 3)"
    by (simp add: Get_insert_def demo_map_def demo_manager_def)
  then have "get_step demo_api demo_map (?T(0 := Missed demo_addr 2), ?s1)
      (?T(0 := Missed demo_addr 2, 0 := Got demo_addr 2),
       demo_manager [(endpoint_key demo_addr, 2)] [2 \<mapsto> demo_pool [] 0] 3)"
    by (intro get_insert) simp_all
  ultimately show ?thesis using demo_map_laws by (auto intro: reach_step)
qed

text \<open>C8: Threads that ask for a pool at the same time, in any interleaving of their lookups,
  creations and insertions, get the same pool for the same key; the pool is live and its
  target has that key; no two threads' pending pools are one, and every pool that exists
  is in the map or still pending, so the loser of a race leaks none.\<close>

theorem threads_get_one_pool:
  assumes "reach (threads_start H) (\<lambda>c d. hashmap_laws H \<and> get_step api H c d) (T, st)"
    and "T i = Got a q"
  shows "(\<exists>p. pools st q = Some p \<and> endpoint_key (target p) = endpoint_key a) \<and>
    (\<forall>j b q'. T j = Got b q' \<and> endpoint_key b = endpoint_key a \<longrightarrow> q' = q) \<and>
    (\<forall>q' p. pools st q' = Some p \<longrightarrow>
       map_of_mgr H st (endpoint_key (target p)) = Some q' \<or> (\<exists>j b. T j = Missed b q'))"
proof -
  have inv: "threads_inv H (T, st)" by (rule gets.inv_reach [OF assms(1)])
  then have C: "core_inv (map_of_mgr H st) (pools st) (pending T) (next_block (msys st))"
    and G: "T i = Got a q \<Longrightarrow> map_of_mgr H st (endpoint_key a) = Some q" for i a q
    by (simp_all add: threads_inv_def)
  note D = core_invD [OF C]
  have "map_of_mgr H st (endpoint_key (target p)) = Some q' \<or> (\<exists>j b. T j = Missed b q')"
    if p: "pools st q' = Some p" for q' p
  proof -
    consider k where "map_of_mgr H st k = Some q'" | j b where "pending T j = Some (b, q')"
      using D(4) [OF p] by (auto simp: ran_def)
    then show ?thesis
    proof cases
      case 1
      with D(1) [OF 1] p show ?thesis by auto
    next
      case 2
      then show ?thesis by (auto simp: pending_def split: thread.splits)
    qed
  qed
  moreover have "q' = q" if "T j = Got b q'" "endpoint_key b = endpoint_key a" for j b q'
    using G [OF that(1)] G [OF assms(2)] that(2) by simp
  ultimately show ?thesis using D(1) [OF G [OF assms(2)]] by blast
qed

theorem threads_get_one_pool_witness:
  "\<exists>p. pools (demo_manager [(endpoint_key demo_addr, 2)] [2 \<mapsto> demo_pool [] 0] 3) 2 = Some p \<and>
    endpoint_key (target p) = endpoint_key demo_addr"
  using threads_get_one_pool [OF demo_got, of 0 demo_addr 2] by simp

text \<open>The pool \<^verbatim>\<open>Get\<close> returns is a pool to the node that was asked for, when the printed
  address is shorter than 63 characters.\<close>

theorem Get_returns_the_nodes_pool:
  assumes "reach (threads_start H) (\<lambda>c d. hashmap_laws H \<and> get_step api H c d) (T, st)"
    and "T i = Got a q" and "length (endpoint_text a) < 63"
  shows "\<exists>p. pools st q = Some p \<and> c_str (na_ip (target p)) = c_str (na_ip a) \<and>
    na_port (target p) = na_port a"
proof -
  have "threads_inv H (T, st)" by (rule gets.inv_reach [OF assms(1)])
  then have "core_inv (map_of_mgr H st) (pools st) (pending T) (next_block (msys st))"
    and "map_of_mgr H st (endpoint_key a) = Some q" using assms(2) by (simp_all add: threads_inv_def)
  then obtain p where "pools st q = Some p" "endpoint_key a = endpoint_key (target p)"
    using core_invD(1) by metis
  with assms(3) endpoint_key_inject show ?thesis by metis
qed

theorem Get_returns_the_nodes_pool_witness:
  "\<exists>p. pools (demo_manager [(endpoint_key demo_addr, 2)] [2 \<mapsto> demo_pool [] 0] 3) 2 = Some p \<and>
    c_str (na_ip (target p)) = c_str (na_ip demo_addr) \<and> na_port (target p) = na_port demo_addr"
  by (rule Get_returns_the_nodes_pool [OF demo_got])
    (simp_all add: endpoint_text_def demo_addr_def c_str_def nul_def dec_digits.simps)

text \<open>What \<^verbatim>\<open>Get\<close> does on one thread.\<close>

lemma mgr_Get_miss:
  assumes H: "hashmap_laws H" and k: "map_of_mgr H st (endpoint_key a) = None"
    and p: "pool_new (mgr_option st) a = Inr p"
  obtains st' where "mgr_Get api H a st = Inr (next_block (msys st), st')"
    and "pools st' = (pools st)(next_block (msys st) \<mapsto> p)"
    and "map_of_mgr H st' = (map_of_mgr H st)(endpoint_key a \<mapsto> next_block (msys st))"
proof -
  let ?n = "next_block (msys st)"
  let ?st = "st\<lparr>pools := (pools st)(?n \<mapsto> p), msys := (msys st)\<lparr>next_block := Suc ?n\<rparr>\<rparr>"
  have m: "map_of_mgr H ?st = map_of_mgr H st" by (simp add: map_of_mgr_def fun_eq_iff)
  have "concat (executor_shards p) = []" using p by (auto simp: pool_new_def split: if_splits)
  then obtain st' where "Get_insert api H a ?n ?st = Inr (?n, st')" "pools st' = pools ?st"
    "map_of_mgr H st' = (map_of_mgr H st)(endpoint_key a \<mapsto> ?n)"
    using Get_insert_eq [OF H, of ?st ?n p api a] k m by auto
  moreover have "Get_lookup H a st = Inr (Inr ?n, ?st)"
    using k p by (simp add: Get_lookup_def map_of_mgr_def CreateExecutorPool_def Let_def)
  ultimately show thesis using that by (simp add: mgr_Get_def)
qed

lemma mgr_Get_hit:
  "map_of_mgr H st (endpoint_key a) = Some q \<Longrightarrow> mgr_Get api H a st = Inr (q, st)"
  by (simp add: mgr_Get_def Get_lookup_def map_of_mgr_def)

text \<open>Two host names that agree on their first 63 characters share one pool: whichever is
  asked for first decides the host the pool connects to, and a request for the other one
  gets that pool.\<close>

theorem long_hosts_share_a_pool:
  assumes "hashmap_laws H" and "map_of_mgr H st (endpoint_key a) = None"
    and "num_shard_group (mgr_option st) \<noteq> 0"
    and "take 63 (c_str (na_ip a)) = take 63 (c_str (na_ip b))" and "63 \<le> length (c_str (na_ip a))"
    and "63 \<le> length (c_str (na_ip b))"
  shows "\<exists>q st' p. mgr_Get api H a st = Inr (q, st') \<and> mgr_Get api H b st' = Inr (q, st') \<and>
    pools st' q = Some p \<and> target p = a"
proof -
  obtain p where p: "pool_new (mgr_option st) a = Inr p" "target p = a"
    using assms(3) by (simp add: pool_new_def)
  obtain st' where st': "mgr_Get api H a st = Inr (next_block (msys st), st')"
    "pools st' = (pools st)(next_block (msys st) \<mapsto> p)"
    "map_of_mgr H st' = (map_of_mgr H st)(endpoint_key a \<mapsto> next_block (msys st))"
    by (rule mgr_Get_miss [OF assms(1,2) p(1)])
  have "endpoint_key b = endpoint_key a" using assms(4-6) by (simp add: endpoint_key_eq endpoint_text_def)
  with st'(3) have "mgr_Get api H b st' = Inr (next_block (msys st), st')" by (simp add: mgr_Get_hit)
  with st' p(2) show ?thesis by simp
qed

theorem long_hosts_share_a_pool_witness:
  "\<exists>q st' p. mgr_Get demo_api demo_map \<lparr>na_ip = replicate 63 CHR ''a'' @ ''.one'', na_port = 1\<rparr>
      (demo_manager [] Map.empty 2) = Inr (q, st') \<and>
    mgr_Get demo_api demo_map \<lparr>na_ip = replicate 63 CHR ''a'' @ ''.two'', na_port = 2\<rparr> st' = Inr (q, st') \<and>
    pools st' q = Some p \<and> target p = \<lparr>na_ip = replicate 63 CHR ''a'' @ ''.one'', na_port = 1\<rparr>"
  by (rule long_hosts_share_a_pool [OF demo_map_laws])
    (simp_all add: map_of_mgr_def demo_map_def demo_manager_def demo_option_def c_str_def nul_def
      takeWhile_append char_of_def)

section \<open>Shutdown\<close>

definition pooled_at :: "('m, 'w) manager \<Rightarrow> nat \<Rightarrow> nat set" where
  "pooled_at st q = (case pools st q of None \<Rightarrow> {} | Some p \<Rightarrow> pooled p)"

definition others :: "nat set \<Rightarrow> ('m, 'w) manager \<Rightarrow> nat \<Rightarrow> nat set" where
  "others U st q = U \<union> (\<Union>q' \<in> - {q}. pooled_at st q')"

text \<open>Every pool is well-formed and shares no executor with another one or with the users.\<close>

definition mgr_ok :: "nat set \<Rightarrow> ('m, 'w) manager \<Rightarrow> bool" where
  "mgr_ok U st \<longleftrightarrow>
     (\<forall>q p. pools st q = Some p \<longrightarrow> shards_ok p \<and> others U st q \<inter> pooled p = {}) \<and>
     held (U \<union> (\<Union>q. pooled_at st q)) (msys st)"

lemma all_pooled: "pools st q = Some p \<Longrightarrow> others U st q \<union> pooled p = U \<union> (\<Union>q. pooled_at st q)"
proof -
  assume "pools st q = Some p"
  then have "pooled p = pooled_at st q" by (simp add: pooled_at_def)
  then show ?thesis by (auto simp: others_def)
qed

lemma mgr_ok_pool: "mgr_ok U st \<Longrightarrow> pools st q = Some p \<Longrightarrow> pool_inv (others U st q) p (msys st)"
  using all_pooled [of st q p U] by (simp add: mgr_ok_def pool_inv_held)

lemma stop_one_spec:
  assumes ok: "mgr_ok U st" and q: "pools st q = Some p"
  shows "\<exists>s. stop_one api q st = Inr (st\<lparr>msys := s\<rparr>) \<and> mgr_ok U (st\<lparr>msys := s\<rparr>) \<and>
    (\<forall>r. execs s r = (if r \<in> pooled_at st q then map_option closed (execs (msys st) r)
                        else execs (msys st) r))"
proof -
  obtain s where s: "pool_Stop api p (msys st) = Inr s" "pool_inv (others U st q) p s"
    "\<forall>r. execs s r = (if r \<in> pooled p then map_option closed (execs (msys st) r) else execs (msys st) r)"
    using pool_Stop_spec [OF mgr_ok_pool [OF ok q], of api] by blast
  have at: "pooled_at (st\<lparr>msys := s\<rparr>) = pooled_at st" "others U (st\<lparr>msys := s\<rparr>) = others U st"
    by (simp_all add: pooled_at_def others_def fun_eq_iff)
  have "held (U \<union> (\<Union>q. pooled_at st q)) s"
    using s(2) all_pooled [OF q, of U] by (simp add: pool_inv_held)
  then have "mgr_ok U (st\<lparr>msys := s\<rparr>)" using ok by (simp add: mgr_ok_def at)
  then show ?thesis using s q by (auto simp: stop_one_def get_pool_def pooled_at_def)
qed

lemma stop_all_spec:
  assumes "mgr_ok U st" and "set qs \<subseteq> dom (pools st)"
  shows "\<exists>s. foldE (stop_one api) qs st = Inr (st\<lparr>msys := s\<rparr>) \<and> mgr_ok U (st\<lparr>msys := s\<rparr>) \<and>
    (\<forall>r. execs s r = (if r \<in> (\<Union>q \<in> set qs. pooled_at st q) then map_option closed (execs (msys st) r)
                        else execs (msys st) r))"
  using assms
proof (induction qs arbitrary: st)
  case Nil
  then show ?case by (intro exI [of _ "msys st"]) simp
next
  case (Cons q qs)
  then obtain p where q: "pools st q = Some p" by auto
  obtain s where s: "stop_one api q st = Inr (st\<lparr>msys := s\<rparr>)" "mgr_ok U (st\<lparr>msys := s\<rparr>)"
    "\<forall>r. execs s r = (if r \<in> pooled_at st q then map_option closed (execs (msys st) r)
                        else execs (msys st) r)"
    using stop_one_spec [OF Cons.prems(1) q, of api] by blast
  have at: "pooled_at (st\<lparr>msys := s\<rparr>) = pooled_at st" by (simp add: pooled_at_def fun_eq_iff)
  have "set qs \<subseteq> dom (pools (st\<lparr>msys := s\<rparr>))" using Cons.prems(2) by simp
  from Cons.IH [OF s(2) this] obtain t where t:
    "foldE (stop_one api) qs (st\<lparr>msys := s\<rparr>) = Inr (st\<lparr>msys := t\<rparr>)" "mgr_ok U (st\<lparr>msys := t\<rparr>)"
    "\<forall>r. execs t r = (if r \<in> (\<Union>q \<in> set qs. pooled_at st q) then map_option closed (execs s r)
                        else execs s r)"
    by (auto simp: at)
  have "closed (closed e) = closed e" for e by (simp add: closed_def)
  then have "\<forall>r. execs t r = (if r \<in> (\<Union>q \<in> set (q # qs). pooled_at st q)
      then map_option closed (execs (msys st) r) else execs (msys st) r)"
    using s(3) t(3) by (simp add: option.map_comp comp_def)
  with s(1) t(1,2) show ?case by (intro exI [of _ t]) simp
qed

lemma destroy_one_spec:
  assumes ok: "mgr_ok U st" and q: "pools st q = Some p"
    and c: "\<forall>r \<in> pooled p. \<not> connected (msys st) r"
  shows "\<exists>s. destroy_one api q st = Inr (st\<lparr>pools := (pools st)(q := None), msys := s\<rparr>) \<and>
    mgr_ok U (st\<lparr>pools := (pools st)(q := None), msys := s\<rparr>) \<and>
    (\<forall>r. execs s r = (if r \<in> pooled_at st q then None else execs (msys st) r))"
proof -
  obtain p' s where s: "pool_Destroy api p (msys st) = Inr (p', s)" "pooled p' = {}"
    "pool_inv (others U st q) p' s"
    "\<forall>r. execs s r = (if r \<in> pooled p then None else execs (msys st) r)"
    using pool_Destroy_spec [OF mgr_ok_pool [OF ok q] c, of api] by blast
  let ?t = "st\<lparr>pools := (pools st)(q := None), msys := s\<rparr>"
  have at: "pooled_at ?t = (pooled_at st)(q := {})" by (simp add: pooled_at_def fun_eq_iff)
  have sub: "others U ?t x \<subseteq> others U st x" for x by (auto simp: others_def at split: if_splits)
  have "(\<Union>x. pooled_at ?t x) = (\<Union>x \<in> - {q}. pooled_at st x)" by (auto simp: at split: if_splits)
  then have "held (U \<union> (\<Union>x. pooled_at ?t x)) s"
    using s(2,3) by (simp add: pool_inv_held others_def)
  moreover have "shards_ok p'' \<and> others U ?t x \<inter> pooled p'' = {}" if "pools ?t x = Some p''" for x p''
    using that ok sub [of x] by (fastforce simp: mgr_ok_def split: if_splits)
  ultimately have "mgr_ok U ?t" by (simp add: mgr_ok_def)
  moreover have "concat (executor_shards p') = []" using s(2) by (simp add: pooled_def)
  then have "destroy_one api q st = Inr ?t"
    using s(1) q by (simp add: destroy_one_def get_pool_def delete_pool_def del: concat_eq_Nil_conv)
  ultimately show ?thesis using s(4) q by (auto simp: pooled_at_def)
qed

lemma destroy_all_spec:
  assumes "mgr_ok U st" and "set qs \<subseteq> dom (pools st)" and "distinct qs"
    and "\<forall>q \<in> set qs. \<forall>r \<in> pooled_at st q. \<not> connected (msys st) r"
  shows "\<exists>t. foldE (destroy_one api) qs st = Inr t \<and> executor_pools t = executor_pools st \<and> mgr_ok U t \<and>
    mgr_option t = mgr_option st \<and> pools t = (\<lambda>q. if q \<in> set qs then None else pools st q) \<and>
    (\<forall>r. execs (msys t) r = (if r \<in> (\<Union>q \<in> set qs. pooled_at st q) then None else execs (msys st) r))"
  using assms
proof (induction qs arbitrary: st)
  case Nil
  then show ?case by simp
next
  case (Cons q qs)
  then obtain p where q: "pools st q = Some p" by auto
  then have "\<forall>r \<in> pooled p. \<not> connected (msys st) r" using Cons.prems(4) by (auto simp: pooled_at_def)
  from destroy_one_spec [OF Cons.prems(1) q this, of api] obtain s where s:
    "destroy_one api q st = Inr (st\<lparr>pools := (pools st)(q := None), msys := s\<rparr>)"
    "mgr_ok U (st\<lparr>pools := (pools st)(q := None), msys := s\<rparr>)"
    "\<forall>r. execs s r = (if r \<in> pooled_at st q then None else execs (msys st) r)" by blast
  let ?t = "st\<lparr>pools := (pools st)(q := None), msys := s\<rparr>"
  have at: "pooled_at ?t x = pooled_at st x" if "x \<in> set qs" for x
    using that Cons.prems(3) by (auto simp: pooled_at_def)
  have "set qs \<subseteq> dom (pools ?t)" "distinct qs" using Cons.prems(2,3) by auto
  moreover have "\<forall>x \<in> set qs. \<forall>r \<in> pooled_at ?t x. \<not> connected (msys ?t) r"
  proof (intro ballI)
    fix x r assume x: "x \<in> set qs" and "r \<in> pooled_at ?t x"
    then have "\<not> connected (msys st) r" using Cons.prems(4) at [OF x] by auto
    then show "\<not> connected (msys ?t) r" using s(3) by (simp add: connected_def)
  qed
  ultimately obtain u where u: "foldE (destroy_one api) qs ?t = Inr u"
    "executor_pools u = executor_pools ?t" "mgr_ok U u" "mgr_option u = mgr_option ?t"
    "pools u = (\<lambda>x. if x \<in> set qs then None else pools ?t x)"
    "\<forall>r. execs (msys u) r = (if r \<in> (\<Union>x \<in> set qs. pooled_at ?t x) then None else execs (msys ?t) r)"
    using Cons.IH [OF s(2)] by blast
  have "(\<Union>x \<in> set qs. pooled_at ?t x) = (\<Union>x \<in> set qs. pooled_at st x)" using at by auto
  then have "\<forall>r. execs (msys u) r =
      (if r \<in> (\<Union>x \<in> set (q # qs). pooled_at st x) then None else execs (msys st) r)"
    using u(6) s(3) by simp
  moreover have "pools u = (\<lambda>x. if x \<in> set (q # qs) then None else pools st x)"
    using u(5) by (simp add: fun_eq_iff)
  ultimately show ?case using s(1) u(1-4) by simp
qed

lemma shutdown_spec:
  assumes H: "hashmap_laws H" and ok: "mgr_ok U st"
    and m: "\<forall>k q. map_of_mgr H st k = Some q \<longrightarrow> (\<exists>p. pools st q = Some p \<and> endpoint_key (target p) = k)"
  shows "\<exists>t u. mgr_Stop api H st = Inr t \<and> mgr_Destroy api H t = Inr u \<and>
    map_of_mgr H u = Map.empty \<and> mgr_ok U u \<and> pools u = (\<lambda>q. if q \<in> ran (map_of_mgr H st) then None else pools st q) \<and>
    (\<forall>q \<in> ran (map_of_mgr H st). pools u q = None \<and> (\<forall>r \<in> pooled_at st q. execs (msys u) r = None)) \<and>
    (\<forall>r \<in> U. execs (msys u) r = execs (msys st) r)"
proof -
  let ?items = "hm_get_all_items H (executor_pools st)"
  let ?qs = "map snd ?items"
  let ?st = "st\<lparr>pools_to_destroy := ?items\<rparr>"
  have items: "map_of ?items = map_of_mgr H st" "distinct (map fst ?items)"
    using H by (simp_all add: hashmap_laws_def map_of_mgr_def)
  have qs: "set ?qs = ran (map_of_mgr H st)"
    using ran_distinct [OF items(2)] items(1) by simp
  have key: "k = k'" if "(k, q) \<in> set ?items" "(k', q) \<in> set ?items" for k k' q
    using that m items by (metis map_of_is_SomeI option.inject)
  have "inj_on snd (set ?items)" using key by (auto simp: inj_on_def)
  then have d: "distinct ?qs" using items(2) by (simp add: distinct_map)
  have sub: "set ?qs \<subseteq> dom (pools ?st)" using m unfolding qs by (auto simp: ran_def)
  have at: "pooled_at (st\<lparr>pools_to_destroy := x\<rparr>) = pooled_at st" "others U ?st = others U st" for x
    by (simp_all add: pooled_at_def others_def fun_eq_iff)
  have "mgr_ok U ?st" using ok by (simp add: mgr_ok_def at)
  then obtain s where s: "foldE (stop_one api) ?qs ?st = Inr (?st\<lparr>msys := s\<rparr>)"
    "mgr_ok U (?st\<lparr>msys := s\<rparr>)"
    "\<forall>r. execs s r = (if r \<in> (\<Union>q \<in> set ?qs. pooled_at ?st q) then map_option closed (execs (msys ?st) r)
                        else execs (msys ?st) r)"
    using stop_all_spec [OF _ sub, of U api] by blast
  let ?t = "?st\<lparr>msys := s\<rparr>"
  have at': "pooled_at ?t = pooled_at st" by (simp add: pooled_at_def fun_eq_iff)
  have "\<forall>q \<in> set ?qs. \<forall>r \<in> pooled_at ?t q. \<not> connected (msys ?t) r"
    using s(3) unfolding at at' by (auto simp: connected_def closed_def split: option.splits)
  moreover have "set ?qs \<subseteq> dom (pools ?t)" using sub by simp
  ultimately obtain u where u: "foldE (destroy_one api) ?qs ?t = Inr u"
    "executor_pools u = executor_pools ?t" "mgr_ok U u" "pools u = (\<lambda>q. if q \<in> set ?qs then None else pools ?t q)"
    "\<forall>r. execs (msys u) r = (if r \<in> (\<Union>q \<in> set ?qs. pooled_at ?t q) then None else execs (msys ?t) r)"
    using destroy_all_spec [OF s(2) _ d, of api] by blast
  let ?u = "u\<lparr>executor_pools := hm_reclaim H (executor_pools u), pools_to_destroy := []\<rparr>"
  have "mgr_Stop api H st = Inr ?t" using s(1) by (simp add: mgr_Stop_def Let_def)
  moreover have "mgr_Destroy api H ?t = Inr ?u" using u(1) by (simp add: mgr_Destroy_def)
  moreover have "map_of_mgr H ?u = Map.empty" using H by (simp add: map_of_mgr_def hashmap_laws_def fun_eq_iff)
  moreover have "r \<notin> (\<Union>q \<in> set ?qs. pooled_at st q)" if "r \<in> U" for r
    using ok that by (auto simp: mgr_ok_def others_def pooled_at_def split: option.splits)
  then have "\<forall>r \<in> U. execs (msys ?u) r = execs (msys st) r" using u(5) s(3) unfolding at at' by simp
  moreover have "\<forall>q \<in> ran (map_of_mgr H st). pools ?u q = None \<and>
      (\<forall>r \<in> pooled_at st q. execs (msys ?u) r = None)"
    using u(4,5) unfolding at' qs [symmetric] by auto
  moreover have "pooled_at ?u = pooled_at u" "others U ?u = others U u" by (simp_all add: pooled_at_def others_def fun_eq_iff)
  then have "mgr_ok U ?u" using u(3) by (simp add: mgr_ok_def)
  moreover have "pools ?u = (\<lambda>q. if q \<in> ran (map_of_mgr H st) then None else pools st q)"
    using u(4) unfolding qs [symmetric] by (simp add: fun_eq_iff)
  ultimately show ?thesis by blast
qed

text \<open>C22: Shutting a manager down: \<^verbatim>\<open>Stop\<close> and then \<^verbatim>\<open>Destroy\<close> return, the map is empty, every pool
  it held is deleted with the executors in it, and the executors still in use are as
  they were.\<close>

theorem manager_shutdown:
  assumes H: "hashmap_laws H" and ok: "mgr_ok U st"
    and m: "\<forall>k q. map_of_mgr H st k = Some q \<longrightarrow> (\<exists>p. pools st q = Some p \<and> endpoint_key (target p) = k)"
  shows "\<exists>t u. mgr_Stop api H st = Inr t \<and> mgr_Destroy api H t = Inr u \<and>
    map_of_mgr H u = Map.empty \<and>
    (\<forall>q \<in> ran (map_of_mgr H st). pools u q = None \<and> (\<forall>r \<in> pooled_at st q. execs (msys u) r = None)) \<and>
    (\<forall>r \<in> U. execs (msys u) r = execs (msys st) r)"
  using shutdown_spec [OF assms] by blast

lemma demo_mgr_ok: "mgr_ok {} (demo_manager [(endpoint_key demo_addr, 2)] [2 \<mapsto> demo_pool [0] 1] 3)"
proof -
  let ?st = "demo_manager [(endpoint_key demo_addr, 2)] [2 \<mapsto> demo_pool [0] 1] 3"
  have at: "pooled_at ?st q = (if q = 2 then {0} else {})" for q
    by (simp add: pooled_at_def demo_manager_def demo_pool_def pooled_def)
  have "wf_on {0} ((demo_sys True False)\<lparr>next_block := 3\<rparr>)"
    by (auto simp: wf_on_def demo_sys_def demo_exec_def handle_def connected_def split: if_splits)
  then have "held {0} (msys ?st)" by (simp add: held_def single_refs_def demo_manager_def)
  moreover have "(\<Union>q. pooled_at ?st q) = {0}" by (auto simp: at split: if_splits)
  moreover have "shards_ok (demo_pool [0] 1)" using demo_pool_inv(1) [of 1 True True]
    by (simp add: pool_inv_def)
  moreover have "pools ?st = [2 \<mapsto> demo_pool [0] 1]" by (simp add: demo_manager_def)
  ultimately show ?thesis by (auto simp: mgr_ok_def others_def at split: if_splits)
qed

theorem manager_shutdown_witness:
  "\<exists>t u. mgr_Stop demo_api demo_map
      (demo_manager [(endpoint_key demo_addr, 2)] [2 \<mapsto> demo_pool [0] 1] 3) = Inr t \<and>
    mgr_Destroy demo_api demo_map t = Inr u \<and> pools u 2 = None \<and> execs (msys u) 0 = None"
proof -
  let ?st = "demo_manager [(endpoint_key demo_addr, 2)] [2 \<mapsto> demo_pool [0] 1] 3"
  have m: "\<forall>k q. map_of_mgr demo_map ?st k = Some q \<longrightarrow>
      (\<exists>p. pools ?st q = Some p \<and> endpoint_key (target p) = k)"
    by (simp add: map_of_mgr_def demo_map_def demo_manager_def demo_pool_def demo_addr_def)
  have "2 \<in> ran (map_of_mgr demo_map ?st)" by (simp add: map_of_mgr_def demo_map_def demo_manager_def)
  moreover have "0 \<in> pooled_at ?st 2"
    by (simp add: pooled_at_def demo_manager_def demo_pool_def pooled_def)
  ultimately show ?thesis
    using manager_shutdown [OF demo_map_laws demo_mgr_ok m, of demo_api] by blast
qed

end
