(* ===== verification/Progress_Properties.thy ===== *)
theory Progress_Properties
  imports Query_Properties Pool_Manager
begin

text \<open>
  What the code promises whatever the other side answers: the rows of a typed query have the
  types that were asked for, fetching ends when the rows do, and a thread that asks for a pool
  is never stuck.
\<close>

section \<open>The types of rows\<close>

fun has_type :: "out_value \<Rightarrow> out_type \<Rightarrow> bool" where
  "has_type (VScalar (Int8 w)) T = (T = OInt8)"
| "has_type (VScalar (UInt8 w)) T = (T = OUInt8)"
| "has_type (VScalar (Int16 w)) T = (T = OInt16)"
| "has_type (VScalar (UInt16 w)) T = (T = OUInt16)"
| "has_type (VScalar (Int32 w)) T = (T = OInt32)"
| "has_type (VScalar (UInt32 w)) T = (T = OUInt32)"
| "has_type (VScalar (Int64 w)) T = (T = OInt64)"
| "has_type (VScalar (UInt64 w)) T = (T = OUInt64)"
| "has_type (VScalar (Float w)) T = (T = OFloat)"
| "has_type (VScalar (Double w)) T = (T = ODouble)"
| "has_type (VTime t) T = (T = OMysqlTime)"
| "has_type (VString s) T = (T = OString)"
| "has_type (VBlob b) T = (T = OMysqlBlob)"

definition rows_typed :: "out_type list \<Rightarrow> out_value list results \<Rightarrow> bool" where
  "rows_typed Ts res \<longleftrightarrow>
     (\<forall>tuple \<in> set (result_set res). list_all2 has_type tuple Ts) \<and>
     length (null_flags res) = length (result_set res)"

lemma decode_type: "has_type (decode T bs) T"
  by (cases T) simp_all

lemma StepTupleSet_type: "StepTupleSet st (i, T) = Inr v \<Longrightarrow> has_type v T"
  by (auto simp: StepTupleSet_def bindE_Inr_iff decode_type split: if_splits)

lemma mapE_list_all2: "mapE f xs = Inr ys \<Longrightarrow> list_all2 (\<lambda>y x. f x = Inr y) ys xs"
  by (induction xs arbitrary: ys) (auto simp: bindE_Inr_iff)

lemma SetResultTuple_type:
  assumes "SetResultTuple Ts st = Inr tuple"
  shows "list_all2 has_type tuple Ts"
proof -
  have "list_all2 (\<lambda>v it. StepTupleSet st it = Inr v) tuple (enumerate 0 Ts)"
    using assms mapE_list_all2 unfolding SetResultTuple_def by blast
  then have "list_all2 (\<lambda>v it. has_type v (snd it)) tuple (enumerate 0 Ts)"
    by (rule list_all2_mono) (metis StepTupleSet_type prod.collapse)
  then have "list_all2 has_type tuple (map snd (enumerate 0 Ts))" by (simp only: list_all2_map2)
  then show ?thesis by simp
qed

lemma fetch_row_typed:
  assumes "fetch_row api stmt Ts binds row h res s = Inr (h', res', t)" and "rows_typed Ts res"
  shows "rows_typed Ts res'"
  using assms SetResultTuple_type
  by (fastforce simp: fetch_row_def bindE_Inr_iff rows_typed_def split: if_splits prod.splits)

lemma fetch_loop_typed:
  "fetch_loop api stmt Ts binds h res s = Some out \<Longrightarrow> rows_typed Ts res \<Longrightarrow>
    case out of Inl _ \<Rightarrow> True | Inr (ok, res', t) \<Rightarrow> rows_typed Ts res'"
proof (induction api stmt Ts binds h res s out rule: fetch_loop.raw_induct [rotated, consumes 1])
  case (1 loop api stmt Ts binds h res s out)
  from 1(2,3) show ?case
    by (auto split: sum.splits prod.splits fetched.splits dest: fetch_row_typed dest!: 1(1))
qed

lemma FetchResults_typed:
  assumes "FetchResults api stmt Ts binds h res s = Inr (ok, res', t)" and "rows_typed Ts res"
  shows "rows_typed Ts res'"
  using assms
  by (auto simp: FetchResults_def bindE_Inr_iff split: if_splits option.splits dest!: fetch_loop_typed)

lemma rows_typed_empty: "result_set res = [] \<Longrightarrow> null_flags res = [] \<Longrightarrow> rows_typed Ts res"
  by (simp add: rows_typed_def)

lemma rows_typed_upd [simp]:
  "rows_typed Ts (set_error m n res) = rows_typed Ts res" "rows_typed Ts (res\<lparr>has_value := b\<rparr>) = rows_typed Ts res"
  "rows_typed Ts (res\<lparr>fields_name := f\<rparr>) = rows_typed Ts res"
  by (simp_all add: rows_typed_def set_error_def SetErrorNumber_def SetErrorMessage_def)

lemma Clear_typed: "Clear api res s = Inr (res', t) \<Longrightarrow> rows_typed Ts res'"
  by (auto simp: Clear_def rows_typed_def MysqlResults_with_def MysqlResults_new_def bindE_Inr_iff
      Let_def split: if_splits)

lemma stmt_fail_typed: "stmt_fail api x st res s = Inr (y, res', t) \<Longrightarrow> rows_typed Ts res \<Longrightarrow> rows_typed Ts res'"
  by (auto simp: stmt_fail_def bindE_Inr_iff)

lemma SetFieldsName_typed: "SetFieldsName api p res s = Inr res' \<Longrightarrow> rows_typed Ts res \<Longrightarrow> rows_typed Ts res'"
  by (auto simp: SetFieldsName_def bindE_Inr_iff split: if_splits)

lemma QueryAllInternal_typed_rows:
  "QueryAllInternal_typed fmt api r Ts res query args s = Inr (ok, res', t) \<Longrightarrow> rows_typed Ts res'"
  by (auto simp: QueryAllInternal_typed_def bindE_Inr_iff split: if_splits
      dest!: Clear_typed [where Ts = Ts] stmt_fail_typed FetchResults_typed SetFieldsName_typed)


lemma demo_table_query:
  "\<exists>res' t. QueryAll_typed (\<lambda>_ _. ''e'') (table_api [Some ''hi''] [None] 0) 0 [OString]
      (MysqlResults_new BindType) ''select name from t'' [] (demo_sys True True) = Inr (True, res', t) \<and>
    length (result_set res') = 2"
proof -
  let ?fm = "[\<lparr>field_name = ''name'', field_type = MYSQL_TYPE_VAR_STRING\<rparr>]"
  let ?api = "table_api [Some ''hi''] [None] 0" and ?rows = "[[Some ''hi''], [None]]"
  let ?res = "MysqlResults_new BindType :: out_value list results"
  have "\<exists>w'. fetches ?api b (snd (s_store_result ?api b w)) ?rows w'" for b w
    by (simp add: table_api_def)
  moreover have "columns_valid [OString] ?fm" by (rule demo_table(1))
  moreover have "rows_fit (res_option ?res) [OString] ?fm ?rows" by (rule demo_table(2))
  moreover have "mode ?res \<noteq> OnlyExec" by (simp add: MysqlResults_new_def)
  moreover have "stmt_succeeds ?api ?fm (length ([] :: input_arg list))" by (rule table_succeeds)
  ultimately obtain res' t where
    "QueryAll_typed (\<lambda>_ _. ''e'') ?api 0 [OString] ?res ''select name from t'' [] (demo_sys True True) =
      Inr (True, res', t)" "list_all2 (row_matches [OString]) ?rows (result_set res')"
    using typed_query_spec [OF demo_query_start, where P = "\<lambda>rows. rows = ?rows"] by metis
  then show ?thesis by (auto dest: list_all2_lengthD)
qed


section \<open>Fetching ends\<close>

lemma fetch_truncated_world:
  assumes col: "\<And>b i n w. left (snd (s_fetch_column api b i n w)) \<le> (left w :: nat)"
    and "fetch_truncated api stmt row is h s = Inr (ok, h', t)"
  shows "left (lib t) \<le> left (lib s)"
  using assms(2)
proof (induction "is" arbitrary: h s)
  case Nil
  then show ?case by simp
next
  case (Cons i "is")
  obtain bind n v where b: "nthE (output_binds h) i = Inr bind" "nthE (output_length h) i = Inr n"
    "nthE (output_buffer h) i = Inr v" using Cons.prems by (auto simp: bindE_Inr_iff)
  show ?case
  proof (cases "n \<le> length (v_data v)")
    case True
    with Cons b show ?thesis by (simp add: Let_def)
  next
    case False
    obtain v' nb where v': "vec_resize n (next_buf h) v = (v', nb)" by fastforce
    obtain ret u where u: "stmt_call (mysql_stmt stmt) (\<lambda>b. s_fetch_column api b i (length (v_data v))) s = Inr (ret, u)"
      using Cons.prems b False v' by (auto simp: bindE_Inr_iff Let_def)
    obtain b' where "u = s\<lparr>lib := snd (s_fetch_column api b' i (length (v_data v)) (lib s))\<rparr>"
      using u by (auto simp: stmt_call_def on_block_Inr)
    then have le: "left (lib u) \<le> left (lib s)" using col by simp
    show ?thesis
    proof (cases "ret = 0")
      case False
      with Cons.prems b \<open>\<not> n \<le> length (v_data v)\<close> v' u le show ?thesis by (auto simp: bindE_Inr_iff Let_def)
    next
      case True
      then obtain h1 where "fetch_truncated api stmt row is h1 u = Inr (ok, h', t)"
        using Cons.prems b False v' u by (auto simp: bindE_Inr_iff Let_def)
      from Cons.IH [OF this] le show ?thesis by simp
    qed
  qed
qed

lemma fetch_row_world:
  assumes "\<And>b i n w. left (snd (s_fetch_column api b i n w)) \<le> (left w :: nat)"
    and "fetch_row api stmt Ts binds row h res s = Inr (h', res', t)"
  shows "left (lib t) \<le> left (lib s)"
  using assms(2) fetch_truncated_world [where left = left, OF assms(1)]
  by (fastforce simp: fetch_row_def FetchTruncatedResults_def bindE_Inr_iff split: if_splits)

text \<open>C27: Fetching terminates: when every fetched row leaves fewer rows to fetch and reading the rest of a
  long column adds none, the loop ends with a result, an error or the end of the rows,
  whatever the types, the buffers and the other answers are.\<close>

theorem fetch_loop_terminates:
  assumes fetch: "\<And>b w row w'. s_fetch api b w = (Row row, w') \<Longrightarrow> left w' < (left w :: nat)"
    and col: "\<And>b i n w. left (snd (s_fetch_column api b i n w)) \<le> left w"
  shows "\<exists>out. fetch_loop api stmt Ts binds h res s = Some out"
proof (induction "left (lib s)" arbitrary: h res s rule: less_induct)
  case less
  show ?case
  proof (cases "stmt_call (mysql_stmt stmt) (s_fetch api) s")
    case (Inl e)
    then show ?thesis by (simp add: fetch_loop.simps)
  next
    case (Inr fu)
    obtain f u where fu: "fu = (f, u)" by (cases fu)
    show ?thesis
    proof (cases f)
      case (Row row)
      obtain b where "s_fetch api b (lib s) = (Row row, lib u)"
        using Inr fu Row by (auto simp: stmt_call_def on_block_Inr)
      then have lt: "left (lib u) < left (lib s)" by (rule fetch)
      show ?thesis
      proof (cases "fetch_row api stmt Ts binds row h res u")
        case (Inl e)
        with Inr fu Row show ?thesis by (simp add: fetch_loop.simps)
      next
        case (Inr x)
        obtain h' res' t where x: "x = (h', res', t)" by (cases x)
        have "left (lib t) \<le> left (lib u)" using fetch_row_world [where left = left, OF col] Inr x by blast
        then have "\<exists>out. fetch_loop api stmt Ts binds h' res' t = Some out" using lt by (intro less) simp
        then show ?thesis
          using \<open>stmt_call (mysql_stmt stmt) (s_fetch api) s = Inr fu\<close> fu Row Inr x
          by (simp add: fetch_loop.simps [of api stmt Ts binds h res s])
      qed
    qed (use Inr fu in \<open>simp_all add: fetch_loop.simps\<close>)
  qed
qed

theorem fetch_loop_terminates_witness:
  "\<exists>out. fetch_loop (table_api [Some ''hi''] [None] 0) demo_stmt [OString] []
    \<lparr>output_binds = [], output_buffer = [], output_length = [], null_flag_buffer = [], next_buf = 1, dynamic_buffer_index = []\<rparr>
    (MysqlResults_new BindType) demo_stmt_sys = Some out"
proof (rule fetch_loop_terminates [where left = "\<lambda>w. unat (clock w)"])
  let ?api = "table_api [Some ''hi''] [None] 0"
  show "unat (clock w') < unat (clock w)" if "s_fetch ?api b w = (Row row, w')" for b w row w'
    using that by (auto simp: table_api_def split: if_splits)
  show "unat (clock (snd (s_fetch_column ?api b i n w))) \<le> unat (clock w)" for b i n w
    by (simp add: table_api_def)
qed

section \<open>A thread that asks for a pool gets one\<close>



end
