(* ===== verification/Transaction.thy ===== *)
theory Transaction
  imports Mysql_Executor
begin

text \<open>
  \<^verbatim>\<open>transaction.h\<close>: the handle of a transaction, which owns the connection the transaction runs
  on. A handle is a value here; its executor is a reference into the store of
  \<open>Mysql_Executor\<close>, which moving a handle passes on and destroying it drops.
\<close>

section \<open>State\<close>

datatype TxState = kNotInited | kStarted | kRollBacked | kCommitted | kInValid

record tx =
  tx_executor :: ptr
  tx_state :: TxState

text \<open>The number an error message prints for a state.\<close>

fun TxState_code :: "TxState \<Rightarrow> u32" where
  "TxState_code kNotInited = 0"
| "TxState_code kStarted = 1"
| "TxState_code kRollBacked = 2"
| "TxState_code kCommitted = 3"
| "TxState_code kInValid = 4"

text \<open>The enumerators are ordered as they are declared; an ended state is one from \<^verbatim>\<open>kRollBacked\<close> on.\<close>

instantiation TxState :: linorder
begin

definition less_eq_TxState :: "TxState \<Rightarrow> TxState \<Rightarrow> bool" where
  "less_eq_TxState a b \<longleftrightarrow> unat (TxState_code a) \<le> unat (TxState_code b)"

definition less_TxState :: "TxState \<Rightarrow> TxState \<Rightarrow> bool" where
  "less_TxState a b \<longleftrightarrow> unat (TxState_code a) < unat (TxState_code b)"

instance
proof
  fix a b :: TxState assume "a \<le> b" "b \<le> a"
  then show "a = b" by (cases a; cases b) (simp_all add: less_eq_TxState_def)
qed (auto simp: less_eq_TxState_def less_TxState_def)

end

lemma TxState_order [simp]:
  "kRollBacked \<le> kRollBacked" "kRollBacked \<le> kCommitted" "\<not> kRollBacked \<le> kStarted" "\<not> kRollBacked \<le> kNotInited"
  "kRollBacked \<le> kInValid"
  by (simp_all add: less_eq_TxState_def)

section \<open>Operations\<close>

definition TransactionHandle_new :: tx where
  "TransactionHandle_new = \<lparr>tx_executor = None, tx_state = kNotInited\<rparr>"

definition TransactionHandle_of :: "ptr \<Rightarrow> tx" where
  "TransactionHandle_of executor = \<lparr>tx_executor = executor, tx_state = kNotInited\<rparr>"

text \<open>Move construction and assignment: the new handle and what is left of the old one. The
  executor the target of an assignment had loses a reference.\<close>

definition tx_moved :: tx where
  "tx_moved = \<lparr>tx_executor = None, tx_state = kInValid\<rparr>"

definition TransactionHandle_move :: "tx \<Rightarrow> tx \<times> tx" where
  "TransactionHandle_move other = (other, tx_moved)"

definition TransactionHandle_move_assign ::
  "'w mysql_api \<Rightarrow> tx \<Rightarrow> tx \<Rightarrow> 'w sys \<Rightarrow> ((tx \<times> tx) \<times> 'w sys) result" where
  "TransactionHandle_move_assign api this other s =
     bindE (ref_drop api (tx_executor this) s) (\<lambda>s. Inr ((other, tx_moved), s))"

definition SetState :: "TxState \<Rightarrow> tx \<Rightarrow> tx" where
  "SetState state h = h\<lparr>tx_state := state\<rparr>"

definition GetState :: "tx \<Rightarrow> TxState" where
  "GetState h = tx_state h"

text \<open>\<^verbatim>\<open>SetExecutor\<close> leaves the argument with the caller when the handle has an executor. The last
  component is what the argument holds afterwards.\<close>

definition SetExecutor :: "ptr \<Rightarrow> tx \<Rightarrow> bool \<times> tx \<times> ptr" where
  "SetExecutor executor h =
     (if tx_executor h \<noteq> None then (False, h, executor)
      else (True, h\<lparr>tx_executor := executor\<rparr>, None))"

definition GetExecutor_of :: "tx \<Rightarrow> ptr" where
  "GetExecutor_of h = tx_executor h"

text \<open>\<^verbatim>\<open>TransferExecutor\<close> hands out an rvalue reference to the member: who takes the executor from it
  leaves null there (\<open>x\<close> is what the taker left).\<close>

definition TransferExecutor :: "ptr \<Rightarrow> tx \<Rightarrow> tx" where
  "TransferExecutor x h = h\<lparr>tx_executor := x\<rparr>"

definition TransactionHandle_destroy :: "'w mysql_api \<Rightarrow> tx \<Rightarrow> 'w sys \<Rightarrow> 'w sys result" where
  "TransactionHandle_destroy api h s =
     bindE (case tx_executor h of None \<Rightarrow> Inr s | Some r \<Rightarrow> Close api r s) (\<lambda>s.
       ref_drop api (tx_executor h) s)"

section \<open>Properties\<close>

lemma destroy_empty [simp]: "tx_executor h = None \<Longrightarrow> TransactionHandle_destroy api h s = Inr s"
  by (simp add: TransactionHandle_destroy_def)

text \<open>Destroying a handle that still owns a healthy connection, with its transaction open, closes
  the connection, frees the client library's handle and the executor, and touches no other
  executor.\<close>

theorem abandoned_transaction_is_closed:
  assumes "wf_on R s" and "r \<in> R" and "execs s r = Some e" and "is_connected e" and "refcount e = 1"
    and "tx_executor h = Some r"
  shows "\<exists>t hd. TransactionHandle_destroy api h s = Inr t \<and> execs t = (execs s)(r := None) \<and>
    mysql e = Some hd \<and> mysqls t = mysqls s - {hd} \<and> wf_on (R - {r}) t"
proof -
  obtain hd where hd: "mysql e = Some hd" "hd \<in> mysqls s"
    using wf_onD(2,3) [OF assms(1,2)] assms(3,4) by (cases "mysql e") auto
  let ?e = "e\<lparr>mysql := None, is_connected := False\<rparr>"
  let ?t = "put_exec r ?e (s\<lparr>lib := c_close api hd (lib s), mysqls := mysqls s - {hd}\<rparr>)"
  let ?u = "?t\<lparr>execs := (execs ?t)(r := None)\<rparr>"
  have c: "Close api r s = Inr ?t" using assms(3,4) hd by (rule Close_eq)
  have "wf_on R ?t" using close.op_returns [OF assms(1,2), of api] c by simp
  then have "wf_on (R - {r}) ?t" by (rule wf_on_subset) blast
  then have "wf_on (R - {r}) ?u" by (rule wf_on_delete) simp
  moreover have "ref_drop api (Some r) ?t = Inr ?u"
    by (rule ref_drop_last [of ?t r ?e]) (use assms(5) in simp_all)
  ultimately show ?thesis
    using c hd(1) assms(6) by (intro exI [of _ ?u]) (simp add: TransactionHandle_destroy_def)
qed

theorem abandoned_transaction_is_closed_witness:
  "\<exists>t. TransactionHandle_destroy demo_api \<lparr>tx_executor = Some 0, tx_state = kStarted\<rparr> (demo_sys True True) = Inr t \<and>
    execs t 0 = None \<and> mysqls t = {}"
proof -
  have "wf_on {0} (demo_sys True True)" by (rule demo_sys_wf)
  from abandoned_transaction_is_closed [OF this, of 0 "demo_exec True" "\<lparr>tx_executor = Some 0, tx_state = kStarted\<rparr>" demo_api]
  show ?thesis by auto
qed

text \<open>A moved handle is usable where it went and invalid where it was.\<close>

lemma move_keeps_transaction:
  "GetState (fst (TransactionHandle_move h)) = GetState h"
  "GetState (snd (TransactionHandle_move h)) = kInValid"
  "GetExecutor_of (snd (TransactionHandle_move h)) = None"
  by (simp_all add: TransactionHandle_move_def GetState_def GetExecutor_of_def tx_moved_def)

lemma SetExecutor_once:
  "SetExecutor (Some r) TransactionHandle_new = (True, \<lparr>tx_executor = Some r, tx_state = kNotInited\<rparr>, None)"
  "tx_executor h = Some r' \<Longrightarrow> SetExecutor (Some r) h = (False, h, Some r)"
  by (simp_all add: SetExecutor_def TransactionHandle_new_def)

end
