(* ===== verification/Client_Conf.thy ===== *)
theory Client_Conf
  imports Prelude
begin

text \<open>
  \<^verbatim>\<open>config/mysql_client_conf.h\<close> and \<^verbatim>\<open>config/mysql_client_conf_parser.h\<close>: the plugin's configuration,
  and its conversion to and from YAML. yaml-cpp is the parameter \<open>'y yaml_api\<close>; the hypothesis
  \<open>yaml_laws\<close> is what its documentation says of assigning and reading a map and of scalars.
\<close>

section \<open>The configuration\<close>

record MysqlClientConf =
  user_name :: string
  cf_password :: string
  dbname :: string
  cf_char_set :: string
  thread_num :: u64
  thread_bind_core :: string
  cf_num_shard_group :: u32

definition MysqlClientConf_default :: MysqlClientConf where
  "MysqlClientConf_default =
     \<lparr>user_name = [], cf_password = [], dbname = [], cf_char_set = ''utf8mb4'', thread_num = 4,
      thread_bind_core = [], cf_num_shard_group = 4\<rparr>"

section \<open>YAML\<close>

text \<open>Reading a key of a node that does not have it gives \<open>None\<close>, the undefined node; reading a
  scalar at a type it does not have throws.\<close>

record 'y yaml_api =
  y_new :: 'y
  y_get :: "'y \<Rightarrow> string \<Rightarrow> 'y option"
  y_put :: "'y \<Rightarrow> string \<Rightarrow> 'y \<Rightarrow> 'y"
  y_of_string :: "string \<Rightarrow> 'y"
  y_of_u64 :: "u64 \<Rightarrow> 'y"
  y_of_u32 :: "u32 \<Rightarrow> 'y"
  y_string :: "'y \<Rightarrow> string option"
  y_u64 :: "'y \<Rightarrow> u64 option"
  y_u32 :: "'y \<Rightarrow> u32 option"

definition yaml_laws :: "'y yaml_api \<Rightarrow> bool" where
  "yaml_laws Y \<longleftrightarrow>
     (\<forall>n k v k'. y_get Y (y_put Y n k v) k' = (if k' = k then Some v else y_get Y n k')) \<and>
     (\<forall>s. y_string Y (y_of_string Y s) = Some s) \<and> (\<forall>n. y_u64 Y (y_of_u64 Y n) = Some n) \<and>
     (\<forall>n. y_u32 Y (y_of_u32 Y n) = Some n)"

definition encode :: "'y yaml_api \<Rightarrow> MysqlClientConf \<Rightarrow> 'y" where
  "encode Y mysql_conf =
     (let node = y_new Y;
          node = y_put Y node ''user_name'' (y_of_string Y (user_name mysql_conf));
          node = y_put Y node ''password'' (y_of_string Y (cf_password mysql_conf));
          node = y_put Y node ''dbname'' (y_of_string Y (dbname mysql_conf));
          node = y_put Y node ''char_set'' (y_of_string Y (cf_char_set mysql_conf));
          node = y_put Y node ''thread_num'' (y_of_u64 Y (thread_num mysql_conf));
          node = y_put Y node ''thread_bind_core'' (y_of_string Y (thread_bind_core mysql_conf))
      in y_put Y node ''num_shard_group'' (y_of_u32 Y (cf_num_shard_group mysql_conf)))"

text \<open>One \<^verbatim>\<open>if (node[key]) field = node[key].as<T>()\<close>; a conversion that fails throws.\<close>

definition read_key ::
  "'y yaml_api \<Rightarrow> 'y \<Rightarrow> string \<Rightarrow> ('y \<Rightarrow> 'a option) \<Rightarrow> ('a \<Rightarrow> MysqlClientConf \<Rightarrow> MysqlClientConf) \<Rightarrow>
   MysqlClientConf \<Rightarrow> MysqlClientConf result" where
  "read_key Y node key as set_field conf =
     (case y_get Y node key of None \<Rightarrow> Inr conf
      | Some n \<Rightarrow> (case as n of None \<Rightarrow> Inl Exception_thrown | Some v \<Rightarrow> Inr (set_field v conf)))"

definition yaml_decode :: "'y yaml_api \<Rightarrow> 'y \<Rightarrow> MysqlClientConf \<Rightarrow> (bool \<times> MysqlClientConf) result" where
  "yaml_decode Y node conf =
     bindE (read_key Y node ''user_name'' (y_string Y) (\<lambda>v c. c\<lparr>user_name := v\<rparr>) conf) (\<lambda>c.
     bindE (read_key Y node ''password'' (y_string Y) (\<lambda>v c. c\<lparr>cf_password := v\<rparr>) c) (\<lambda>c.
     bindE (read_key Y node ''dbname'' (y_string Y) (\<lambda>v c. c\<lparr>dbname := v\<rparr>) c) (\<lambda>c.
     bindE (read_key Y node ''char_set'' (y_string Y) (\<lambda>v c. c\<lparr>cf_char_set := v\<rparr>) c) (\<lambda>c.
     bindE (read_key Y node ''thread_num'' (y_u64 Y) (\<lambda>v c. c\<lparr>thread_num := v\<rparr>) c) (\<lambda>c.
     bindE (read_key Y node ''thread_bind_core'' (y_string Y) (\<lambda>v c. c\<lparr>thread_bind_core := v\<rparr>) c) (\<lambda>c.
     bindE (read_key Y node ''num_shard_group'' (y_u32 Y) (\<lambda>v c. c\<lparr>cf_num_shard_group := v\<rparr>) c) (\<lambda>c.
       Inr (True, c))))))))"

text \<open>\<^verbatim>\<open>node.as<MysqlClientConf>()\<close>: a default object, decoded.\<close>

definition as_conf :: "'y yaml_api \<Rightarrow> 'y \<Rightarrow> MysqlClientConf result" where
  "as_conf Y node = bindE (yaml_decode Y node MysqlClientConf_default) (\<lambda>(_, c). Inr c)"

section \<open>Properties\<close>

lemma read_key_absent: "y_get Y node key = None \<Longrightarrow> read_key Y node key as f c = Inr c"
  by (simp add: read_key_def)

lemma read_key_present:
  "y_get Y node key = Some n \<Longrightarrow> as n = Some v \<Longrightarrow> read_key Y node key as f c = Inr (f v c)"
  by (simp add: read_key_def)

text \<open>C29: Encoding a configuration and decoding the node, into any object, gives the configuration.\<close>

theorem decode_encode:
  assumes "yaml_laws Y"
  shows "yaml_decode Y (encode Y c) c' = Inr (True, c)"
  using assms by (simp add: yaml_decode_def encode_def read_key_def yaml_laws_def Let_def)

text \<open>A node of scalars and maps, for the examples.\<close>

datatype demo_yaml = Text string | Number nat | Mapping "string \<rightharpoonup> demo_yaml"

definition demo_yaml_api :: "demo_yaml yaml_api" where
  "demo_yaml_api =
     \<lparr>y_new = Mapping Map.empty, y_get = (\<lambda>n k. case n of Mapping m \<Rightarrow> m k | _ \<Rightarrow> None),
      y_put = (\<lambda>n k v. case n of Mapping m \<Rightarrow> Mapping (m(k \<mapsto> v)) | _ \<Rightarrow> Mapping [k \<mapsto> v]),
      y_of_string = Text, y_of_u64 = (\<lambda>w. Number (unat w)), y_of_u32 = (\<lambda>w. Number (unat w)),
      y_string = (\<lambda>n. case n of Text s \<Rightarrow> Some s | _ \<Rightarrow> None),
      y_u64 = (\<lambda>n. case n of Number i \<Rightarrow> Some (of_nat i) | _ \<Rightarrow> None),
      y_u32 = (\<lambda>n. case n of Number i \<Rightarrow> Some (of_nat i) | _ \<Rightarrow> None)\<rparr>"

lemma demo_yaml_laws: "yaml_laws demo_yaml_api"
  by (auto simp: yaml_laws_def demo_yaml_api_def split: demo_yaml.splits)

theorem decode_encode_witness:
  "yaml_decode demo_yaml_api (encode demo_yaml_api (MysqlClientConf_default\<lparr>dbname := ''test''\<rparr>))
    MysqlClientConf_default = Inr (True, MysqlClientConf_default\<lparr>dbname := ''test''\<rparr>)"
  by (rule decode_encode [OF demo_yaml_laws])

lemma as_conf_defaults:
  "(\<And>k. y_get Y node k = None) \<Longrightarrow> as_conf Y node = Inr MysqlClientConf_default"
  by (simp add: as_conf_def yaml_decode_def read_key_absent)

end
