(* ===== verification/Service_Proxy.thy ===== *)
theory Service_Proxy
  imports Pool_Manager Query_Properties Transaction Client_Conf
begin

text \<open>
  \<^verbatim>\<open>mysql_service_proxy.{h,cc}\<close>: queries and transactions over the pool manager. The RPC
  framework (filters, selector, time-outs, statistics, thread pool) is the parameter
  \<open>'f framework\<close> of functions on an opaque state \<open>'f\<close>.

  A task given to the thread pool runs while the calling fiber waits, so a synchronous call is
  one sequential run; the asynchronous ones are in \<open>Proxy_Async\<close>. A local \<^verbatim>\<open>RefPtr\<close> copied from a reference that outlives it is not counted. Every
  function returning \<^verbatim>\<open>context->GetStatus()\<close> returns the context here.
\<close>

section \<open>The framework\<close>

record call_context =
  ctx_status :: status
  ctx_addr :: NodeAddr

datatype filter_point =
    CLIENT_PRE_RPC_INVOKE | CLIENT_POST_RPC_INVOKE | CLIENT_PRE_SEND_MSG | CLIENT_POST_RECV_MSG

record thread_pool_option =
  tp_thread_num :: u64
  tp_bind_core :: bool

text \<open>
  \<^verbatim>\<open>message_filters\<close> is \<^verbatim>\<open>RunMessageClientFilters\<close> (true: REJECT), \<open>run_filters\<close> is \<^verbatim>\<open>RunFilters\<close>
  (0: go on), \<open>add_task\<close> says whether the thread pool took a task, \<open>failed_future_value\<close> is what
  \<^verbatim>\<open>GetValue\<close> does on a failed future. The other fields are named as the functions and
  constants they stand for.
\<close>

record 'f framework =
  fill_context :: "call_context \<Rightarrow> 'f \<Rightarrow> call_context \<times> 'f"
  message_filters :: "filter_point \<Rightarrow> call_context \<Rightarrow> 'f \<Rightarrow> bool \<times> call_context \<times> 'f"
  run_filters :: "filter_point \<Rightarrow> call_context \<Rightarrow> 'f \<Rightarrow> int \<times> call_context \<times> 'f"
  check_timeout :: "call_context \<Rightarrow> 'f \<Rightarrow> bool \<times> call_context \<times> 'f"
  proxy_statistics :: "call_context \<Rightarrow> 'f \<Rightarrow> call_context \<times> 'f"
  new_context :: "'f \<Rightarrow> call_context \<times> 'f"
  select_target :: "call_context \<Rightarrow> 'f \<Rightarrow> bool \<times> call_context \<times> 'f"
  add_task :: "'f \<Rightarrow> bool \<times> 'f"
  tp_start :: "thread_pool_option \<Rightarrow> 'f \<Rightarrow> 'f"
  tp_stop :: "'f \<Rightarrow> 'f"
  tp_join :: "'f \<Rightarrow> 'f"
  parse_bind_core :: "string \<Rightarrow> 'f \<Rightarrow> 'f"
  base_set_option :: "'f \<Rightarrow> 'f"
  base_stop :: "'f \<Rightarrow> 'f"
  base_destroy :: "'f \<Rightarrow> 'f"
  service_name :: "'f \<Rightarrow> string"
  format_string :: formatter
  status_to_string :: "status \<Rightarrow> string"
  unknown_error :: status
  failed_future_value :: "unit result"
  client_connect_err :: int

section \<open>State\<close>

text \<open>The fields of \<^verbatim>\<open>ServiceProxyOption\<close> the code reads.\<close>

record service_option =
  so_name :: string
  max_conn_num :: u32
  idle_time :: u64

text \<open>\<open>has_manager\<close>: \<^verbatim>\<open>pool_manager_\<close> is not null. The manager's record also has the store of
  pools and executors, which stays when the manager goes.\<close>

record ('m, 'w, 'f) proxy =
  has_manager :: bool
  mgr :: "('m, 'w) manager"
  thread_pool :: "thread_pool_option option"
  mysql_conf :: MysqlClientConf
  proxy_option :: service_option
  fw :: 'f

definition fw_call ::
  "(call_context \<Rightarrow> 'f \<Rightarrow> 'a \<times> call_context \<times> 'f) \<Rightarrow> call_context \<Rightarrow> ('m, 'w, 'f) proxy \<Rightarrow>
   'a \<times> call_context \<times> ('m, 'w, 'f) proxy" where
  "fw_call f ctx st = (let (a, ctx, w) = f ctx (fw st) in (a, ctx, st\<lparr>fw := w\<rparr>))"

definition fw_do ::
  "(call_context \<Rightarrow> 'f \<Rightarrow> call_context \<times> 'f) \<Rightarrow> call_context \<Rightarrow> ('m, 'w, 'f) proxy \<Rightarrow>
   call_context \<times> ('m, 'w, 'f) proxy" where
  "fw_do f ctx st = (let (ctx, w) = f ctx (fw st) in (ctx, st\<lparr>fw := w\<rparr>))"

definition RunFilters ::
  "'f framework \<Rightarrow> filter_point \<Rightarrow> call_context \<Rightarrow> ('m, 'w, 'f) proxy \<Rightarrow> call_context \<times> ('m, 'w, 'f) proxy" where
  "RunFilters F point ctx st = snd (fw_call (run_filters F point) ctx st)"

text \<open>Operations on the store of executors, and on a pool the manager returned.\<close>

definition psys :: "('m, 'w, 'f) proxy \<Rightarrow> 'w sys" where
  "psys st = msys (mgr st)"

definition put_sys :: "'w sys \<Rightarrow> ('m, 'w, 'f) proxy \<Rightarrow> ('m, 'w, 'f) proxy" where
  "put_sys s st = st\<lparr>mgr := (mgr st)\<lparr>msys := s\<rparr>\<rparr>"

definition get_mgr :: "('m, 'w, 'f) proxy \<Rightarrow> ('m, 'w) manager result" where
  "get_mgr st = (if has_manager st then Inr (mgr st) else Inl Null_dereference)"

definition Get_pool ::
  "'w mysql_api \<Rightarrow> 'm hashmap_api \<Rightarrow> NodeAddr \<Rightarrow> ('m, 'w, 'f) proxy \<Rightarrow> (nat \<times> ('m, 'w, 'f) proxy) result" where
  "Get_pool api H a st =
     bindE (get_mgr st) (\<lambda>m. bindE (mgr_Get api H a m) (\<lambda>(q, m). Inr (q, st\<lparr>mgr := m\<rparr>)))"

definition on_pool ::
  "nat \<Rightarrow> (pool \<Rightarrow> 'w sys \<Rightarrow> ('a \<times> pool \<times> 'w sys) result) \<Rightarrow> ('m, 'w, 'f) proxy \<Rightarrow>
   ('a \<times> ('m, 'w, 'f) proxy) result" where
  "on_pool q f st =
     bindE (get_pool q (mgr st)) (\<lambda>p.
     bindE (f p (psys st)) (\<lambda>(a, p, s).
       Inr (a, st\<lparr>mgr := (mgr st)\<lparr>pools := (pools (mgr st))(q \<mapsto> p), msys := s\<rparr>\<rparr>)))"

definition drop_ref :: "'w mysql_api \<Rightarrow> ptr \<Rightarrow> ('m, 'w, 'f) proxy \<Rightarrow> ('m, 'w, 'f) proxy result" where
  "drop_ref api x st = bindE (ref_drop api x (psys st)) (\<lambda>s. Inr (put_sys s st))"

definition set_status :: "status \<Rightarrow> call_context \<Rightarrow> call_context" where
  "set_status s ctx = ctx\<lparr>ctx_status := s\<rparr>"

section \<open>One call on a connection\<close>

text \<open>What a call runs on its connection: \<^verbatim>\<open>Execute\<close> for \<^verbatim>\<open>OnlyExec\<close>, else \<^verbatim>\<open>QueryAll\<close>.\<close>

type_synonym ('r, 'w) runner = "nat \<Rightarrow> 'r results \<Rightarrow> 'w sys \<Rightarrow> (bool \<times> 'r results \<times> 'w sys) result"

definition run_exec :: "'w mysql_api \<Rightarrow> string \<Rightarrow> input_arg list \<Rightarrow> ('r, 'w) runner" where
  "run_exec api sql_str args conn res s = Execute api conn res sql_str args s"

definition run_typed ::
  "formatter \<Rightarrow> 'w mysql_api \<Rightarrow> out_type list \<Rightarrow> string \<Rightarrow> input_arg list \<Rightarrow> (out_value list, 'w) runner" where
  "run_typed fmt api Ts sql_str args conn res s = QueryAll_typed fmt api conn Ts res sql_str args s"

definition run_native ::
  "formatter \<Rightarrow> (string \<Rightarrow> printf_arg list \<Rightarrow> string) \<Rightarrow> 'w mysql_api \<Rightarrow> string \<Rightarrow> input_arg list \<Rightarrow>
   (view list, 'w) runner" where
  "run_native fmt tfmt api sql_str args conn res s = QueryAll_native fmt tfmt api conn res sql_str args s"

text \<open>The status of a connection that could not be made: the message is read first.\<close>

definition connection_error ::
  "'f framework \<Rightarrow> 'w mysql_api \<Rightarrow> nat \<Rightarrow> ('m, 'w, 'f) proxy \<Rightarrow> status result" where
  "connection_error F api conn st =
     bindE (GetErrorMessage api conn (psys st)) (\<lambda>m.
     bindE (GetErrorNumber api conn (psys st)) (\<lambda>n.
       Inr \<lparr>frame_ret = n, status_msg = format_string F ''service name:{}, connection failed. {}.''
              [FText (service_name F (fw st)), FText m]\<rparr>))"

text \<open>The connection a task uses: the one it was given, or one from the pool of the address.\<close>

definition task_connection ::
  "'w mysql_api \<Rightarrow> 'm hashmap_api \<Rightarrow> NodeAddr \<Rightarrow> ptr \<Rightarrow> ('m, 'w, 'f) proxy \<Rightarrow>
   ((nat option \<times> nat) \<times> ('m, 'w, 'f) proxy) result" where
  "task_connection api H addr executor st =
     (case executor of
        Some r \<Rightarrow> Inr ((None, r), st)
      | None \<Rightarrow>
          bindE (Get_pool api H addr st) (\<lambda>(pool, st).
          bindE (on_pool pool (GetExecutor api) st) (\<lambda>(r, st). Inr ((Some pool, r), st))))"

text \<open>Giving a connection of a pool back, and dropping what the local still refers to.\<close>

definition return_connection ::
  "'w mysql_api \<Rightarrow> nat option \<Rightarrow> nat \<Rightarrow> ('m, 'w, 'f) proxy \<Rightarrow> ('m, 'w, 'f) proxy result" where
  "return_connection api pool conn st =
     (case pool of
        None \<Rightarrow> Inr st
      | Some q \<Rightarrow>
          bindE (on_pool q (Reclaim api 0 (Some conn)) st) (\<lambda>(x, st). drop_ref api x st))"

definition invoke_task ::
  "'f framework \<Rightarrow> 'w mysql_api \<Rightarrow> 'm hashmap_api \<Rightarrow> ('r, 'w) runner \<Rightarrow> ptr \<Rightarrow> call_context \<Rightarrow> 'r results \<Rightarrow>
   ('m, 'w, 'f) proxy \<Rightarrow> (call_context \<times> 'r results \<times> ('m, 'w, 'f) proxy) result" where
  "invoke_task F api H run executor ctx res st =
     bindE (task_connection api H (ctx_addr ctx) executor st) (\<lambda>((pool, conn), st).
     bindE (IsConnected conn (psys st)) (\<lambda>connected.
       if \<not> connected then
         bindE (connection_error F api conn st) (\<lambda>status.
         bindE (if pool = None then Inr st else drop_ref api (Some conn) st) (\<lambda>st.
           Inr (set_status status ctx, res, st)))
       else
         bindE (run conn res (psys st)) (\<lambda>(_, res, s).
         bindE (return_connection api pool conn (put_sys s st)) (\<lambda>st.
           Inr (ctx, res, st)))))"

definition UnaryInvoke ::
  "'f framework \<Rightarrow> 'w mysql_api \<Rightarrow> 'm hashmap_api \<Rightarrow> ('r, 'w) runner \<Rightarrow> ptr \<Rightarrow> call_context \<Rightarrow> 'r results \<Rightarrow>
   ('m, 'w, 'f) proxy \<Rightarrow> (call_context \<times> 'r results \<times> ('m, 'w, 'f) proxy) result" where
  "UnaryInvoke F api H run executor ctx res st =
     (let (timeout, ctx, st) = fw_call (check_timeout F) ctx st in
      if timeout then Inr (ctx, res, st)
      else
        let (filter_ret, ctx, st) = fw_call (run_filters F CLIENT_PRE_SEND_MSG) ctx st in
        if filter_ret \<noteq> 0 then
          let (ctx, st) = fw_do (proxy_statistics F) ctx st;
              (ctx, st) = RunFilters F CLIENT_POST_RECV_MSG ctx st
          in Inr (ctx, res, st)
        else if thread_pool st = None then Inl Null_dereference
        else
          let (accepted, w) = add_task F (fw st); st = st\<lparr>fw := w\<rparr> in
          if \<not> accepted then Inl Diverges
          else
            bindE (invoke_task F api H run executor ctx res st) (\<lambda>(ctx, res, st).
              let ctx = (if OK res then ctx
                         else set_status \<lparr>frame_ret = fst (results_error res),
                                          status_msg = snd (results_error res)\<rparr> ctx);
                  (ctx, st) = fw_do (proxy_statistics F) ctx st;
                  (ctx, st) = RunFilters F CLIENT_POST_RECV_MSG ctx st
              in Inr (ctx, res, st)))"

section \<open>Queries\<close>

definition Query ::
  "'f framework \<Rightarrow> 'w mysql_api \<Rightarrow> 'm hashmap_api \<Rightarrow> ('r, 'w) runner \<Rightarrow> call_context \<Rightarrow> 'r results \<Rightarrow>
   ('m, 'w, 'f) proxy \<Rightarrow> (call_context \<times> 'r results \<times> ('m, 'w, 'f) proxy) result" where
  "Query F api H run ctx res st =
     (let (ctx, st) = fw_do (fill_context F) ctx st;
          (reject, ctx, st) = fw_call (message_filters F CLIENT_PRE_RPC_INVOKE) ctx st
      in bindE (if reject then Inr (ctx, res, st) else UnaryInvoke F api H run None ctx res st)
           (\<lambda>(ctx, res, st).
              let (ctx, st) = RunFilters F CLIENT_POST_RPC_INVOKE ctx st in Inr (ctx, res, st)))"

definition invalid_handle_status :: "'f framework \<Rightarrow> tx \<Rightarrow> status" where
  "invalid_handle_status F hdl =
     \<lparr>frame_ret = TRPC_MYSQL_INVALID_HANDLE,
      status_msg = format_string F ''Invalid transaction state code: {}.''
        [FScalar (Int32 (TxState_code (GetState hdl)))]\<rparr>"

definition lost_status :: "'f framework \<Rightarrow> status" where
  "lost_status F = \<lparr>frame_ret = client_connect_err F, status_msg = ''Connect error. Rollback.''\<rparr>"

text \<open>A query in a transaction. The handle is the object the pointer names; null is \<open>None\<close>.\<close>

definition deref_handle :: "tx option \<Rightarrow> tx result" where
  "deref_handle hdl = (case hdl of None \<Rightarrow> Inl Null_dereference | Some h \<Rightarrow> Inr h)"

definition Query_tx ::
  "'f framework \<Rightarrow> 'w mysql_api \<Rightarrow> 'm hashmap_api \<Rightarrow> ('r, 'w) runner \<Rightarrow> call_context \<Rightarrow> tx option \<Rightarrow>
   'r results \<Rightarrow> ('m, 'w, 'f) proxy \<Rightarrow> (call_context \<times> tx option \<times> 'r results \<times> ('m, 'w, 'f) proxy) result" where
  "Query_tx F api H run ctx hdl res st =
     (let (ctx, st) = fw_do (fill_context F) ctx st;
          (reject, ctx, st) = fw_call (message_filters F CLIENT_PRE_RPC_INVOKE) ctx st
      in bindE
           (if reject then Inr (ctx, hdl, res, st)
            else
              bindE (deref_handle hdl) (\<lambda>h.
                if GetState h \<noteq> kStarted
                then Inr (set_status (invalid_handle_status F h) ctx, hdl, res, st)
                else
                  bindE (deref (GetExecutor_of h)) (\<lambda>r.
                  bindE (CheckAlive api r (psys st)) (\<lambda>(alive, s).
                    if \<not> alive
                    then Inr (set_status (lost_status F) ctx, Some (SetState kRollBacked h), res, put_sys s st)
                    else
                      bindE (UnaryInvoke F api H run (Some r) ctx res (put_sys s st)) (\<lambda>(ctx, res, st).
                        Inr (ctx, hdl, res, st))))))
           (\<lambda>(ctx, hdl, res, st).
              let (ctx, st) = RunFilters F CLIENT_POST_RPC_INVOKE ctx st in Inr (ctx, hdl, res, st)))"

text \<open>\<^verbatim>\<open>Execute\<close> is \<^verbatim>\<open>Query\<close>.\<close>

definition proxy_Execute ::
  "'f framework \<Rightarrow> 'w mysql_api \<Rightarrow> 'm hashmap_api \<Rightarrow> ('r, 'w) runner \<Rightarrow> call_context \<Rightarrow> 'r results \<Rightarrow>
   ('m, 'w, 'f) proxy \<Rightarrow> (call_context \<times> 'r results \<times> ('m, 'w, 'f) proxy) result" where
  "proxy_Execute F api H run ctx res st = Query F api H run ctx res st"

definition proxy_Execute_tx ::
  "'f framework \<Rightarrow> 'w mysql_api \<Rightarrow> 'm hashmap_api \<Rightarrow> ('r, 'w) runner \<Rightarrow> call_context \<Rightarrow> tx option \<Rightarrow>
   'r results \<Rightarrow> ('m, 'w, 'f) proxy \<Rightarrow> (call_context \<times> tx option \<times> 'r results \<times> ('m, 'w, 'f) proxy) result" where
  "proxy_Execute_tx F api H run ctx hdl res st = Query_tx F api H run ctx hdl res st"

section \<open>Transactions\<close>

text \<open>The \<^verbatim>\<open>MysqlResults<OnlyExec>\<close> of a transaction statement, a local variable.\<close>

type_synonym exec_results = "unit results"

definition drop_results :: "'w mysql_api \<Rightarrow> 'r results \<Rightarrow> ('m, 'w, 'f) proxy \<Rightarrow> ('m, 'w, 'f) proxy result" where
  "drop_results api res st = bindE (MysqlResults_destroy api res (psys st)) (\<lambda>s. Inr (put_sys s st))"

text \<open>The address \<^verbatim>\<open>Begin\<close> connects to: that of the context, or one the selector finds. A failed
  selection is \<open>Inl\<close> of its status.\<close>

definition begin_address ::
  "'f framework \<Rightarrow> call_context \<Rightarrow> ('m, 'w, 'f) proxy \<Rightarrow> (status + NodeAddr) \<times> ('m, 'w, 'f) proxy" where
  "begin_address F ctx st =
     (if na_ip (ctx_addr ctx) = [] then
        let (temp_ctx, w) = new_context F (fw st);
            (temp_ctx, st) = fw_do (fill_context F) temp_ctx (st\<lparr>fw := w\<rparr>);
            (found, temp_ctx, st) = fw_call (select_target F) temp_ctx st
        in (if found then Inr (ctx_addr temp_ctx) else Inl (ctx_status temp_ctx), st)
      else (Inr (ctx_addr ctx), st))"

definition started :: "nat \<Rightarrow> tx" where
  "started r = SetState kStarted (fst (snd (SetExecutor (Some r) TransactionHandle_new)))"

text \<open>The old value of the handle is the last reference to it; \<open>None\<close> is the empty handle.\<close>

definition drop_handle :: "'w mysql_api \<Rightarrow> tx option \<Rightarrow> ('m, 'w, 'f) proxy \<Rightarrow> ('m, 'w, 'f) proxy result" where
  "drop_handle api hdl st =
     (case hdl of None \<Rightarrow> Inr st
      | Some h \<Rightarrow> bindE (TransactionHandle_destroy api h (psys st)) (\<lambda>s. Inr (put_sys s st)))"

definition Begin ::
  "'f framework \<Rightarrow> 'w mysql_api \<Rightarrow> 'm hashmap_api \<Rightarrow> call_context \<Rightarrow> tx option \<Rightarrow> ('m, 'w, 'f) proxy \<Rightarrow>
   (call_context \<times> tx option \<times> ('m, 'w, 'f) proxy) result" where
  "Begin F api H ctx hdl st =
     (let (ctx, st) = fw_do (fill_context F) ctx st;
          (reject, ctx, st) = fw_call (message_filters F CLIENT_PRE_RPC_INVOKE) ctx st in
      if reject then
        let (ctx, st) = RunFilters F CLIENT_POST_RPC_INVOKE ctx st in Inr (ctx, hdl, st)
      else
        let res = MysqlResults_new OnlyExec :: exec_results;
            (address, st) = begin_address F ctx st
        in case address of
             Inl failed \<Rightarrow> Inr (set_status failed ctx, hdl, st)
           | Inr node_addr \<Rightarrow>
               bindE (Get_pool api H node_addr st) (\<lambda>(pool, st).
               bindE (on_pool pool (GetExecutor api) st) (\<lambda>(executor, st).
               bindE (IsConnected executor (psys st)) (\<lambda>connected.
               bindE (if \<not> connected
                      then bindE (connection_error F api executor st) (\<lambda>status.
                             Inr (set_status status ctx, res, st))
                      else UnaryInvoke F api H (run_exec api ''begin'' []) (Some executor) ctx res st)
                 (\<lambda>(ctx, res, st).
               bindE (if status_OK (ctx_status ctx)
                      then bindE (drop_handle api hdl st) (\<lambda>st.
                             Inr (Some (started executor), None, st))
                      else Inr (hdl, Some executor, st)) (\<lambda>(hdl, executor, st).
                 let (ctx, st) = RunFilters F CLIENT_POST_RPC_INVOKE ctx st
                 in bindE (drop_ref api executor st) (\<lambda>st.
                    bindE (drop_results api res st) (\<lambda>st.
                      Inr (ctx, hdl, st)))))))))"

definition EndTransaction ::
  "'w mysql_api \<Rightarrow> 'm hashmap_api \<Rightarrow> bool \<Rightarrow> tx option \<Rightarrow> ('m, 'w, 'f) proxy \<Rightarrow>
   (bool \<times> tx option \<times> ('m, 'w, 'f) proxy) result" where
  "EndTransaction api H rollback hdl st =
     bindE (deref_handle hdl) (\<lambda>h.
       let h = SetState (if rollback then kRollBacked else kCommitted) h in
       case GetExecutor_of h of
         None \<Rightarrow> Inr (True, Some h, st)
       | Some r \<Rightarrow>
           bindE (GetIp r (psys st)) (\<lambda>ip.
           bindE (GetPort r (psys st)) (\<lambda>pt.
           bindE (Get_pool api H \<lparr>na_ip = ip, na_port = pt\<rparr> st) (\<lambda>(pool, st).
           bindE (on_pool pool (Reclaim api 0 (Some r)) st) (\<lambda>(x, st).
             Inr (True, Some (TransferExecutor x h), st))))))"

text \<open>\<^verbatim>\<open>Commit\<close> and \<^verbatim>\<open>Rollback\<close> differ in the statement and the flag.\<close>

definition finish_transaction ::
  "'f framework \<Rightarrow> 'w mysql_api \<Rightarrow> 'm hashmap_api \<Rightarrow> string \<Rightarrow> bool \<Rightarrow> call_context \<Rightarrow> tx option \<Rightarrow>
   ('m, 'w, 'f) proxy \<Rightarrow> (call_context \<times> tx option \<times> ('m, 'w, 'f) proxy) result" where
  "finish_transaction F api H sql_str rollback ctx hdl st =
     bindE (proxy_Execute_tx F api H (run_exec api sql_str []) ctx hdl
              (MysqlResults_new OnlyExec :: exec_results) st) (\<lambda>(ctx, hdl, res, st).
     bindE (if \<not> OK res
            then Inr (set_status ((unknown_error F)\<lparr>status_msg := snd (results_error res)\<rparr>) ctx, hdl, st)
            else bindE (EndTransaction api H rollback hdl st) (\<lambda>(_, hdl, st).
                   Inr (ctx, hdl, st))) (\<lambda>(ctx, hdl, st).
     bindE (drop_results api res st) (\<lambda>st. Inr (ctx, hdl, st))))"

definition Commit ::
  "'f framework \<Rightarrow> 'w mysql_api \<Rightarrow> 'm hashmap_api \<Rightarrow> call_context \<Rightarrow> tx option \<Rightarrow> ('m, 'w, 'f) proxy \<Rightarrow>
   (call_context \<times> tx option \<times> ('m, 'w, 'f) proxy) result" where
  "Commit F api H ctx hdl st = finish_transaction F api H ''commit'' False ctx hdl st"

definition Rollback ::
  "'f framework \<Rightarrow> 'w mysql_api \<Rightarrow> 'm hashmap_api \<Rightarrow> call_context \<Rightarrow> tx option \<Rightarrow> ('m, 'w, 'f) proxy \<Rightarrow>
   (call_context \<times> tx option \<times> ('m, 'w, 'f) proxy) result" where
  "Rollback F api H ctx hdl st = finish_transaction F api H ''rollback'' True ctx hdl st"

section \<open>Configuration, start and stop\<close>

definition InitManager ::
  "'m hashmap_api \<Rightarrow> ('m, 'w, 'f) proxy \<Rightarrow> bool \<times> ('m, 'w, 'f) proxy" where
  "InitManager H st =
     (if has_manager st then (False, st)
      else
        let option = proxy_option st; conf = mysql_conf st;
            pool_option = \<lparr>max_size = max_conn_num option, max_idle_time = idle_time option,
              num_shard_group = cf_num_shard_group conf, po_dbname = dbname conf,
              po_username = user_name conf, po_password = cf_password conf,
              po_char_set = cf_char_set conf\<rparr>
        in (True, st\<lparr>has_manager := True,
                     mgr := (mgr st)\<lparr>executor_pools := hm_new H, pools_to_destroy := [],
                                     mgr_option := pool_option\<rparr>\<rparr>))"

definition InitThreadPool :: "'f framework \<Rightarrow> ('m, 'w, 'f) proxy \<Rightarrow> bool \<times> ('m, 'w, 'f) proxy" where
  "InitThreadPool F st =
     (if thread_pool st \<noteq> None then (False, st)
      else
        let conf = mysql_conf st;
            opt = \<lparr>tp_thread_num = thread_num conf, tp_bind_core = thread_bind_core conf \<noteq> []\<rparr>;
            w = parse_bind_core F (thread_bind_core conf) (fw st);
            w = tp_start F opt w;
            w = parse_bind_core F [] w
        in (True, st\<lparr>thread_pool := Some opt, fw := w\<rparr>))"

text \<open>\<^verbatim>\<open>SetConfigFromFile\<close>: \<open>services\<close> are the nodes under \<^verbatim>\<open>client.service\<close>. The last entry with the
  proxy's name counts; one without a name throws.\<close>

fun SetConfigFromFile ::
  "'y yaml_api \<Rightarrow> 'y list \<Rightarrow> ('m, 'w, 'f) proxy \<Rightarrow> ('m, 'w, 'f) proxy result" where
  "SetConfigFromFile Y [] st = Inr st"
| "SetConfigFromFile Y (idx # services) st =
     (case Option.bind (y_get Y idx ''name'') (y_string Y) of
        None \<Rightarrow> Inl Exception_thrown
      | Some name \<Rightarrow>
          if name = so_name (proxy_option st) then
            bindE (case y_get Y idx ''mysql'' of
                     None \<Rightarrow> Inr MysqlClientConf_default | Some node \<Rightarrow> as_conf Y node) (\<lambda>conf.
              SetConfigFromFile Y services (st\<lparr>mysql_conf := conf\<rparr>))
          else SetConfigFromFile Y services st)"

definition SetServiceProxyOptionInner ::
  "'f framework \<Rightarrow> 'm hashmap_api \<Rightarrow> 'y yaml_api \<Rightarrow> 'y list \<Rightarrow> service_option \<Rightarrow> ('m, 'w, 'f) proxy \<Rightarrow>
   ('m, 'w, 'f) proxy result" where
  "SetServiceProxyOptionInner F H Y services option st =
     bindE (SetConfigFromFile Y services (st\<lparr>proxy_option := option, fw := base_set_option F (fw st)\<rparr>)) (\<lambda>st.
       Inr (snd (InitManager H (snd (InitThreadPool F st)))))"

definition need :: "bool \<Rightarrow> unit result" where
  "need ok = (if ok then Inr () else Inl Null_dereference)"

definition proxy_Destroy ::
  "'f framework \<Rightarrow> 'w mysql_api \<Rightarrow> 'm hashmap_api \<Rightarrow> ('m, 'w, 'f) proxy \<Rightarrow> ('m, 'w, 'f) proxy result" where
  "proxy_Destroy F api H st =
     (let st = st\<lparr>fw := base_destroy F (fw st)\<rparr> in
      bindE (need (thread_pool st \<noteq> None)) (\<lambda>_.
      bindE (get_mgr st) (\<lambda>m.
      bindE (mgr_Destroy api H m) (\<lambda>m. Inr (st\<lparr>fw := tp_join F (fw st), mgr := m\<rparr>)))))"

definition proxy_Stop ::
  "'f framework \<Rightarrow> 'w mysql_api \<Rightarrow> 'm hashmap_api \<Rightarrow> ('m, 'w, 'f) proxy \<Rightarrow> ('m, 'w, 'f) proxy result" where
  "proxy_Stop F api H st =
     (let st = st\<lparr>fw := base_stop F (fw st)\<rparr> in
      bindE (need (thread_pool st \<noteq> None)) (\<lambda>_.
      bindE (get_mgr st) (\<lambda>m.
      bindE (mgr_Stop api H m) (\<lambda>m. Inr (st\<lparr>fw := tp_stop F (fw st), mgr := m\<rparr>)))))"

definition SetMysqlConfig ::
  "'f framework \<Rightarrow> 'w mysql_api \<Rightarrow> 'm hashmap_api \<Rightarrow> MysqlClientConf \<Rightarrow> ('m, 'w, 'f) proxy \<Rightarrow>
   ('m, 'w, 'f) proxy result" where
  "SetMysqlConfig F api H conf st =
     (let st = st\<lparr>mysql_conf := conf\<rparr> in
      bindE (need (thread_pool st \<noteq> None)) (\<lambda>_.
      let st = st\<lparr>fw := tp_join F (tp_stop F (fw st)), thread_pool := None\<rparr> in
      bindE (get_mgr st) (\<lambda>m.
      bindE (mgr_Stop api H m) (\<lambda>m.
      bindE (mgr_Destroy api H m) (\<lambda>m.
        let st = st\<lparr>mgr := m, has_manager := False\<rparr>
        in Inr (snd (InitManager H (snd (InitThreadPool F st)))))))))"

end
