(* ===== verification/Pool_Users.thy ===== *)
theory Pool_Users
  imports Service_Proxy
begin

text \<open>
  What the service proxy relies on when it uses the pools of a manager: the blocks of statements
  and results stay as they are, the manager's invariant \<open>manager_ok\<close> is kept by \<^verbatim>\<open>Get\<close>,
  \<^verbatim>\<open>GetExecutor\<close> and \<^verbatim>\<open>Reclaim\<close>, and the contract \<open>connection_user\<close> of what runs on a connection,
  with the lemmas on a task proved under it once.
\<close>

section \<open>Statements and results stay\<close>

definition keeps_blocks :: "'w sys \<Rightarrow> 'w sys \<Rightarrow> bool" where
  "keeps_blocks s t \<longleftrightarrow> stmts t = stmts s \<and> ress t = ress s \<and> next_block s \<le> next_block t"

lemma keeps_blocks_refl [simp]: "keeps_blocks s s"
  by (simp add: keeps_blocks_def)

lemma keeps_blocks_trans: "keeps_blocks s t \<Longrightarrow> keeps_blocks t u \<Longrightarrow> keeps_blocks s u"
  by (auto simp: keeps_blocks_def)

lemma keeps_blocks_upd [simp]:
  "keeps_blocks s (put_exec r e t) = keeps_blocks s t" "keeps_blocks s (t\<lparr>lib := w\<rparr>) = keeps_blocks s t"
  "keeps_blocks s (t\<lparr>mysqls := H\<rparr>) = keeps_blocks s t" "keeps_blocks s (t\<lparr>execs := E\<rparr>) = keeps_blocks s t"
  by (simp_all add: keeps_blocks_def)

lemma keeps_blocks_next: "keeps_blocks s t \<Longrightarrow> next_block t \<le> n \<Longrightarrow> keeps_blocks s (t\<lparr>next_block := n\<rparr>)"
  by (simp add: keeps_blocks_def)

lemma mysql_call_keeps: "mysql_call p f s = Inr (a, t) \<Longrightarrow> keeps_blocks s t"
  by (auto simp: mysql_call_def on_block_Inr)

lemma mysql_close_keeps: "mysql_close api p s = Inr t \<Longrightarrow> keeps_blocks s t"
  by (auto simp: mysql_close_def bindE_Inr_iff use_block_Inr split: option.splits)

lemma mysql_init_keeps: "mysql_init api s = (p, t) \<Longrightarrow> keeps_blocks s t"
  by (auto simp: mysql_init_def keeps_blocks_def Let_def split: prod.splits if_splits)

named_theorems keeps "operations keep the blocks of statements and results"

lemma Close_keeps [keeps]: "Close api r s = Inr t \<Longrightarrow> keeps_blocks s t"
  by (auto simp: Close_def bindE_Inr_iff split: if_splits dest: mysql_close_keeps)

lemma CheckAlive_keeps [keeps]: "CheckAlive api r s = Inr (b, t) \<Longrightarrow> keeps_blocks s t"
  by (auto simp: CheckAlive_def bindE_Inr_iff split: if_splits dest: mysql_call_keeps)

lemma Connect_keeps [keeps]:
  assumes "Connect api r s = Inr (b, t)"
  shows "keeps_blocks s t"
proof -
  obtain e where e: "get_exec r s = Inr e" using assms by (auto simp: Connect_def bindE_Inr_iff)
  show ?thesis
  proof (cases "is_connected e")
    case True
    with assms e show ?thesis by (simp add: Connect_def)
  next
    case False
    obtain p u where u: "(if mysql e = None then mysql_init api s else (mysql e, s)) = (p, u)" by fastforce
    then have su: "keeps_blocks s u" by (auto split: if_splits dest: mysql_init_keeps)
    obtain ret v where v: "mysql_call p (\<lambda>h. c_real_connect api h (conn_option e)) u = Inr (ret, v)"
      using assms e u False by (auto simp: Connect_def bindE_Inr_iff Let_def)
    have sv: "keeps_blocks s v" by (rule keeps_blocks_trans [OF su mysql_call_keeps [OF v]])
    show ?thesis
    proof (cases ret)
      case True
      with assms e u v False sv show ?thesis by (auto simp: Connect_def)
    next
      case ret: False
      with assms e u v False obtain x e' where x: "mysql_close api p v = Inr x" "t = put_exec r e' x"
        by (auto simp: Connect_def bindE_Inr_iff)
      then show ?thesis using keeps_blocks_trans [OF sv mysql_close_keeps [OF x(1)]] by simp
    qed
  qed
qed

lemma MysqlExecutor_new_keeps [keeps]: "MysqlExecutor_new api opt s = Inr (r, t) \<Longrightarrow> keeps_blocks s t"
proof -
  assume new: "MysqlExecutor_new api opt s = Inr (r, t)"
  let ?s = "s\<lparr>next_block := Suc (next_block s)\<rparr>"
  obtain p u where u: "mysql_init api ?s = (p, u)" by fastforce
  have "keeps_blocks s ?s" by (simp add: keeps_blocks_def)
  then have "keeps_blocks s u" using mysql_init_keeps [OF u] keeps_blocks_trans by blast
  with new u show ?thesis
    by (auto simp: MysqlExecutor_new_def bindE_Inr_iff Let_def dest!: mysql_call_keeps
        intro: keeps_blocks_trans)
qed

lemma ref_copy_keeps [keeps]: "ref_copy r s = Inr t \<Longrightarrow> keeps_blocks s t"
  by (auto simp: ref_copy_def bindE_Inr_iff)

lemma ref_drop_keeps [keeps]: "ref_drop api p s = Inr t \<Longrightarrow> keeps_blocks s t"
  by (auto simp: ref_drop_def MysqlExecutor_destroy_def bindE_Inr_iff split: option.splits if_splits
      dest: Close_keeps)

lemma RefreshAliveTime_keeps [keeps]: "RefreshAliveTime api r s = Inr t \<Longrightarrow> keeps_blocks s t"
  by (auto simp: RefreshAliveTime_def bindE_Inr_iff)

lemma SetExecutorId_keeps [keeps]: "SetExecutorId r n s = Inr t \<Longrightarrow> keeps_blocks s t"
  by (auto simp: SetExecutorId_def bindE_Inr_iff)

lemma take_loop_keeps:
  "take_loop api n sh x y p s = Inr (f, x', y', q, t) \<Longrightarrow> keeps_blocks s t"
proof (induction n arbitrary: x y p s)
  case 0
  then show ?case by simp
next
  case (Suc n)
  obtain i where i: "shard_index p sh = Inr i" using Suc.prems by (auto simp: bindE_Inr_iff)
  show ?case
  proof (cases "executor_shards p ! i = []")
    case True
    with Suc.prems i show ?thesis by simp
  next
    case False
    let ?r = "last (executor_shards p ! i)" and ?p = "set_shard i (butlast (executor_shards p ! i)) p"
    obtain s1 where s1: "ref_drop api x s = Inr s1"
      using Suc.prems i False by (auto simp: bindE_Inr_iff Let_def)
    obtain alive s2 where s2: "CheckAlive api ?r s1 = Inr (alive, s2)"
      using Suc.prems i False s1 by (auto simp: bindE_Inr_iff Let_def)
    obtain u where u: "(if alive then IsIdleTimeout api ?p (Some ?r) s2 else Inr True) = Inr u"
      using Suc.prems i False s1 s2 by (auto simp: bindE_Inr_iff Let_def)
    have k: "keeps_blocks s s2" using ref_drop_keeps [OF s1] CheckAlive_keeps [OF s2] keeps_blocks_trans by blast
    show ?thesis
    proof (cases u)
      case False
      with Suc.prems i \<open>executor_shards p ! i \<noteq> []\<close> s1 s2 u k show ?thesis
        by (simp add: Let_def)
    next
      case True
      then obtain s3 s4 s5 where s: "ref_copy ?r s2 = Inr s3" "ref_drop api y s3 = Inr s4"
        "Close api ?r s4 = Inr s5" "take_loop api n sh (Some ?r) (Some ?r) ?p s5 = Inr (f, x', y', q, t)"
        using Suc.prems i False s1 s2 u by (auto simp: bindE_Inr_iff Let_def)
      then show ?thesis
        using Suc.IH [OF s(4)] ref_copy_keeps [OF s(1)] ref_drop_keeps [OF s(2)] Close_keeps [OF s(3)] k
        by (meson keeps_blocks_trans)
    qed
  qed
qed

lemma GetExecutor_keeps: "GetExecutor api p s = Inr (r, q, t) \<Longrightarrow> keeps_blocks s t"
proof -
  assume "GetExecutor api p s = Inr (r, q, t)"
  then obtain f x y p1 s1 where 1:
    "take_loop api EXECUTOR_POOL_CONN_RETRY_NUM (shard_id_gen p) None None
       (p\<lparr>shard_id_gen := shard_id_gen p + 1\<rparr>) s = Inr (f, x, y, p1, s1)"
    and 2: "(case f of Some r \<Rightarrow> bindE (ref_drop api y s1) (\<lambda>s. Inr (r, p1, s))
      | None \<Rightarrow>
          bindE (CreateExecutor api (shard_id_gen p) p1 s1) (\<lambda>(r, p, s).
          bindE (ref_drop api x s) (\<lambda>s.
          bindE (Connect api r s) (\<lambda>(ok, s).
            let p = (if ok then p\<lparr>executor_num := executor_num p + 1\<rparr> else p)
            in bindE (ref_drop api y s) (\<lambda>s. Inr (r, p, s)))))) = Inr (r, q, t)"
    by (auto simp: GetExecutor_def GetOrCreate_def Let_def bindE_Inr_iff)
  have k: "keeps_blocks s s1" by (rule take_loop_keeps [OF 1])
  show ?thesis
  proof (cases f)
    case (Some r')
    with 2 have "ref_drop api y s1 = Inr t" by (auto simp: bindE_Inr_iff)
    with k show ?thesis using ref_drop_keeps keeps_blocks_trans by blast
  next
    case None
    obtain r' p2 s2 where c: "CreateExecutor api (shard_id_gen p) p1 s1 = Inr (r', p2, s2)"
      using 2 None by (auto simp: bindE_Inr_iff)
    obtain s3 where d: "ref_drop api x s2 = Inr s3" using 2 None c by (auto simp: bindE_Inr_iff)
    obtain ok s4 where e: "Connect api r' s3 = Inr (ok, s4)" using 2 None c d by (auto simp: bindE_Inr_iff)
    have g: "ref_drop api y s4 = Inr t" using 2 None c d e by (auto simp: bindE_Inr_iff Let_def)
    have "keeps_blocks s1 s2"
      using c by (auto simp: CreateExecutor_def Let_def bindE_Inr_iff
          dest!: MysqlExecutor_new_keeps SetExecutorId_keeps elim: keeps_blocks_trans)
    with k ref_drop_keeps [OF d] Connect_keeps [OF e] ref_drop_keeps [OF g] show ?thesis
      by (meson keeps_blocks_trans)
  qed
qed

lemma Reclaim_keeps: "Reclaim api ret x p s = Inr (y, q, t) \<Longrightarrow> keeps_blocks s t"
  by (auto simp: Reclaim_def Let_def bindE_Inr_iff split: if_splits
      dest: Close_keeps RefreshAliveTime_keeps)

section \<open>The manager\<close>

text \<open>\<open>manager_ok H U m\<close>: the invariant of the pools, \<open>U\<close> being the executors in use; every pool of
  the map exists under its key; blocks in use are below the next one.\<close>

definition manager_ok :: "'m hashmap_api \<Rightarrow> nat set \<Rightarrow> ('m, 'w) manager \<Rightarrow> bool" where
  "manager_ok H U m \<longleftrightarrow>
     mgr_ok U m \<and> num_shard_group (mgr_option m) \<noteq> 0 \<and>
     (\<forall>k q. map_of_mgr H m k = Some q \<longrightarrow> (\<exists>p. pools m q = Some p \<and> endpoint_key (target p) = k)) \<and>
     (\<forall>q \<in> dom (pools m). q < next_block (msys m)) \<and>
     (\<forall>b \<in> stmts (msys m) \<union> ress (msys m). b < next_block (msys m))"

lemma manager_okD:
  assumes "manager_ok H U m"
  shows "mgr_ok U m" and "num_shard_group (mgr_option m) \<noteq> 0"
    and "map_of_mgr H m k = Some q \<Longrightarrow> \<exists>p. pools m q = Some p \<and> endpoint_key (target p) = k"
    and "pools m q = Some p \<Longrightarrow> q < next_block (msys m)"
    and "b \<in> stmts (msys m) \<union> ress (msys m) \<Longrightarrow> b < next_block (msys m)"
  using assms unfolding manager_ok_def by blast+

lemma mgr_ok_held: "mgr_ok U m \<Longrightarrow> held U (msys m)"
  unfolding mgr_ok_def by (blast intro: held_subset)

text \<open>A pool of a manager and the executors were changed together.\<close>

lemma mgr_ok_update:
  assumes ok: "mgr_ok U m" and q: "pools m q = Some p" and inv: "pool_inv (V \<union> others {} m q) p' s'"
    and disj: "V \<inter> others {} m q = {}"
  shows "mgr_ok V (m\<lparr>pools := (pools m)(q \<mapsto> p'), msys := s'\<rparr>)" (is "mgr_ok V ?m")
proof -
  have at: "pooled_at ?m x = (if x = q then pooled p' else pooled_at m x)" for x
    by (simp add: pooled_at_def)
  have o: "others {} ?m q = others {} m q" by (simp add: others_def at)
  have I: "shards_ok p'" "(V \<union> others {} m q) \<inter> pooled p' = {}" "held (V \<union> others {} m q \<union> pooled p') s'"
    using inv by (simp_all add: pool_inv_held)
  have all: "(\<Union>x. pooled_at ?m x) = others {} m q \<union> pooled p'" by (auto simp: at others_def split: if_splits)
  have "held (V \<union> (\<Union>x. pooled_at ?m x)) (msys ?m)" unfolding all using I(3) by (simp add: Un_assoc)
  moreover have "shards_ok px \<and> others V ?m x \<inter> pooled px = {}" if px: "pools ?m x = Some px" for x px
  proof (cases "x = q")
    case True
    have "others V ?m q = V \<union> others {} m q" using o by (auto simp: others_def)
    with True px I(1,2) show ?thesis by simp
  next
    case False
    then have old: "pools m x = Some px" using px by simp
    have "shards_ok px" "others U m x \<inter> pooled px = {}" using ok old unfolding mgr_ok_def by blast+
    moreover have "others V ?m x \<subseteq> V \<union> pooled p' \<union> others U m x"
      by (auto simp: others_def at split: if_splits)
    moreover have "pooled px \<subseteq> others {} m q" using old False by (auto simp: others_def pooled_at_def)
    ultimately show ?thesis using I(2) disj by blast
  qed
  ultimately show ?thesis unfolding mgr_ok_def by blast
qed

text \<open>What is known of the pools when one of them is used.\<close>

lemma others_Un: "others U m q = U \<union> others {} m q"
  by (auto simp: others_def)

lemma mgr_ok_disjoint: "mgr_ok U m \<Longrightarrow> U \<inter> pooled_at m q = {}"
  by (auto simp: mgr_ok_def others_def pooled_at_def split: option.splits)

lemma held_next_block: "held R s \<Longrightarrow> held R (s\<lparr>next_block := Suc (next_block s)\<rparr>)"
  by (auto simp: held_def wf_on_def single_refs_def intro: less_SucI)

lemma pool_new_empty:
  assumes "num_shard_group opt \<noteq> 0"
  obtains p where "pool_new opt a = Inr p" and "shards_ok p" and "pooled p = {}" and "target p = a"
    and "concat (executor_shards p) = []" and "pool_option p = opt"
  using assms
  by (auto simp: pool_new_def shards_ok_def pooled_def)

text \<open>\<^verbatim>\<open>Get\<close>: it returns a pool under the key of the address, and no executor changes.\<close>

lemma mgr_Get_ok:
  assumes H: "hashmap_laws H" and ok: "manager_ok H U m"
  obtains q m' p where "mgr_Get api H a m = Inr (q, m')" and "manager_ok H U m'"
    and "pools m' q = Some p" and "endpoint_key (target p) = endpoint_key a"
    and "execs (msys m') = execs (msys m)" and "lib (msys m') = lib (msys m)"
    and "mysqls (msys m') = mysqls (msys m)" and "keeps_blocks (msys m) (msys m')"
    and "pooled_at m' = pooled_at m" and "mgr_option m' = mgr_option m"
    and "map_of_mgr H m (endpoint_key a) = Some q \<Longrightarrow> m' = m"
    and "pools m q = None \<or> map_of_mgr H m (endpoint_key a) = Some q"
proof (cases "map_of_mgr H m (endpoint_key a)")
  case (Some q)
  then obtain p where "pools m q = Some p" "endpoint_key (target p) = endpoint_key a"
    using manager_okD(3) [OF ok] by blast
  with Some ok show thesis by (intro that [of q m p]) (simp_all add: mgr_Get_hit)
next
  case None
  note D = manager_okD [OF ok]
  let ?n = "next_block (msys m)" and ?s = "(msys m)\<lparr>next_block := Suc (next_block (msys m))\<rparr>"
  obtain p where p: "pool_new (mgr_option m) a = Inr p" "shards_ok p" "pooled p = {}" "target p = a"
    "concat (executor_shards p) = []" by (rule pool_new_empty [OF D(2)])
  obtain f e where ins: "hm_get_or_insert H (endpoint_key a) ?n (executor_pools m) = (f, e)" by fastforce
  note G = hashmap_get_or_insert [OF H ins]
  have f: "f = None" using G(1) None by (simp add: map_of_mgr_def)
  let ?m = "m\<lparr>executor_pools := e, pools := (pools m)(?n \<mapsto> p), msys := ?s\<rparr>"
  have get: "mgr_Get api H a m = Inr (?n, ?m)"
    using None p(1) ins f
    by (simp add: mgr_Get_def Get_lookup_def map_of_mgr_def CreateExecutorPool_def Get_insert_def Let_def)
  have new: "pools m ?n = None" using D(4) [of ?n] by (cases "pools m ?n") auto
  have at: "pooled_at ?m = pooled_at m" using new p(3) by (auto simp: pooled_at_def fun_eq_iff)
  have oth: "others U ?m = others U m" by (simp add: others_def at fun_eq_iff)
  have "mgr_ok U ?m"
    using D(1) held_next_block [of _ "msys m"] p(2,3) by (auto simp: mgr_ok_def oth at)
  moreover have map': "map_of_mgr H ?m = (map_of_mgr H m)(endpoint_key a \<mapsto> ?n)"
    using G(2) None by (simp add: map_of_mgr_def fun_eq_iff)
  have "\<exists>p'. pools ?m q = Some p' \<and> endpoint_key (target p') = k" if mk: "map_of_mgr H ?m k = Some q" for k q
  proof (cases "k = endpoint_key a")
    case True
    with mk p(4) show ?thesis by (simp add: map')
  next
    case False
    then obtain p' where "pools m q = Some p'" "endpoint_key (target p') = k" using mk D(3) [of k q] map' by auto
    with new show ?thesis by auto
  qed
  moreover have "\<forall>q \<in> dom (pools ?m). q < next_block (msys ?m)" using D(4) by (auto intro: less_SucI)
  moreover have "\<forall>b \<in> stmts (msys ?m) \<union> ress (msys ?m). b < next_block (msys ?m)"
    using D(5) by (auto intro: less_SucI)
  ultimately have "manager_ok H U ?m" using D(2) unfolding manager_ok_def by simp
  then show thesis
    by (intro that [of ?n ?m p, OF get]) (use p at None new in \<open>simp_all add: keeps_blocks_def\<close>)
qed

section \<open>Getting and giving back a connection\<close>

text \<open>\<^verbatim>\<open>GetExecutor\<close> on a pool of the manager: a connected executor joins the ones in use; a refused
  one is outside, with a dangling handle.\<close>

lemma GetExecutor_manager:
  assumes ok: "manager_ok H U m" and q: "pools m q = Some p" and oom: "no_oom api"
  obtains r p' s where "GetExecutor api p (msys m) = Inr (r, p', s)" and "r \<notin> U" and "same_on U (msys m) s"
    and "keeps_blocks (msys m) s"
    and "connected s r \<Longrightarrow> manager_ok H (insert r U) (m\<lparr>pools := (pools m)(q \<mapsto> p'), msys := s\<rparr>)"
    and "\<not> connected s r \<Longrightarrow> manager_ok H U (m\<lparr>pools := (pools m)(q \<mapsto> p'), msys := s\<rparr>)"
    and "\<not> connected s r \<Longrightarrow> (\<exists>h. handle s r = Some h \<and> h \<notin> mysqls s)"
    and "target p' = target p"
proof -
  note D = manager_okD [OF ok]
  let ?O = "others {} m q"
  have inv: "pool_inv (U \<union> ?O) p (msys m)" using mgr_ok_pool [OF D(1) q] by (simp add: others_Un [of U])
  obtain r p' s where g: "GetExecutor api p (msys m) = Inr (r, p', s)" "leased api (U \<union> ?O) p (msys m) (r, p', s)"
    using GetOrCreate_spec [OF inv oom] by (auto simp: GetExecutor_def)
  have L: "r \<notin> U \<union> ?O" "same_on (U \<union> ?O) (msys m) s" "target p' = target p"
    using g(2) by (auto simp: leased_def)
  have k: "keeps_blocks (msys m) s" by (rule GetExecutor_keeps [OF g(1)])
  let ?m = "m\<lparr>pools := (pools m)(q \<mapsto> p'), msys := s\<rparr>"
  have rest: "manager_ok H V ?m" if "mgr_ok V ?m" for V
  proof -
    have "\<exists>x. pools ?m y = Some x \<and> endpoint_key (target x) = kk" if mp: "map_of_mgr H ?m kk = Some y" for kk y
    proof -
      obtain x where "pools m y = Some x" "endpoint_key (target x) = kk"
        using D(3) [of kk y] mp by (auto simp: map_of_mgr_def)
      then show ?thesis using L(3) q by auto
    qed
    with that D(2,4,5) k q show ?thesis
      unfolding manager_ok_def keeps_blocks_def by (auto intro: less_le_trans)
  qed
  have disj: "U \<inter> ?O = {}" using mgr_ok_disjoint [OF D(1)] by (auto simp: others_def)
  have c: "manager_ok H (insert r U) ?m" if "connected s r"
  proof (rule rest, rule mgr_ok_update [OF D(1) q])
    show "pool_inv (insert r U \<union> ?O) p' s" using g(2) that by (simp add: leased_def)
    show "insert r U \<inter> ?O = {}" using disj L(1) by blast
  qed
  have nc: "manager_ok H U ?m" "\<exists>h. handle s r = Some h \<and> h \<notin> mysqls s" if "\<not> connected s r"
  proof -
    show "manager_ok H U ?m"
      by (rule rest, rule mgr_ok_update [OF D(1) q _ disj]) (use g(2) that in \<open>simp add: leased_def\<close>)
    show "\<exists>h. handle s r = Some h \<and> h \<notin> mysqls s" using g(2) that by (simp add: leased_def)
  qed
  show thesis
    by (rule that [OF g(1) _ _ k]) (use L c nc same_on_subset [OF L(2)] in auto)
qed

text \<open>\<^verbatim>\<open>Reclaim\<close> of an executor in use: it is in the pool, or disconnected and still the user's.\<close>

lemma Reclaim_manager:
  assumes ok: "manager_ok H U m" and q: "pools m q = Some p" and r: "r \<in> U"
  obtains x p' s where "Reclaim api ret (Some r) p (msys m) = Inr (x, p', s)" and "same_on (U - {r}) (msys m) s"
    and "keeps_blocks (msys m) s"
    and "x = None \<Longrightarrow> manager_ok H (U - {r}) (m\<lparr>pools := (pools m)(q \<mapsto> p'), msys := s\<rparr>) \<and> r \<in> pooled p'"
    and "x = None \<Longrightarrow> lib s = lib (msys m) \<and> connected s = connected (msys m)"
    and "target p' = target p"
    and "x \<noteq> None \<Longrightarrow> x = Some r \<and> manager_ok H U (m\<lparr>pools := (pools m)(q \<mapsto> p'), msys := s\<rparr>) \<and> \<not> connected s r"
proof -
  note D = manager_okD [OF ok]
  let ?O = "others {} m q"
  have inv: "pool_inv (U \<union> ?O) p (msys m)" using mgr_ok_pool [OF D(1) q] by (simp add: others_Un [of U])
  obtain x p' s where g: "Reclaim api ret (Some r) p (msys m) = Inr (x, p', s)"
    "returned (U \<union> ?O) r p (msys m) (x, p', s)"
    using Reclaim_spec [OF inv, of r api ret] r by auto
  have t: "target p' = target p"
    using g(1) by (auto simp: Reclaim_def Let_def bindE_Inr_iff split: if_splits)
  have disj: "U \<inter> ?O = {}" using mgr_ok_disjoint [OF D(1)] by (auto simp: others_def)
  then have rO: "r \<notin> ?O" using r by blast
  have k: "keeps_blocks (msys m) s" by (rule Reclaim_keeps [OF g(1)])
  let ?m = "m\<lparr>pools := (pools m)(q \<mapsto> p'), msys := s\<rparr>"
  have rest: "manager_ok H V ?m" if "mgr_ok V ?m" for V
  proof -
    have "\<exists>x. pools ?m y = Some x \<and> endpoint_key (target x) = kk" if mp: "map_of_mgr H ?m kk = Some y" for kk y
      using D(3) [of kk y] mp t q by (auto simp: map_of_mgr_def)
    with that D(2,4,5) k q show ?thesis
      unfolding manager_ok_def keeps_blocks_def by (auto intro: less_le_trans)
  qed
  have a: "manager_ok H (U - {r}) ?m \<and> r \<in> pooled p'" if "x = None"
  proof -
    have "(U \<union> ?O) - {r} = (U - {r}) \<union> ?O" using rO by blast
    then have "pool_inv (U - {r} \<union> ?O) p' s" "pooled p' = insert r (pooled p)"
      using g(2) that by (simp_all add: returned_def)
    with disj show ?thesis using rest [OF mgr_ok_update [OF D(1) q]] by auto
  qed
  have b: "x = Some r \<and> manager_ok H U ?m \<and> \<not> connected s r" if "x \<noteq> None"
  proof -
    have "x = Some r" "pool_inv (U \<union> ?O) p' s" "\<not> connected s r" using g(2) that by (auto simp: returned_def)
    with disj show ?thesis using rest [OF mgr_ok_update [OF D(1) q]] by blast
  qed
  have same: "same_on (U - {r}) (msys m) s" using g(2) by (auto simp: returned_def intro: same_on_subset)
  have l: "lib s = lib (msys m) \<and> connected s = connected (msys m)" if "x = None"
    using g(1) that
    by (auto simp: Reclaim_def RefreshAliveTime_def Let_def bindE_Inr_iff get_exec_Inr connected_def fun_eq_iff
        deref_def split: if_splits)
  show thesis by (rule that [OF g(1) same k]) (use a b l t in blast)+
qed

text \<open>Dropping the last reference to a disconnected executor.\<close>

lemma held_delete:
  assumes "held R s" and "r \<notin> R'" and "R' \<subseteq> R"
  shows "held R' (s\<lparr>execs := (execs s)(r := None)\<rparr>)"
  using assms wf_on_delete [of R' s r] held_subset [of R s R']
  by (auto simp: held_def single_refs_def)

lemma drop_manager:
  assumes ok: "manager_ok H U m" and r: "r \<in> U" and c: "\<not> connected (msys m) r"
  obtains s where "ref_drop api (Some r) (msys m) = Inr s" and "manager_ok H (U - {r}) (m\<lparr>msys := s\<rparr>)"
    and "same_on (U - {r}) (msys m) s" and "keeps_blocks (msys m) s"
proof -
  note D = manager_okD [OF ok]
  obtain e where e: "execs (msys m) r = Some e" "refcount e = 1"
    using held_refcount [OF mgr_ok_held [OF D(1)] r] by blast
  let ?s = "(msys m)\<lparr>execs := (execs (msys m))(r := None)\<rparr>" and ?m = "m\<lparr>msys := (msys m)\<lparr>execs := (execs (msys m))(r := None)\<rparr>\<rparr>"
  have d: "ref_drop api (Some r) (msys m) = Inr ?s" by (rule ref_drop_last [OF e(1)]) (use e c in simp_all)
  have at: "pooled_at ?m = pooled_at m" by (simp add: pooled_at_def fun_eq_iff)
  have out: "r \<notin> pooled_at m x" for x using mgr_ok_disjoint [OF D(1), of x] r by blast
  have "held (U - {r} \<union> (\<Union>x. pooled_at m x)) ?s"
    by (rule held_delete [of "U \<union> (\<Union>x. pooled_at m x)"]) (use D(1) out in \<open>auto simp: mgr_ok_def\<close>)
  moreover have "others (U - {r}) ?m x \<subseteq> others U m x" for x by (auto simp: others_def at)
  ultimately have "mgr_ok (U - {r}) ?m" using D(1) unfolding mgr_ok_def by (auto simp: at; blast)
  moreover have "map_of_mgr H ?m = map_of_mgr H m" by (simp add: map_of_mgr_def fun_eq_iff)
  ultimately have "manager_ok H (U - {r}) ?m" using ok unfolding manager_ok_def by simp
  with d show thesis by (rule that) (simp_all add: same_on_def)
qed

text \<open>The executors stay as they are, and the allocator goes on.\<close>

lemma manager_ok_run:
  assumes ok: "manager_ok H U m" and "execs t = execs (msys m)" and "mysqls t = mysqls (msys m)"
    and "next_block (msys m) \<le> next_block t" and "\<forall>b \<in> stmts t \<union> ress t. b < next_block t"
  shows "manager_ok H U (m\<lparr>msys := t\<rparr>)"
proof -
  note D = manager_okD [OF ok]
  let ?m = "m\<lparr>msys := t\<rparr>"
  have at: "pooled_at ?m = pooled_at m" "others V ?m = others V m" for V
    by (simp_all add: pooled_at_def others_def fun_eq_iff)
  have "held R t" if "held R (msys m)" for R
    using that assms(2-4)
    by (auto simp: held_def wf_on_def single_refs_def handle_def connected_def intro: less_le_trans)
  then have "mgr_ok U ?m" using D(1) unfolding mgr_ok_def by (simp add: at)
  moreover have "map_of_mgr H ?m = map_of_mgr H m" by (simp add: map_of_mgr_def fun_eq_iff)
  moreover have "\<forall>q \<in> dom (pools ?m). q < next_block (msys ?m)" using D(4) assms(4) by (auto intro: less_le_trans)
  ultimately show ?thesis using ok assms(5) unfolding manager_ok_def by simp
qed

end
