(* ===== verification/Proxy_Async.thy ===== *)
theory Proxy_Async
  imports Service_Proxy
begin

text \<open>
  The asynchronous calls of \<^verbatim>\<open>mysql_service_proxy.{h,cc}\<close>. A future is seen after the task and its
  continuations ran: ready, failed with the message of its exception, or never completed.
  Moving results into a promise or out of a future is \<^verbatim>\<open>MysqlResults\<close>' move constructor.
\<close>

section \<open>Futures\<close>

datatype 'a future = Ready 'a | Failed string | Pending

text \<open>\<^verbatim>\<open>Then\<close> with a continuation that has effects; it does not run on a future that never
  completes.\<close>

definition and_then ::
  "'a future \<Rightarrow> ('a + string \<Rightarrow> 's \<Rightarrow> ('b future \<times> 's) result) \<Rightarrow> 's \<Rightarrow> ('b future \<times> 's) result" where
  "and_then fut f s =
     (case fut of Ready x \<Rightarrow> f (Inl x) s | Failed m \<Rightarrow> f (Inr m) s | Pending \<Rightarrow> Inr (Pending, s))"

text \<open>The state of an asynchronous call: the context, the handle if there is one, the proxy.\<close>

type_synonym ('m, 'w, 'f) async_state = "call_context \<times> tx option \<times> ('m, 'w, 'f) proxy"

definition async_filters ::
  "'f framework \<Rightarrow> filter_point \<Rightarrow> ('m, 'w, 'f) async_state \<Rightarrow> ('m, 'w, 'f) async_state" where
  "async_filters F point a =
     (let (ctx, hdl, st) = a; (ctx, st) = RunFilters F point ctx st in (ctx, hdl, st))"

section \<open>The call\<close>

text \<open>The task: what it leaves in the promise.\<close>

definition async_task ::
  "'f framework \<Rightarrow> 'w mysql_api \<Rightarrow> 'm hashmap_api \<Rightarrow> ('r, 'w) runner \<Rightarrow> MysqlResultsMode \<Rightarrow> ptr \<Rightarrow>
   call_context \<Rightarrow> ('m, 'w, 'f) proxy \<Rightarrow> ('r results future \<times> call_context \<times> ('m, 'w, 'f) proxy) result" where
  "async_task F api H run m executor ctx st =
     bindE (task_connection api H (ctx_addr ctx) executor st) (\<lambda>((pool, conn), st).
     bindE (IsConnected conn (psys st)) (\<lambda>connected.
       if \<not> connected then
         bindE (connection_error F api conn st) (\<lambda>status.
         bindE (if pool = None then Inr st else drop_ref api (Some conn) st) (\<lambda>st.
           Inr (Failed (status_msg status), set_status status ctx, st)))
       else
         bindE (run conn (MysqlResults_new m) (psys st)) (\<lambda>(_, res, s).
         bindE (return_connection api pool conn (put_sys s st)) (\<lambda>st.
           let (ctx, st) = fw_do (proxy_statistics F) ctx st
           in if OK res then Inr (Ready (fst (MysqlResults_move res)), ctx, st)
              else bindE (drop_results api res st) (\<lambda>st.
                     Inr (Failed (snd (results_error res)), ctx, st))))))"

text \<open>The lambda of the task has a reference of its own to the executor it was given: \<open>capture\<close> takes it when
  the task is handed over, and it is dropped when the task has run and the lambda is destroyed.\<close>

definition capture :: "ptr \<Rightarrow> ('m, 'w, 'f) proxy \<Rightarrow> ('m, 'w, 'f) proxy result" where
  "capture executor st =
     (case executor of None \<Rightarrow> Inr st
      | Some r \<Rightarrow> bindE (ref_copy r (psys st)) (\<lambda>s. Inr (put_sys s st)))"

definition run_task ::
  "'f framework \<Rightarrow> 'w mysql_api \<Rightarrow> 'm hashmap_api \<Rightarrow> ('r, 'w) runner \<Rightarrow> MysqlResultsMode \<Rightarrow> ptr \<Rightarrow>
   call_context \<Rightarrow> ('m, 'w, 'f) proxy \<Rightarrow> ('r results future \<times> call_context \<times> ('m, 'w, 'f) proxy) result" where
  "run_task F api H run m executor ctx st =
     bindE (async_task F api H run m executor ctx st) (\<lambda>(fut, ctx, st).
     bindE (drop_ref api executor st) (\<lambda>st. Inr (fut, ctx, st)))"

lemma capture_None [simp]: "capture None st = Inr st"
  by (simp add: capture_def)

lemma drop_ref_None: "drop_ref api None st = Inr st"
  by (simp add: drop_ref_def ref_drop_def put_sys_def psys_def)

lemma run_task_None [simp]: "run_task F api H run m None ctx st = async_task F api H run m None ctx st"
  by (cases "async_task F api H run m None ctx st") (auto simp: run_task_def drop_ref_None)

definition AsyncUnaryInvoke ::
  "'f framework \<Rightarrow> 'w mysql_api \<Rightarrow> 'm hashmap_api \<Rightarrow> ('r, 'w) runner \<Rightarrow> MysqlResultsMode \<Rightarrow> ptr \<Rightarrow>
   ('m, 'w, 'f) async_state \<Rightarrow> ('r results future \<times> ('m, 'w, 'f) async_state) result" where
  "AsyncUnaryInvoke F api H run m executor a =
     (let (ctx, hdl, st) = a;
          (timeout, ctx, st) = fw_call (check_timeout F) ctx st in
      if timeout then Inr (Failed (status_msg (ctx_status ctx)), ctx, hdl, st)
      else
        let (filter_ret, ctx, st) = fw_call (run_filters F CLIENT_PRE_SEND_MSG) ctx st in
        if filter_ret \<noteq> 0 then
          let (ctx, st) = RunFilters F CLIENT_POST_RECV_MSG ctx st;
              (ctx, st) = RunFilters F CLIENT_POST_RPC_INVOKE ctx st
          in Inr (Failed (status_msg (ctx_status ctx)), ctx, hdl, st)
        else if thread_pool st = None then Inl Null_dereference
        else
          let (accepted, w) = add_task F (fw st); st = st\<lparr>fw := w\<rparr> in
          bindE (if accepted then bindE (capture executor st) (run_task F api H run m executor ctx)
                 else Inr (Pending, ctx, st))
            (\<lambda>(fut, ctx, st).
               and_then fut
                 (\<lambda>f a. let a = async_filters F CLIENT_POST_RECV_MSG a
                        in case f of Inr msg \<Rightarrow> Inr (Failed msg, a)
                           | Inl res \<Rightarrow> Inr (Ready (fst (MysqlResults_move res)), a))
                 (ctx, hdl, st)))"

text \<open>The continuation of both \<^verbatim>\<open>AsyncQuery\<close>.\<close>

definition post_invoke ::
  "'f framework \<Rightarrow> 'r results future \<Rightarrow> ('m, 'w, 'f) async_state \<Rightarrow>
   ('r results future \<times> ('m, 'w, 'f) async_state) result" where
  "post_invoke F fut a =
     and_then fut
       (\<lambda>f a. let a = async_filters F CLIENT_POST_RPC_INVOKE a
              in case f of Inr msg \<Rightarrow> Inr (Failed msg, a)
                 | Inl res \<Rightarrow> Inr (Ready (fst (MysqlResults_move res)), a)) a"

text \<open>The start of every asynchronous call: the filters before the call may reject it.\<close>

definition async_enter ::
  "'f framework \<Rightarrow> call_context \<Rightarrow> ('m, 'w, 'f) proxy \<Rightarrow> bool \<times> call_context \<times> ('m, 'w, 'f) proxy" where
  "async_enter F ctx st =
     (let (ctx, st) = fw_do (fill_context F) ctx st
      in fw_call (message_filters F CLIENT_PRE_RPC_INVOKE) ctx st)"

definition async_reject ::
  "'f framework \<Rightarrow> string \<Rightarrow> call_context \<Rightarrow> tx option \<Rightarrow> ('m, 'w, 'f) proxy \<Rightarrow>
   ('a future \<times> ('m, 'w, 'f) async_state) result" where
  "async_reject F msg ctx hdl st =
     (let (_, ctx, st) = fw_call (message_filters F CLIENT_POST_RPC_INVOKE) ctx st
      in Inr (Failed msg, ctx, hdl, st))"

definition AsyncQuery ::
  "'f framework \<Rightarrow> 'w mysql_api \<Rightarrow> 'm hashmap_api \<Rightarrow> ('r, 'w) runner \<Rightarrow> MysqlResultsMode \<Rightarrow> call_context \<Rightarrow>
   ('m, 'w, 'f) proxy \<Rightarrow> ('r results future \<times> ('m, 'w, 'f) async_state) result" where
  "AsyncQuery F api H run m ctx st =
     (let (reject, ctx, st) = async_enter F ctx st in
      if reject then async_reject F (status_msg (ctx_status ctx)) ctx None st
      else bindE (AsyncUnaryInvoke F api H run m None (ctx, None, st)) (\<lambda>(fut, a). post_invoke F fut a))"

definition AsyncExecute ::
  "'f framework \<Rightarrow> 'w mysql_api \<Rightarrow> 'm hashmap_api \<Rightarrow> ('r, 'w) runner \<Rightarrow> MysqlResultsMode \<Rightarrow> call_context \<Rightarrow>
   ('m, 'w, 'f) proxy \<Rightarrow> ('r results future \<times> ('m, 'w, 'f) async_state) result" where
  "AsyncExecute F api H run m ctx st = AsyncQuery F api H run m ctx st"

section \<open>Transactions\<close>

definition AsyncQuery_tx ::
  "'f framework \<Rightarrow> 'w mysql_api \<Rightarrow> 'm hashmap_api \<Rightarrow> ('r, 'w) runner \<Rightarrow> MysqlResultsMode \<Rightarrow> call_context \<Rightarrow>
   tx option \<Rightarrow> ('m, 'w, 'f) proxy \<Rightarrow> ('r results future \<times> ('m, 'w, 'f) async_state) result" where
  "AsyncQuery_tx F api H run m ctx hdl st =
     (let (reject, ctx, st) = async_enter F ctx st in
      if reject then async_reject F (status_msg (ctx_status ctx)) ctx hdl st
      else
        bindE (deref_handle hdl) (\<lambda>h.
          if GetState h \<noteq> kStarted then
            async_reject F ''Invalid handle.''
              (set_status \<lparr>frame_ret = TRPC_MYSQL_INVALID_HANDLE, status_msg = ''Invalid handle.''\<rparr> ctx) hdl st
          else
            bindE (deref (GetExecutor_of h)) (\<lambda>r.
            bindE (CheckAlive api r (psys st)) (\<lambda>(alive, s).
              let st = put_sys s st in
              if \<not> alive then
                async_reject F ''Connect error. Rollback.'' (set_status (lost_status F) ctx)
                  (Some (SetState kRollBacked h)) st
              else
                bindE (AsyncUnaryInvoke F api H run m (Some r) (ctx, hdl, st)) (\<lambda>(fut, a).
                  post_invoke F fut a)))))"

definition AsyncExecute_tx ::
  "'f framework \<Rightarrow> 'w mysql_api \<Rightarrow> 'm hashmap_api \<Rightarrow> ('r, 'w) runner \<Rightarrow> MysqlResultsMode \<Rightarrow> call_context \<Rightarrow>
   tx option \<Rightarrow> ('m, 'w, 'f) proxy \<Rightarrow> ('r results future \<times> ('m, 'w, 'f) async_state) result" where
  "AsyncExecute_tx F api H run m ctx hdl st = AsyncQuery_tx F api H run m ctx hdl st"

text \<open>The address of \<^verbatim>\<open>AsyncBegin\<close> is found as in \<^verbatim>\<open>Begin\<close>. The references the continuation captured
  are dropped with it: into the new handle, or for good.\<close>

definition begin_then ::
  "'w mysql_api \<Rightarrow> nat \<Rightarrow> unit results future \<Rightarrow> ('m, 'w, 'f) async_state \<Rightarrow>
   (tx future \<times> ('m, 'w, 'f) async_state) result" where
  "begin_then api executor fut a =
     (case fut of
        Ready res \<Rightarrow> Inr (Ready (started executor), a)
      | Failed msg \<Rightarrow>
          (case a of (ctx, hdl, st) \<Rightarrow>
             bindE (drop_ref api (Some executor) st) (\<lambda>st. Inr (Failed msg, ctx, hdl, st)))
      | Pending \<Rightarrow>
          (case a of (ctx, hdl, st) \<Rightarrow>
             bindE (drop_ref api (Some executor) st) (\<lambda>st. Inr (Pending, ctx, hdl, st))))"

definition AsyncBegin ::
  "'f framework \<Rightarrow> 'w mysql_api \<Rightarrow> 'm hashmap_api \<Rightarrow> call_context \<Rightarrow> ('m, 'w, 'f) proxy \<Rightarrow>
   (tx future \<times> ('m, 'w, 'f) async_state) result" where
  "AsyncBegin F api H ctx st =
     (let (reject, ctx, st) = async_enter F ctx st in
      if reject then async_reject F (status_msg (ctx_status ctx)) ctx None st
      else
        let (address, st) = begin_address F ctx st in
        case address of
          Inl failed \<Rightarrow> Inr (Failed (status_to_string F failed), set_status failed ctx, None, st)
        | Inr node_addr \<Rightarrow>
            bindE (Get_pool api H node_addr st) (\<lambda>(pool, st).
            bindE (on_pool pool (GetExecutor api) st) (\<lambda>(executor, st).
            bindE (IsConnected executor (psys st)) (\<lambda>connected.
              if \<not> connected then
                bindE (connection_error F api executor st) (\<lambda>status.
                bindE (drop_ref api (Some executor) st) (\<lambda>st.
                  Inr (Failed (status_msg status), set_status status ctx, None, st)))
              else
                bindE (AsyncUnaryInvoke F api H (run_exec api ''begin'' [] :: (unit, 'w) runner) OnlyExec
                        (Some executor) (ctx, None, st)) (\<lambda>(fut, a). begin_then api executor fut a)))))"

definition async_end ::
  "'w mysql_api \<Rightarrow> 'm hashmap_api \<Rightarrow> bool \<Rightarrow> ('m, 'w, 'f) async_state \<Rightarrow>
   (unit future \<times> ('m, 'w, 'f) async_state) result" where
  "async_end api H rollback a =
     (case a of (ctx, hdl, st) \<Rightarrow>
        bindE (EndTransaction api H rollback hdl st) (\<lambda>(_, hdl, st). Inr (Ready (), ctx, hdl, st)))"

text \<open>The continuations of \<^verbatim>\<open>AsyncCommit\<close> and \<^verbatim>\<open>AsyncRollback\<close>; the second takes the value of the future also when
  it failed.\<close>

definition commit_then ::
  "'w mysql_api \<Rightarrow> 'm hashmap_api \<Rightarrow> unit results future \<Rightarrow> ('m, 'w, 'f) async_state \<Rightarrow>
   (unit future \<times> ('m, 'w, 'f) async_state) result" where
  "commit_then api H fut a =
     and_then fut (\<lambda>f a. case f of Inr msg \<Rightarrow> Inr (Failed msg, a) | Inl _ \<Rightarrow> async_end api H False a) a"

definition AsyncCommit ::
  "'f framework \<Rightarrow> 'w mysql_api \<Rightarrow> 'm hashmap_api \<Rightarrow> call_context \<Rightarrow> tx option \<Rightarrow> ('m, 'w, 'f) proxy \<Rightarrow>
   (unit future \<times> ('m, 'w, 'f) async_state) result" where
  "AsyncCommit F api H ctx hdl st =
     bindE (AsyncQuery_tx F api H (run_exec api ''commit'' [] :: (unit, 'w) runner) OnlyExec ctx hdl st)
       (\<lambda>(fut, a). commit_then api H fut a)"

definition rollback_then ::
  "'f framework \<Rightarrow> 'w mysql_api \<Rightarrow> 'm hashmap_api \<Rightarrow> unit results future \<Rightarrow> ('m, 'w, 'f) async_state \<Rightarrow>
   (unit future \<times> ('m, 'w, 'f) async_state) result" where
  "rollback_then F api H fut a =
     and_then fut
       (\<lambda>f a. case f of Inr msg \<Rightarrow> bindE (failed_future_value F) (\<lambda>_. Inr (Failed msg, a))
              | Inl _ \<Rightarrow> async_end api H True a) a"

definition AsyncRollback ::
  "'f framework \<Rightarrow> 'w mysql_api \<Rightarrow> 'm hashmap_api \<Rightarrow> call_context \<Rightarrow> tx option \<Rightarrow> ('m, 'w, 'f) proxy \<Rightarrow>
   (unit future \<times> ('m, 'w, 'f) async_state) result" where
  "AsyncRollback F api H ctx hdl st =
     bindE (AsyncQuery_tx F api H (run_exec api ''rollback'' [] :: (unit, 'w) runner) OnlyExec ctx hdl st)
       (\<lambda>(fut, a). rollback_then F api H fut a)"

end
