(* ===== verification/Typed_Calls.thy ===== *)
theory Typed_Calls
  imports Query_Properties
begin

text \<open>
  A typed query whatever the library answers: on every path the statement is closed and what was allocated
  before is as it was. Only a row longer than a buffer, or columns nobody checked, could make it fault, and
  \<open>answers_typed\<close> excludes these.
\<close>

section \<open>The statement of a query\<close>

text \<open>\<open>open_at s0 st s\<close>: since \<open>s0\<close> nothing changed but that the statement \<open>st\<close> was made, and results.\<close>

definition open_at :: "'w sys \<Rightarrow> statement \<Rightarrow> 'w sys \<Rightarrow> bool" where
  "open_at s0 st s \<longleftrightarrow>
     execs s = execs s0 \<and> mysqls s = mysqls s0 \<and> stmts s = stmts s0 \<union> set_option (mysql_stmt st) \<and>
     mysql_stmt st \<in> {None, Some (next_block s0)} \<and> next_block s0 \<notin> stmts s0 \<and> next_block s0 \<le> next_block s \<and>
     (\<forall>b \<in> ress s. b \<in> ress s0 \<or> b < next_block s)"

text \<open>Closed again.\<close>

definition gone :: "'w sys \<Rightarrow> 'w sys \<Rightarrow> bool" where
  "gone s0 t \<longleftrightarrow> execs t = execs s0 \<and> mysqls t = mysqls s0 \<and> stmts t = stmts s0 \<and> next_block s0 \<le> next_block t \<and>
     (\<forall>b \<in> ress t. b \<in> ress s0 \<or> b < next_block t)"

lemma open_at_lib [simp]: "open_at s0 st (s\<lparr>lib := w\<rparr>) = open_at s0 st s"
  by (simp add: open_at_def)

lemma open_at_closed:
  assumes "open_at s0 st s" and "stmts t = stmts s - set_option (mysql_stmt st)" and "mysqls t = mysqls s" and "ress t = ress s"
    and "execs t = execs s" and "next_block t = next_block s"
  shows "gone s0 t"
proof -
  have "stmts t = stmts s0"
    by (rule closed_again [OF assms(2)]) (use assms(1) in \<open>auto simp: open_at_def\<close>)
  with assms show ?thesis by (simp add: gone_def open_at_def)
qed

lemma open_at_wf: "open_at s0 st s \<Longrightarrow> stmt_wf st s"
  by (auto simp: open_at_def stmt_wf_def)

lemma open_fail:
  assumes "open_at s0 st s" and "frees api"
  obtains m n t where "stmt_fail api x st res s = Inr (x, set_error m n res, t)" and "gone s0 t"
  using stmt_fail_spec [OF open_at_wf [OF assms(1)] assms(2), of x res] open_at_closed [OF assms(1)] by metis

lemma open_end:
  assumes "open_at s0 st s" and "frees api"
  obtains t where "end_stmt api st s = Inr t" and "gone s0 t"
  using end_stmt_spec [OF open_at_wf [OF assms(1)] assms(2)] open_at_closed [OF assms(1)] by metis

lemma open_meta:
  assumes s: "open_at s0 st s" and b: "mysql_stmt st = Some b" and meta: "fst (s_result_metadata api b (next_block s) (lib s))"
  obtains w where "GetResultsMeta api st s =
      Inr (Some (next_block s), s\<lparr>lib := w, next_block := Suc (next_block s), ress := insert (next_block s) (ress s)\<rparr>)"
    and "open_at s0 st (s\<lparr>lib := w, next_block := Suc (next_block s), ress := insert (next_block s) (ress s)\<rparr>)"
proof -
  obtain w where w: "s_result_metadata api b (next_block s) (lib s) = (True, w)" using meta by (metis (full_types) prod.collapse)
  have "b \<in> stmts s" using s b by (simp add: open_at_def)
  then have "GetResultsMeta api st s =
      Inr (Some (next_block s), s\<lparr>lib := w, next_block := Suc (next_block s), ress := insert (next_block s) (ress s)\<rparr>)"
    using w b by (simp add: GetResultsMeta_eq)
  moreover have "open_at s0 st (s\<lparr>lib := w, next_block := Suc (next_block s), ress := insert (next_block s) (ress s)\<rparr>)"
    using s by (auto simp: open_at_def)
  ultimately show thesis by (rule that)
qed

section \<open>The contract\<close>

text \<open>A failed call of a statement leaves an error number; the statement has a result set, its columns are the same
  whenever they are asked for, and if they are of the types asked for its rows fit the buffers.
  Columns that are too many or too few are reported: the message is not empty.\<close>

definition reports_errors :: "'w mysql_api \<Rightarrow> bool" where
  "reports_errors api \<longleftrightarrow>
     (\<forall>b w. fst (s_bind_result api b w) \<noteq> 0 \<longrightarrow> s_errno api b (snd (s_bind_result api b w)) \<noteq> 0) \<and>
     (\<forall>b w. fst (s_execute api b w) \<noteq> 0 \<longrightarrow> s_errno api b (snd (s_execute api b w)) \<noteq> 0)"

definition answers_typed :: "formatter \<Rightarrow> 'w mysql_api \<Rightarrow> out_type list \<Rightarrow> MysqlResultsOption \<Rightarrow> nat \<Rightarrow> bool" where
  "answers_typed fmt api Ts opt nargs \<longleftrightarrow>
     frees api \<and> reports_errors api \<and> (\<forall>h w. fst (c_ping api h w) = 0) \<and> (\<forall>b w. unat (s_param_count api b w) \<le> nargs) \<and>
     (\<forall>h b w. fst (s_result_metadata api h b w)) \<and>
     (\<exists>fm. (\<forall>b w. c_fetch_fields api b w = fm) \<and> (\<forall>b w. unat (s_field_count api b w) = length fm) \<and>
       (length fm = length Ts \<or> (\<forall>f as. f \<noteq> [] \<longrightarrow> fmt f as \<noteq> [])) \<and>
       (columns_valid Ts fm \<longrightarrow> (\<forall>b w. fst (s_store_result api b w) = 0 \<longrightarrow>
          (\<exists>rows f w'. fetches_until api b (snd (s_store_result api b w)) rows f w' \<and> rows_fit opt Ts fm rows))))"

text \<open>In particular a query that succeeds.\<close>

lemma succeeds_answers:
  assumes "stmt_succeeds api fm nargs" and "columns_valid Ts fm"
    and "\<And>b w. \<exists>w'. fetches api b (snd (s_store_result api b w)) rows w'" and "rows_fit opt Ts fm rows"
  shows "answers_typed fmt api Ts opt nargs"
proof -
  have "\<forall>b w. \<exists>rows f w'. fetches_until api b (snd (s_store_result api b w)) rows f w' \<and> rows_fit opt Ts fm rows"
    using assms(3,4) by (metis fetches_until_no_data)
  then show ?thesis
    using assms(1,2) unfolding answers_typed_def reports_errors_def stmt_succeeds_def columns_valid_def by auto
qed

lemma ExecuteStatement_binds_alive:
  assumes "execs s r = Some e" and "is_connected e" and "mysql e = Some h" and "h \<in> mysqls s"
    and "fst (c_ping api h (lib s)) = 0" and b: "mysql_stmt st = Some b" "b \<in> stmts s" and errs: "reports_errors api"
  obtains f binds' w where "ExecuteStatement_binds api r binds st s = Inr (f, binds', s\<lparr>lib := w\<rparr>)"
    and "status_OK f \<Longrightarrow> binds' = binds"
proof -
  let ?w = "snd (c_ping api h (lib s))"
  let ?c = "s_bind_result api b ?w"
  let ?d = "s_execute api b (snd ?c)"
  have "CheckAlive api r s = Inr (True, s\<lparr>lib := ?w\<rparr>)"
    using CheckAlive_live [OF assms(1-4), of api] assms(5) by (simp add: split_beta Let_def)
  then have alive: "ensure_alive api r s = Inr (None, s\<lparr>lib := ?w\<rparr>)" by (simp add: ensure_alive_def)
  have bind: "stmt_call (mysql_stmt st) (s_bind_result api) (s\<lparr>lib := ?w\<rparr>) = Inr (fst ?c, s\<lparr>lib := snd ?c\<rparr>)"
    using b by simp
  have exe: "stmt_call (mysql_stmt st) (s_execute api) (s\<lparr>lib := snd ?c\<rparr>) = Inr (fst ?d, s\<lparr>lib := snd ?d\<rparr>)"
    using b by simp
  have status: "stmt_status api st (s\<lparr>lib := w\<rparr>) = Inr \<lparr>frame_ret = s_errno api b w, status_msg = s_error api b w\<rparr>" for w
    using b by (simp add: stmt_status_def stmt_errno_def stmt_error_def)
  have "\<exists>f binds' w. ExecuteStatement_binds api r binds st s = Inr (f, binds', s\<lparr>lib := w\<rparr>) \<and> (status_OK f \<longrightarrow> binds' = binds)"
    using alive bind exe status errs
    by (cases "fst ?c = 0"; cases "fst ?d = 0") (auto simp: ExecuteStatement_binds_def reports_errors_def status_OK_def)
  then show thesis using that by blast
qed

lemma FetchResults_returns:
  assumes st: "mysql_stmt stmt = Some b" "b \<in> stmts s" and h: "ready Ts h"
    and rows: "\<And>w. fst (s_store_result api b w) = 0 \<Longrightarrow>
      \<exists>rows f w'. fetches_until api b (snd (s_store_result api b w)) rows f w' \<and> rows_fit opt Ts fm rows"
    and lim: "\<And>i. i < length Ts \<Longrightarrow> write_limit (output_binds h ! i) = column_limit opt (Ts ! i) (field_type (fm ! i))"
  obtains ok res' w where "FetchResults api stmt Ts (output_binds h) h res s = Inr (ok, res', s\<lparr>lib := w\<rparr>)"
    and "mysql_res res' = mysql_res res"
proof (cases "fst (s_store_result api b (lib s)) = 0")
  case False
  then show thesis using that [of False res "snd (s_store_result api b (lib s))"] st by (simp add: FetchResults_def)
next
  case True
  let ?w0 = "snd (s_store_result api b (lib s))"
  obtain rows f w where w: "fetches_until api b ?w0 rows f w" "rows_fit opt Ts fm rows" using rows [OF True] by blast
  have "row_fits Ts (output_binds h) row" if "row \<in> set rows" for row
    using that w(2) lim by (auto simp: rows_fit_def row_fits_def fits_def column_limit_def)
  then obtain tuples where "fetch_loop api stmt Ts (output_binds h) h res (s\<lparr>lib := ?w0\<rparr>) =
      Some (Inr (f = No_data, res\<lparr>result_set := result_set res @ tuples,
        null_flags := null_flags res @ map (map (\<lambda>v. v = None)) rows\<rparr>, s\<lparr>lib := ?w0\<rparr>\<lparr>lib := w\<rparr>))"
    using fetch_loop_until [of stmt b "s\<lparr>lib := ?w0\<rparr>" api rows f w Ts h res] st w(1) h by auto
  then show thesis
    using that [of "f = No_data" "res\<lparr>result_set := result_set res @ tuples,
        null_flags := null_flags res @ map (map (\<lambda>v. v = None)) rows\<rparr>" w] st True by (simp add: FetchResults_def)
qed

lemma columns_checked:
  assumes b: "b \<in> ress s" "c_fetch_fields api b (lib s) = fm" and msg: "length fm = length Ts \<or> (\<forall>f as. f \<noteq> [] \<longrightarrow> fmt f as \<noteq> [])"
  obtains m where "CheckFieldsOutputArgs fmt api Ts (Some b) s = Inr m" and "m = [] \<Longrightarrow> columns_valid Ts fm"
proof (cases "length fm = length Ts")
  case True
  then have "\<exists>m. CheckFieldsOutputArgs fmt api Ts (Some b) s = Inr m \<and> (m = [] \<longrightarrow> failed_fields Ts fm = [])"
    using b by (simp add: CheckFieldsOutputArgs_def Let_def)
  moreover have "failed_fields Ts fm = [] \<longleftrightarrow> columns_valid Ts fm" using True by (simp add: failed_fields_none columns_valid_def)
  ultimately show thesis using that by blast
next
  case False
  then have "CheckFieldsOutputArgs fmt api Ts (Some b) s = Inr (fmt ''The query field count is {}, but you give {} OutputArgs.''
      [FScalar (UInt32 (of_nat (length fm))), FScalar (UInt64 (of_nat (length Ts)))])"
    using b by (simp add: CheckFieldsOutputArgs_def Let_def)
  with False msg show thesis by (intro that) auto
qed

text \<open>The query from the fetch on, and as a whole.\<close>

lemma typed_query_ends:
  assumes o: "open_at s0 st s" and b: "mysql_stmt st = Some b" "b \<in> stmts s" and free: "frees api"
    and meta: "\<And>h b w. fst (s_result_metadata api h b w)"
    and f: "FetchResults api st Ts binds qh res s = Inr (ok, res1, s\<lparr>lib := w\<rparr>)" "mysql_res res1 = None"
  shows "\<exists>ok' res' t. bindE (FetchResults api st Ts binds qh res s) (\<lambda>(ok, res, s).
      if \<not> ok then stmt_fail api False st res s
      else bindE (GetResultsMeta api st s) (\<lambda>(meta, s). bindE (SetFieldsName api meta res s) (\<lambda>res.
           bindE (end_stmt api st s) (\<lambda>s. Inr (True, res, s))))) = Inr (ok', res', t) \<and> gone s0 t \<and> mysql_res res' = None"
proof (cases ok)
  case False
  obtain m n t where "stmt_fail api False st res1 (s\<lparr>lib := w\<rparr>) = Inr (False, set_error m n res1, t)" "gone s0 t"
    by (rule open_fail [of s0 st "s\<lparr>lib := w\<rparr>" api False res1]) (use o free in simp_all)
  with False f show ?thesis by (intro exI [of _ False]) simp
next
  case True
  let ?s = "s\<lparr>lib := w\<rparr>"
  obtain w2 where g: "GetResultsMeta api st ?s =
      Inr (Some (next_block ?s), ?s\<lparr>lib := w2, next_block := Suc (next_block ?s), ress := insert (next_block ?s) (ress ?s)\<rparr>)"
    "open_at s0 st (?s\<lparr>lib := w2, next_block := Suc (next_block ?s), ress := insert (next_block ?s) (ress ?s)\<rparr>)"
    by (rule open_meta [of s0 st ?s b api]) (use o b meta in simp_all)
  obtain t where "end_stmt api st (?s\<lparr>lib := w2, next_block := Suc (next_block ?s), ress := insert (next_block ?s) (ress ?s)\<rparr>) = Inr t"
    "gone s0 t" by (rule open_end [OF g(2) free])
  with True f g show ?thesis by (intro exI [of _ True]) (simp add: SetFieldsName_def)
qed

lemma QueryAllInternal_typed_returns:
  assumes start: "query_start r h res s" and sv: "answers_typed fmt api Ts (res_option res) (length args)"
  shows "\<exists>ok res' t. QueryAllInternal_typed fmt api r Ts res query args s = Inr (ok, res', t) \<and>
    gone (s\<lparr>lib := cleared_world api res s, ress := ress s - set_option (mysql_res res)\<rparr>) t \<and> mysql_res res' = None"
proof -
  let ?s1 = "s\<lparr>lib := cleared_world api res s, ress := ress s - set_option (mysql_res res)\<rparr>" and ?r = "cleared res"
  obtain e where e: "execs s r = Some e" "is_connected e" "mysql e = Some h" "h \<in> mysqls s"
    and wf: "results_wf s res" and fresh: "next_block s \<notin> stmts s"
    using start by (auto simp: query_start_def)
  obtain fm where free: "frees api" and errs: "reports_errors api" and ping: "\<And>h w. fst (c_ping api h w) = 0"
    and params: "\<And>b w. unat (s_param_count api b w) \<le> length args" and meta: "\<And>h b w. fst (s_result_metadata api h b w)"
    and fields: "\<And>b w. c_fetch_fields api b w = fm" and count: "\<And>b w. unat (s_field_count api b w) = length fm"
    and msg: "length fm = length Ts \<or> (\<forall>f as. f \<noteq> [] \<longrightarrow> fmt f as \<noteq> [])"
    and rows: "\<And>b w. columns_valid Ts fm \<Longrightarrow> fst (s_store_result api b w) = 0 \<Longrightarrow>
      \<exists>rows f w'. fetches_until api b (snd (s_store_result api b w)) rows f w' \<and> rows_fit (res_option res) Ts fm rows"
    using sv by (auto simp: answers_typed_def)
  have clear: "Clear api res s = Inr (?r, ?s1)" by (rule Clear_cleared_world [OF wf])
  have cl: "mysql_res ?r = None" "GetOption ?r = res_option res"
    by (simp_all add: GetOption_def cleared_def MysqlResults_with_def MysqlResults_new_def)
  have exec1: "get_exec r ?s1 = Inr e" using e(1) by simp
  obtain ok st s2 where s2: "Init api query (MysqlStatement_new (Some h)) ?s1 = Inr (ok, st, s2)"
    "ok \<Longrightarrow> mysql_stmt st = Some (next_block s)" "stmts s2 = stmts s \<union> set_option (mysql_stmt st)" "mysqls s2 = mysqls s"
    "ress s2 = ress s - set_option (mysql_res res)" "next_block s \<le> next_block s2" "clib.more s2 = clib.more ?s1"
    "mysql_stmt st = None \<or> mysql_stmt st = Some (next_block s)" "ok \<Longrightarrow> field_count st = s_field_count api (next_block s) (lib s2)"
    by (rule Init_spec [of "MysqlStatement_new (Some h)" h ?s1 api query]) (use e(4) in \<open>simp_all add: MysqlStatement_new_def\<close>)
  have o2: "open_at ?s1 st s2" using s2(3-8) fresh sys_more [OF s2(7)] by (auto simp: open_at_def)
  show ?thesis
  proof (cases ok)
    case False
    obtain m n t where "stmt_fail api False st ?r s2 = Inr (False, set_error m n ?r, t)" "gone ?s1 t"
      by (rule open_fail [OF o2 free])
    with False cl show ?thesis by (auto simp: QueryAllInternal_typed_def clear exec1 e(3) s2(1))
  next
    case ok: True
    let ?b = "next_block s" and ?m = "next_block s2"
    have b: "mysql_stmt st = Some ?b" using s2(2) ok by simp
    have nf: "unat (GetFieldCount st) = length fm" using s2(9) ok count by (simp add: GetFieldCount_def)
    obtain w3 where s3: "GetResultsMeta api st s2 = Inr (Some ?m, s2\<lparr>lib := w3, next_block := Suc ?m, ress := insert ?m (ress s2)\<rparr>)"
      and o3: "open_at ?s1 st (s2\<lparr>lib := w3, next_block := Suc ?m, ress := insert ?m (ress s2)\<rparr>)"
      by (rule open_meta [OF o2 b meta])
    let ?s3 = "s2\<lparr>lib := w3, next_block := Suc ?m, ress := insert ?m (ress s2)\<rparr>"
    obtain msg where check: "CheckFieldsOutputArgs fmt api Ts (Some ?m) ?s3 = Inr msg" "msg = [] \<Longrightarrow> columns_valid Ts fm"
      by (rule columns_checked [of ?m ?s3 api fm Ts fmt]) (use fields msg in simp_all)
    note prefix = QueryAllInternal_typed_def clear exec1 e(3) s2(1) ok s3 check(1)
    show ?thesis
    proof (cases "msg = []")
      case False
      obtain t where "end_stmt api st ?s3 = Inr t" "gone ?s1 t" by (rule open_end [OF o3 free])
      with False cl show ?thesis by (auto simp: prefix)
    next
      case True
      note valid = check(2) [OF True]
      have len: "length fm = length Ts" using valid by (simp add: columns_valid_def)
      have bs: "?b \<in> stmts ?s3" using o3 b by (simp add: open_at_def)
      obtain bound w4 where bind: "BindParam api (BindInputImpl args) st ?s3 = Inr (bound, ?s3\<lparr>lib := w4\<rparr>)"
        using BindParam_returns [OF b bs, of api "BindInputImpl args"] params by (auto simp: BindInputImpl_def)
      let ?s4 = "?s3\<lparr>lib := w4\<rparr>"
      have o4: "open_at ?s1 st ?s4" unfolding open_at_lib by (rule o3)
      show ?thesis
      proof (cases bound)
        case False
        obtain m n t where "stmt_fail api False st ?r ?s4 = Inr (False, set_error m n ?r, t)" "gone ?s1 t"
          by (rule open_fail [OF o4 free])
        with False cl True show ?thesis by (auto simp: prefix bind)
      next
        case bound: True
        obtain hd where hd: "QueryHandle_new (res_option res) Ts (length Ts) = Inr hd" by (rule QueryHandle_spec) blast
        obtain w5 where s5: "GetResultsMeta api st ?s4 = Inr (Some (next_block ?s4),
            ?s4\<lparr>lib := w5, next_block := Suc (next_block ?s4), ress := insert (next_block ?s4) (ress ?s4)\<rparr>)"
          and o5: "open_at ?s1 st (?s4\<lparr>lib := w5, next_block := Suc (next_block ?s4), ress := insert (next_block ?s4) (ress ?s4)\<rparr>)"
          by (rule open_meta [OF o4 b meta])
        let ?s5 = "?s4\<lparr>lib := w5, next_block := Suc (next_block ?s4), ress := insert (next_block ?s4) (ress ?s4)\<rparr>"
        obtain qh where qh: "BindOutputs api Ts st hd ?s4 = Inr (qh, ?s5)" "ready Ts qh"
          "\<And>i. i < length Ts \<Longrightarrow> write_limit (output_binds qh ! i) = column_limit (res_option res) (Ts ! i) (field_type (fm ! i))"
          by (rule BindOutputs_spec [OF s5 _ fields valid hd]) auto
        have live: "execs ?s5 r = Some e" "h \<in> mysqls ?s5" "?b \<in> stmts ?s5" using e o5 b by (simp_all add: open_at_def)
        obtain f binds w6 where exe: "ExecuteStatement_binds api r (output_binds qh) st ?s5 = Inr (f, binds, ?s5\<lparr>lib := w6\<rparr>)"
          "status_OK f \<Longrightarrow> binds = output_binds qh"
          using ExecuteStatement_binds_alive [OF live(1) e(2,3) live(2) ping b live(3) errs, of "output_binds qh"] by blast
        let ?s6 = "?s5\<lparr>lib := w6\<rparr>"
        have o6: "open_at ?s1 st ?s6" unfolding open_at_lib by (rule o5)
        have b6: "?b \<in> stmts ?s6" using live(3) by simp
        note upto = prefix bind bound True hd qh(1) [simplified] exe(1) [simplified] nf len cl(2)
        show ?thesis
        proof (cases "status_OK f")
          case False
          obtain t where "end_stmt api st ?s6 = Inr t" "gone ?s1 t" by (rule open_end [OF o6 free])
          with False cl show ?thesis by (auto simp: upto)
        next
          case good: True
          obtain ok7 res7 w7 where f: "FetchResults api st Ts (output_binds qh) qh ?r ?s6 = Inr (ok7, res7, ?s6\<lparr>lib := w7\<rparr>)"
            "mysql_res res7 = mysql_res ?r"
            using FetchResults_returns [OF b b6 qh(2) rows [OF valid] qh(3), of ?r] by blast
          from typed_query_ends [OF o6 b b6 free meta f(1)] f(2) cl(1) show ?thesis
            by (simp add: upto good exe(2) [OF good])
        qed
      qed
    qed
  qed
qed

end
