(* ===== verification/Call_Contract.thy ===== *)
theory Call_Contract
  imports Pool_Users Proxy_Async Typed_Calls
begin

text \<open>
  The contract of what a call runs on its connection (\<open>connection_user\<close>), the lemmas on a task of
  the service proxy proved under it once, and its interpretations: \<^verbatim>\<open>Execute\<close> and the native
  \<^verbatim>\<open>QueryAll\<close>.
\<close>

section \<open>A server that is there, and one that is not\<close>

definition accepts :: "'w mysql_api \<Rightarrow> bool" where
  "accepts api \<longleftrightarrow> (\<forall>h opt w. fst (c_real_connect api h opt w))"

definition refuses :: "'w mysql_api \<Rightarrow> bool" where
  "refuses api \<longleftrightarrow> (\<forall>h opt w. \<not> fst (c_real_connect api h opt w))"

lemma Connect_accepted: "accepts api \<Longrightarrow> Connect api r s = Inr (b, t) \<Longrightarrow> b"
  by (auto simp: accepts_def Connect_def mysql_call_def on_block_Inr bindE_Inr_iff Let_def
      split: if_splits prod.splits)

lemma Connect_not_accepted:
  assumes "refuses api" and "\<not> connected s r" and "Connect api r s = Inr (b, t)"
  shows "\<not> b"
  using assms by (auto simp: refuses_def Connect_def mysql_call_def on_block_Inr bindE_Inr_iff Let_def
      get_exec_Inr split: if_splits prod.splits)

lemma GetExecutor_accepted:
  assumes inv: "pool_inv U p s" and oom: "no_oom api" and acc: "accepts api"
    and get: "GetExecutor api p s = Inr (r, q, t)"
  shows "connected t r"
proof (rule ccontr)
  assume nc: "\<not> connected t r"
  have L: "leased api U p s (r, q, t)" using GetOrCreate_spec [OF inv oom] get by (auto simp: GetExecutor_def)
  then have gen: "executor_id_gen q \<noteq> executor_id_gen p" and num: "executor_num q = executor_num p"
    using nc by (auto simp: leased_def split: if_splits)
  let ?p = "p\<lparr>shard_id_gen := shard_id_gen p + 1\<rparr>"
  obtain f x y p1 s1 where 1: "take_loop api EXECUTOR_POOL_CONN_RETRY_NUM (shard_id_gen p) None None ?p s =
      Inr (f, x, y, p1, s1)"
    using get by (auto simp: GetExecutor_def GetOrCreate_def Let_def bindE_Inr_iff)
  have p1: "executor_num p1 = executor_num p" using take_loop_count [OF 1] by simp
  show False
  proof (cases f)
    case (Some r')
    have "executor_num q = executor_num p \<and> q = p1"
      using get 1 p1 Some by (auto simp: GetExecutor_def GetOrCreate_def Let_def bindE_Inr_iff)
    moreover have "executor_id_gen p1 = executor_id_gen p" using take_loop_count [OF 1] by simp
    ultimately show False using gen by simp
  next
    case None
    then obtain p2 r2 s2 s3 ok s4 where 2: "CreateExecutor api (shard_id_gen p) p1 s1 = Inr (r2, p2, s2)"
      "Connect api r2 s3 = Inr (ok, s4)"
      "q = (if ok then p2\<lparr>executor_num := executor_num p2 + 1\<rparr> else p2)"
      using get 1 by (auto simp: GetExecutor_def GetOrCreate_def Let_def bindE_Inr_iff)
    have "executor_num p2 = executor_num p1" using 2(1) by (auto simp: CreateExecutor_def Let_def bindE_Inr_iff)
    moreover have ok using Connect_accepted [OF acc 2(2)] .
    ultimately show False using num p1 2(3) by simp
  qed
qed

text \<open>A pool that has no executor makes one, and a server that refuses leaves it disconnected.\<close>

lemma GetExecutor_refused:
  assumes inv: "pool_inv U p s" and oom: "no_oom api" and ref: "refuses api" and empty: "pooled p = {}"
    and get: "GetExecutor api p s = Inr (r, q, t)"
  shows "\<not> connected t r"
proof
  assume c: "connected t r"
  have L: "leased api U p s (r, q, t)" using GetOrCreate_spec [OF inv oom] get by (auto simp: GetExecutor_def)
  then have gen: "executor_id_gen q \<noteq> executor_id_gen p" and num: "executor_num q = executor_num p + 1"
    using c empty by (auto simp: leased_def split: if_splits)
  let ?p = "p\<lparr>shard_id_gen := shard_id_gen p + 1\<rparr>"
  have ok: "shards_ok ?p" using inv by (simp add: pool_inv_held shards_ok_def)
  obtain i where i: "shard_index ?p (shard_id_gen p) = Inr i" "i < length (executor_shards ?p)"
    using shard_index_Inr [OF ok] by metis
  have "executor_shards ?p ! i = []" using empty i(2) by (auto simp: pooled_def dest: nth_mem)
  then have 1: "take_loop api EXECUTOR_POOL_CONN_RETRY_NUM (shard_id_gen p) None None ?p s = Inr (None, None, None, ?p, s)"
    using i(1) by (simp add: EXECUTOR_POOL_CONN_RETRY_NUM_def eval_nat_numeral)
  then obtain p2 s2 ok s4 where 2: "CreateExecutor api (shard_id_gen p) ?p s = Inr (r, p2, s2)"
      "Connect api r s2 = Inr (ok, s4)" "q = (if ok then p2\<lparr>executor_num := executor_num p2 + 1\<rparr> else p2)"
    using get by (auto simp: GetExecutor_def GetOrCreate_def Let_def bindE_Inr_iff)
  have "executor_num p2 = executor_num p" "\<not> connected s2 r"
    using 2(1) by (auto simp: CreateExecutor_def MysqlExecutor_new_def SetExecutorId_def Let_def bindE_Inr_iff
        get_exec_Inr split: prod.splits)
  with Connect_not_accepted [OF ref _ 2(2)] 2(3) num show False by simp
qed

section \<open>The contract\<close>

text \<open>What a run on a connection may change: the library's world, the raw result of the results
  object, and the allocator's counter.\<close>

definition uses_connection :: "'w sys \<Rightarrow> 'w sys \<Rightarrow> bool" where
  "uses_connection s t \<longleftrightarrow>
     execs t = execs s \<and> mysqls t = mysqls s \<and> stmts t = stmts s \<and> next_block s \<le> next_block t \<and>
     (\<forall>b \<in> ress t. b \<in> ress s \<or> b < next_block t)"

text \<open>\<open>suits res\<close>: the results object is one the call may be run with.\<close>

locale connection_user =
  fixes run :: "nat \<Rightarrow> 'r results \<Rightarrow> 'w sys \<Rightarrow> (bool \<times> 'r results \<times> 'w sys) result" and suits :: "'r results \<Rightarrow> bool"
  assumes run_returns: "suits res \<Longrightarrow> query_start r h res s \<Longrightarrow>
    \<exists>ok res' t. run r res s = Inr (ok, res', t) \<and> uses_connection s t \<and> results_wf t res'"
begin

lemma run_manager:
  assumes m: "manager_ok H U m" and r: "r \<in> U" "connected (msys m) r" and res: "suits res" "results_wf (msys m) res"
  obtains ok res' t where "run r res (msys m) = Inr (ok, res', t)" and "manager_ok H U (m\<lparr>msys := t\<rparr>)"
    and "uses_connection (msys m) t" and "results_wf t res'" and "\<exists>h. query_start r h res (msys m)"
proof -
  note D = manager_okD [OF m]
  have wf: "wf_on U (msys m)" using mgr_ok_held [OF D(1)] by (simp add: held_def)
  obtain e where e: "execs (msys m) r = Some e" using r(2) by (cases "execs (msys m) r") (auto simp: connected_def)
  then obtain h where h: "mysql e = Some h" "h \<in> mysqls (msys m)"
    using wf_onD(2,3) [OF wf r(1)] r(2) by (cases "mysql e") auto
  have "query_start r h res (msys m)" using e h r(2) res(2) D(5) by (auto simp: query_start_def)
  then obtain ok res' t where t: "run r res (msys m) = Inr (ok, res', t)" "uses_connection (msys m) t" "results_wf t res'"
    using run_returns [OF res(1)] by blast
  have "\<forall>b \<in> stmts t \<union> ress t. b < next_block t"
    using t(2) D(5) unfolding uses_connection_def by (fastforce intro: less_le_trans)
  then have "manager_ok H U (m\<lparr>msys := t\<rparr>)"
    using manager_ok_run [OF m] t(2) by (simp add: uses_connection_def)
  with t that \<open>query_start r h res (msys m)\<close> show thesis by blast
qed

end

section \<open>The service proxy in service\<close>

definition proxy_ok :: "'m hashmap_api \<Rightarrow> nat set \<Rightarrow> ('m, 'w, 'f) proxy \<Rightarrow> bool" where
  "proxy_ok H U st \<longleftrightarrow> has_manager st \<and> thread_pool st \<noteq> None \<and> manager_ok H U (mgr st)"

lemma proxy_ok_fw [simp]: "proxy_ok H U (st\<lparr>fw := w\<rparr>) = proxy_ok H U st"
  by (simp add: proxy_ok_def)

lemma psys_simps [simp]:
  "psys (st\<lparr>fw := w\<rparr>) = psys st" "psys (put_sys s st) = s" "psys (st\<lparr>mgr := m\<rparr>) = msys m"
  "fw (put_sys s st) = fw st" "mgr (put_sys s st) = (mgr st)\<lparr>msys := s\<rparr>"
  "thread_pool (put_sys s st) = thread_pool st" "put_sys s (put_sys u st) = put_sys s st"
  "put_sys s (st\<lparr>fw := w\<rparr>) = (put_sys s st)\<lparr>fw := w\<rparr>"
  by (simp_all add: psys_def put_sys_def)

lemma proxy_ok_put: "proxy_ok H U st \<Longrightarrow> manager_ok H V ((mgr st)\<lparr>msys := s\<rparr>) \<Longrightarrow> proxy_ok H V (put_sys s st)"
  by (simp add: proxy_ok_def put_sys_def)

lemma task_connection_pool:
  assumes H: "hashmap_laws H" and ok: "proxy_ok H U st" and oom: "no_oom api"
  obtains q r m where "task_connection api H a None st = Inr ((Some q, r), st\<lparr>mgr := m\<rparr>)" and "r \<notin> U"
    and "same_on U (psys st) (msys m)" and "keeps_blocks (psys st) (msys m)" and "pools m q \<noteq> None"
    and "connected (msys m) r \<Longrightarrow> proxy_ok H (insert r U) (st\<lparr>mgr := m\<rparr>)"
    and "\<not> connected (msys m) r \<Longrightarrow> proxy_ok H U (st\<lparr>mgr := m\<rparr>)"
    and "\<not> connected (msys m) r \<Longrightarrow> (\<exists>h. handle (msys m) r = Some h \<and> h \<notin> mysqls (msys m))"
    and "accepts api \<Longrightarrow> connected (msys m) r"
    and "refuses api \<Longrightarrow> map_of_mgr H (mgr st) (endpoint_key a) = None \<Longrightarrow> \<not> connected (msys m) r"
proof -
  have up: "has_manager st" "thread_pool st \<noteq> None" and mok: "manager_ok H U (mgr st)"
    using ok by (simp_all add: proxy_ok_def)
  obtain q m1 p where g: "mgr_Get api H a (mgr st) = Inr (q, m1)" "manager_ok H U m1" "pools m1 q = Some p"
    "execs (msys m1) = execs (msys (mgr st))" "keeps_blocks (msys (mgr st)) (msys m1)"
    "pooled_at m1 = pooled_at (mgr st)" "pools (mgr st) q = None \<or> map_of_mgr H (mgr st) (endpoint_key a) = Some q"
    by (rule mgr_Get_ok [OF H mok, of api a]) metis
  obtain r p' s where x: "GetExecutor api p (msys m1) = Inr (r, p', s)" "r \<notin> U" "same_on U (msys m1) s"
    "keeps_blocks (msys m1) s"
    "connected s r \<Longrightarrow> manager_ok H (insert r U) (m1\<lparr>pools := (pools m1)(q \<mapsto> p'), msys := s\<rparr>)"
    "\<not> connected s r \<Longrightarrow> manager_ok H U (m1\<lparr>pools := (pools m1)(q \<mapsto> p'), msys := s\<rparr>)"
    "\<not> connected s r \<Longrightarrow> (\<exists>h. handle s r = Some h \<and> h \<notin> mysqls s)"
    by (rule GetExecutor_manager [OF g(2,3) oom]) blast
  let ?m = "m1\<lparr>pools := (pools m1)(q \<mapsto> p'), msys := s\<rparr>"
  have inv: "pool_inv (others U m1 q) p (msys m1)" by (rule mgr_ok_pool [OF manager_okD(1) [OF g(2)] g(3)])
  have t: "task_connection api H a None st = Inr ((Some q, r), st\<lparr>mgr := ?m\<rparr>)"
    using up g(1,3) x(1) by (simp add: task_connection_def Get_pool_def get_mgr_def on_pool_def get_pool_def psys_def)
  have refused: "\<not> connected s r" if ref: "refuses api" and new: "map_of_mgr H (mgr st) (endpoint_key a) = None"
  proof (rule GetExecutor_refused [OF inv oom ref _ x(1)])
    have "pools (mgr st) q = None" using g(7) new by simp
    then have "pooled_at m1 q = {}" unfolding g(6) by (simp add: pooled_at_def)
    then show "pooled p = {}" using g(3) by (simp add: pooled_at_def)
  qed
  have "same_on U (psys st) (msys ?m)" using x(3) g(4) by (simp add: psys_def same_on_def)
  moreover have "keeps_blocks (psys st) (msys ?m)" using keeps_blocks_trans [OF g(5) x(4)] by (simp add: psys_def)
  moreover have "connected (msys ?m) r \<Longrightarrow> proxy_ok H (insert r U) (st\<lparr>mgr := ?m\<rparr>)"
    using x(5) up by (simp add: proxy_ok_def)
  moreover have "\<not> connected (msys ?m) r \<Longrightarrow> proxy_ok H U (st\<lparr>mgr := ?m\<rparr>)"
    using x(6) up by (simp add: proxy_ok_def)
  ultimately show thesis
    by (intro that [OF t x(2)]) (use x(7) GetExecutor_accepted [OF inv oom _ x(1)] refused in simp_all)
qed

text \<open>Giving a connection back: it is no longer in use, whatever the pool does with it.\<close>

lemma return_connection_pool:
  assumes ok: "proxy_ok H U st" and q: "pools (mgr st) q \<noteq> None" and r: "r \<in> U"
  obtains m where "return_connection api (Some q) r st = Inr (st\<lparr>mgr := m\<rparr>)" and "proxy_ok H (U - {r}) (st\<lparr>mgr := m\<rparr>)"
    and "same_on (U - {r}) (psys st) (msys m)" and "keeps_blocks (psys st) (msys m)"
proof -
  have up: "has_manager st" "thread_pool st \<noteq> None" and mok: "manager_ok H U (mgr st)"
    using ok by (simp_all add: proxy_ok_def)
  obtain p where p: "pools (mgr st) q = Some p" using q by blast
  obtain x p' s where x: "Reclaim api 0 (Some r) p (msys (mgr st)) = Inr (x, p', s)"
    "same_on (U - {r}) (msys (mgr st)) s" "keeps_blocks (msys (mgr st)) s"
    "x = None \<Longrightarrow> manager_ok H (U - {r}) ((mgr st)\<lparr>pools := (pools (mgr st))(q \<mapsto> p'), msys := s\<rparr>) \<and> r \<in> pooled p'"
    "x \<noteq> None \<Longrightarrow> x = Some r \<and> manager_ok H U ((mgr st)\<lparr>pools := (pools (mgr st))(q \<mapsto> p'), msys := s\<rparr>) \<and> \<not> connected s r"
    by (rule Reclaim_manager [OF mok p r, of api 0]) blast
  let ?m = "(mgr st)\<lparr>pools := (pools (mgr st))(q \<mapsto> p'), msys := s\<rparr>"
  have on: "on_pool q (Reclaim api 0 (Some r)) st = Inr (x, st\<lparr>mgr := ?m\<rparr>)"
    using p x(1) by (simp add: on_pool_def get_pool_def psys_def)
  show thesis
  proof (cases x)
    case None
    show thesis
      by (rule that [of ?m]) (use None x on up in \<open>simp_all add: return_connection_def drop_ref_def put_sys_def psys_def proxy_ok_def\<close>)
  next
    case (Some y)
    then have y: "x = Some r" "manager_ok H U ?m" "\<not> connected s r" using x(5) by auto
    obtain u where u: "ref_drop api (Some r) (msys ?m) = Inr u" "manager_ok H (U - {r}) (?m\<lparr>msys := u\<rparr>)"
      "same_on (U - {r}) (msys ?m) u" "keeps_blocks (msys ?m) u"
      by (rule drop_manager [OF y(2) r, of api]) (use y(3) in simp)
    have "return_connection api (Some q) r st = Inr (st\<lparr>mgr := ?m\<lparr>msys := u\<rparr>\<rparr>)"
      using on y(1) u(1) by (simp add: return_connection_def drop_ref_def put_sys_def psys_def)
    then show thesis
      by (rule that) (use up u x(2,3) keeps_blocks_trans same_on_trans in \<open>fastforce simp: proxy_ok_def psys_def\<close>)+
  qed
qed

section \<open>A task\<close>

lemma IsConnected_known: "execs s r \<noteq> None \<Longrightarrow> IsConnected r s = Inr (connected s r)"
  by (auto simp: IsConnected_def)

lemma connected_exists: "connected s r \<Longrightarrow> execs s r \<noteq> None"
  by (auto simp: connected_def split: option.splits)

lemma keeps_results: "keeps_blocks s t \<Longrightarrow> results_wf t res = results_wf s res"
  by (simp add: keeps_blocks_def results_wf_def)

lemma connection_error_freed:
  assumes "handle (psys st) r = Some h" and "h \<notin> mysqls (psys st)"
  shows "connection_error F api r st = Inl Use_after_free"
  using assms by (auto simp: connection_error_def GetErrorMessage_def handle_def split: option.splits)

lemma invoke_refused:
  assumes "task_connection api H (ctx_addr ctx) x st = Inr ((q, r), st1)" and "\<not> connected (psys st1) r"
    and "handle (psys st1) r = Some h" and "h \<notin> mysqls (psys st1)"
  shows "invoke_task F api H run x ctx res st = Inl Use_after_free"
proof -
  have "IsConnected r (psys st1) = Inr False" using assms(2,3) IsConnected_known [of "psys st1" r]
    by (auto simp: handle_def split: option.splits)
  with assms(1) connection_error_freed [OF assms(3,4)] show ?thesis by (simp add: invoke_task_def)
qed

lemma async_refused:
  assumes "task_connection api H (ctx_addr ctx) x st = Inr ((q, r), st1)" and "\<not> connected (psys st1) r"
    and "handle (psys st1) r = Some h" and "h \<notin> mysqls (psys st1)"
  shows "async_task F api H run m x ctx st = Inl Use_after_free"
proof -
  have "IsConnected r (psys st1) = Inr False" using assms(2,3) IsConnected_known [of "psys st1" r]
    by (auto simp: handle_def split: option.splits)
  with assms(1) connection_error_freed [OF assms(3,4)] show ?thesis by (simp add: async_task_def)
qed

context connection_user begin

text \<open>A task on a connection of the pool.\<close>

lemma task_pool:
  assumes H: "hashmap_laws H" and ok: "proxy_ok H U st" and oom: "no_oom api" and acc: "accepts api"
    and res: "suits res" "results_wf (psys st) res"
  obtains r s b res' t m where "run r res s = Inr (b, res', t)"
    and "\<And>ctx. ctx_addr ctx = a \<Longrightarrow> invoke_task F api H run None ctx res st = Inr (ctx, res', st\<lparr>mgr := m\<rparr>)"
    and "proxy_ok H U (st\<lparr>mgr := m\<rparr>)" and "same_on U (psys st) (msys m)" and "results_wf (msys m) res'"
    and "stmts (msys m) = stmts (psys st)" and "uses_connection s t" and "\<exists>h. query_start r h res s"
    and "\<exists>q m1. task_connection api H a None st = Inr ((Some q, r), st\<lparr>mgr := m1\<rparr>) \<and> msys m1 = s \<and> connected s r \<and>
      return_connection api (Some q) r (put_sys t (st\<lparr>mgr := m1\<rparr>)) = Inr (st\<lparr>mgr := m\<rparr>)"
proof -
  obtain q r m1 where c: "task_connection api H a None st = Inr ((Some q, r), st\<lparr>mgr := m1\<rparr>)" "r \<notin> U"
    "same_on U (psys st) (msys m1)" "keeps_blocks (psys st) (msys m1)" "pools m1 q \<noteq> None"
    "proxy_ok H (insert r U) (st\<lparr>mgr := m1\<rparr>)" "connected (msys m1) r"
    by (rule task_connection_pool [OF H ok oom, of a]) (use acc in blast)
  have m: "manager_ok H (insert r U) m1" using c(6) by (simp add: proxy_ok_def)
  have wf1: "results_wf (msys m1) res" using keeps_results [OF c(4), of res] res(2) by simp
  obtain b res' t where t: "run r res (msys m1) = Inr (b, res', t)" "manager_ok H (insert r U) (m1\<lparr>msys := t\<rparr>)"
    "uses_connection (msys m1) t" "results_wf t res'" "\<exists>h. query_start r h res (msys m1)"
    by (rule run_manager [OF m _ c(7) res(1) wf1]) auto
  let ?st = "put_sys t (st\<lparr>mgr := m1\<rparr>)"
  have ok2: "proxy_ok H (insert r U) ?st" by (rule proxy_ok_put [OF c(6)]) (use t(2) in simp)
  obtain m where m: "return_connection api (Some q) r ?st = Inr (?st\<lparr>mgr := m\<rparr>)"
    "proxy_ok H (insert r U - {r}) (?st\<lparr>mgr := m\<rparr>)" "same_on (insert r U - {r}) (psys ?st) (msys m)"
    "keeps_blocks (psys ?st) (msys m)"
    by (rule return_connection_pool [OF ok2, of q r api]) (use c(5) in auto)
  have U: "insert r U - {r} = U" using c(2) by blast
  have fin: "?st\<lparr>mgr := m\<rparr> = st\<lparr>mgr := m\<rparr>" by (simp add: put_sys_def)
  have inv: "invoke_task F api H run None ctx res st = Inr (ctx, res', st\<lparr>mgr := m\<rparr>)" if "ctx_addr ctx = a" for ctx
    using c(1,7) IsConnected_known [OF connected_exists [OF c(7)]] t(1) m(1) that
    by (simp add: invoke_task_def fin)
  have "same_on U (psys st) (msys m)"
    using c(3) t(3) m(3) by (simp add: U same_on_def uses_connection_def)
  moreover have "results_wf (msys m) res'" using keeps_results [OF m(4), of res'] t(4) by simp
  moreover have "stmts (msys m) = stmts (psys st)" using c(4) t(3) m(4) by (simp add: keeps_blocks_def uses_connection_def)
  moreover have "\<exists>q m2. task_connection api H a None st = Inr ((Some q, r), st\<lparr>mgr := m2\<rparr>) \<and> msys m2 = msys m1 \<and>
      connected (msys m1) r \<and> return_connection api (Some q) r (put_sys t (st\<lparr>mgr := m2\<rparr>)) = Inr (st\<lparr>mgr := m\<rparr>)"
    using c(1,7) m(1) fin by auto
  moreover have "proxy_ok H U (st\<lparr>mgr := m\<rparr>)" using m(2) by (simp only: U fin)
  ultimately show thesis using that [OF t(1) inv _ _ _ _ t(3) t(5)] by blast
qed

end

section \<open>The calls that meet the contract\<close>

text \<open>\<open>serves api args\<close>: what \<^verbatim>\<open>Execute\<close> with arguments relies on: the server answers pings, result
  sets can be freed, and the text has at most as many markers as there are arguments.\<close>

definition serves :: "'w mysql_api \<Rightarrow> input_arg list \<Rightarrow> bool" where
  "serves api args \<longleftrightarrow>
     args = [] \<or> frees api \<and> (\<forall>h w. fst (c_ping api h w) = 0) \<and> (\<forall>b w. unat (s_param_count api b w) \<le> length args)"

lemma exec_without_args_uses:
  assumes "query_start r h res s"
  shows "\<exists>ok res' t. Execute api r res query [] s = Inr (ok, res', t) \<and> uses_connection s t \<and> results_wf t res'"
proof -
  obtain e where e: "execs s r = Some e" "mysql e = Some h" "h \<in> mysqls s" and wf: "results_wf s res"
    using assms by (auto simp: query_start_def)
  obtain ret w where q: "c_real_query api h query (lib s) = (ret, w)" by fastforce
  have "uses_connection s (s\<lparr>lib := w\<rparr>)" by (simp add: uses_connection_def)
  moreover have "results_wf (s\<lparr>lib := w\<rparr>) (SetAffectedRows n (set_error m k res))"
    "results_wf (s\<lparr>lib := w\<rparr>) (SetAffectedRows n res)" for n m k
    using wf by (simp_all add: results_wf_def SetAffectedRows_def)
  ultimately show ?thesis using Execute_without_arguments [OF e q, of res] by (cases "ret = 0") auto
qed

interpretation exec_call: connection_user "run_exec api query args" "\<lambda>_. serves api args"
  for api :: "'w mysql_api" and query args
proof unfold_locales
  fix res :: "'r results" and r h and s :: "'w sys" assume sv: "serves api args" and st: "query_start r h res s"
  show "\<exists>ok res' t. run_exec api query args r res s = Inr (ok, res', t) \<and> uses_connection s t \<and> results_wf t res'"
  proof (cases "args = []")
    case True
    then show ?thesis using exec_without_args_uses [OF st] by (simp add: run_exec_def)
  next
    case False
    then have "frees api" "\<And>h w. fst (c_ping api h w) = 0" "\<And>b w. unat (s_param_count api b w) \<le> length args"
      using sv by (auto simp: serves_def)
    from execute_spec [OF st this(1) False this(2,3)] obtain res' t where
      "Execute api r res query args s = Inr (True, res', t)" "mysql_res res' = None" "execs t = execs s"
      "mysqls t = mysqls s" "stmts t = stmts s" "ress t = ress s - set_option (mysql_res res)"
      "next_block s \<le> next_block t" by blast
    then show ?thesis by (auto simp: run_exec_def uses_connection_def results_wf_def)
  qed
qed

text \<open>\<open>one_cell_per_field api\<close>: every row of a stored result has one cell per field.\<close>

definition one_cell_per_field :: "'w mysql_api \<Rightarrow> bool" where
  "one_cell_per_field api \<longleftrightarrow> (\<forall>b w. \<forall>row \<in> set (c_rows api b w). length row = length (c_fetch_fields api b w))"

lemma conn_fail_eq:
  assumes "execs s r = Some e" and "mysql e = Some h" and "h \<in> mysqls s"
  shows "conn_fail api r x res s = Inr (x, set_error (c_error api (Some h) (lib s)) (c_errno api (Some h) (lib s)) res, s)"
  using assms by (simp add: conn_fail_def GetErrorMessage_def GetErrorNumber_def)

lemma QueryAll_native_uses:
  assumes st: "query_start r h res s" and mode: "mode res \<noteq> OnlyExec" and rect: "one_cell_per_field api"
  shows "\<exists>ok res' t. QueryAll_native fmt tfmt api r res query args s = Inr (ok, res', t) \<and> uses_connection s t \<and> results_wf t res'"
proof -
  let ?s1 = "s\<lparr>lib := cleared_world api res s, ress := ress s - set_option (mysql_res res)\<rparr>"
  let ?text = "FormatQuery fmt tfmt query args"
  obtain e where e: "execs s r = Some e" "mysql e = Some h" "h \<in> mysqls s" and wf: "results_wf s res"
    using st by (auto simp: query_start_def)
  have clear: "Clear api res s = Inr (cleared res, ?s1)" by (rule Clear_cleared_world [OF wf])
  obtain ret w1 where q: "c_real_query api h ?text (cleared_world api res s) = (ret, w1)" by fastforce
  have call: "mysql_call (mysql e) (\<lambda>h. c_real_query api h ?text) ?s1 = Inr (ret, ?s1\<lparr>lib := w1\<rparr>)"
    using e(2,3) q by (simp add: mysql_call_def)
  have exec: "get_exec r ?s1 = Inr e" using e(1) by simp
  have fail: "\<exists>ok res' t. QueryAll_native fmt tfmt api r res query args s = Inr (ok, res', t) \<and> uses_connection s t \<and> results_wf t res'"
    if "QueryAllInternal_native fmt tfmt api r res query args s = conn_fail api r False (cleared res) (?s1\<lparr>lib := w\<rparr>)" for w
  proof -
    have "conn_fail api r False (cleared res) (?s1\<lparr>lib := w\<rparr>) =
        Inr (False, set_error (c_error api (Some h) w) (c_errno api (Some h) w) (cleared res), ?s1\<lparr>lib := w\<rparr>)"
      using conn_fail_eq [of "?s1\<lparr>lib := w\<rparr>" r e h] e by simp
    with that mode show ?thesis
      by (auto simp: QueryAll_native_def QueryAll_def uses_connection_def results_wf_def)
  qed
  show ?thesis
  proof (cases "ret = 0")
    case False
    then show ?thesis
      by (intro fail [of w1]) (simp add: QueryAllInternal_native_def clear exec call)
  next
    case True
    obtain ok w2 where stored: "c_store_result api h (next_block s) w1 = (ok, w2)" by fastforce
    show ?thesis
    proof (cases ok)
      case False
      have "mysql_store_result api (mysql e) (?s1\<lparr>lib := w1\<rparr>) = Inr (None, ?s1\<lparr>lib := w2\<rparr>)"
        using e(2,3) stored False by (simp add: mysql_store_result_def Let_def)
      then show ?thesis
        using True by (intro fail [of w2]) (simp add: QueryAllInternal_native_def clear exec call)
    next
      case ok: True
      have "\<forall>row \<in> set (c_rows api (next_block s) w2). length row = length (c_fetch_fields api (next_block s) w2)"
        using rect by (simp add: one_cell_per_field_def)
      from native_query_spec [OF st mode _ _ this, of fmt tfmt query args w1] q True stored ok
      obtain res' t where t: "QueryAll_native fmt tfmt api r res query args s = Inr (True, res', t)"
        "mysql_res res' = Some (next_block s)" "execs t = execs s" "mysqls t = mysqls s" "stmts t = stmts s"
        "ress t = ress s - set_option (mysql_res res) \<union> {next_block s}" "next_block t = Suc (next_block s)"
        by auto
      then have "uses_connection s t" "results_wf t res'" by (auto simp: uses_connection_def results_wf_def)
      with t(1) show ?thesis by blast
    qed
  qed
qed

interpretation native_call: connection_user "run_native fmt tfmt api query args"
  "\<lambda>res. mode res \<noteq> OnlyExec \<and> one_cell_per_field api" for fmt tfmt and api :: "'w mysql_api" and query args
  by unfold_locales (unfold run_native_def, rule QueryAll_native_uses, simp_all)

lemma QueryAll_typed_uses:
  assumes st: "query_start r h res s" and mode: "mode res \<noteq> OnlyExec"
    and sv: "answers_typed fmt api Ts (res_option res) (length args)"
  shows "\<exists>ok res' t. QueryAll_typed fmt api r Ts res query args s = Inr (ok, res', t) \<and> uses_connection s t \<and> results_wf t res'"
proof -
  obtain ok res' t where t: "QueryAllInternal_typed fmt api r Ts res query args s = Inr (ok, res', t)" "mysql_res res' = None"
    "gone (s\<lparr>lib := cleared_world api res s, ress := ress s - set_option (mysql_res res)\<rparr>) t"
    using QueryAllInternal_typed_returns [OF st sv] by blast
  have "uses_connection s t" using t(3) by (auto simp: uses_connection_def gone_def)
  moreover have "results_wf t (if ok then res'\<lparr>has_value := True\<rparr> else res')" using t(2) by (simp add: results_wf_def)
  moreover have "QueryAll_typed fmt api r Ts res query args s = Inr (ok, if ok then res'\<lparr>has_value := True\<rparr> else res', t)"
    using t(1) mode by (simp add: QueryAll_typed_def QueryAll_def)
  ultimately show ?thesis by blast
qed

interpretation typed_call: connection_user "run_typed fmt api Ts query args"
  "\<lambda>res. mode res \<noteq> OnlyExec \<and> answers_typed fmt api Ts (res_option res) (length args)" for fmt and api :: "'w mysql_api" and Ts query args
  by unfold_locales (unfold run_typed_def, rule QueryAll_typed_uses, simp_all)

section \<open>Calls of the service proxy\<close>

text \<open>The framework's functions change the context and the framework's state only.\<close>

lemma fw_call_eq: obtains a ctx' w where "fw_call f ctx st = (a, ctx', st\<lparr>fw := w\<rparr>)"
  by (cases "f ctx (fw st)") (auto simp: fw_call_def)

lemma fw_do_eq: obtains ctx' w where "fw_do f ctx st = (ctx', st\<lparr>fw := w\<rparr>)"
  by (cases "f ctx (fw st)") (auto simp: fw_do_def)

lemma RunFilters_eq: obtains ctx' w where "RunFilters F p ctx st = (ctx', st\<lparr>fw := w\<rparr>)"
  by (cases "run_filters F p ctx (fw st)") (auto simp: RunFilters_def fw_call_def)

text \<open>\<open>settled\<close>: what a call that returned left behind. Every connection it took is back, the
  executors in use, the statements and the ownership of results are as they were.\<close>

definition settled ::
  "'m hashmap_api \<Rightarrow> nat set \<Rightarrow> ('m, 'w, 'f) proxy \<Rightarrow> ('m, 'w, 'f) proxy \<Rightarrow> 'r results \<Rightarrow> bool" where
  "settled H U st st' res \<longleftrightarrow>
     proxy_ok H U st' \<and> same_on U (psys st) (psys st') \<and> stmts (psys st') = stmts (psys st) \<and> results_wf (psys st') res"

lemma settled_fw [simp]:
  "settled H U st (st'\<lparr>fw := w\<rparr>) res = settled H U st st' res"
  "settled H U (st\<lparr>fw := w\<rparr>) st' res = settled H U st st' res"
  by (simp_all add: settled_def)

text \<open>\<open>takes_tasks\<close>: the thread pool accepts every task, as it does until it is stopped or full.\<close>

definition takes_tasks :: "'f framework \<Rightarrow> bool" where
  "takes_tasks F \<longleftrightarrow> (\<forall>w. fst (add_task F w))"

text \<open>A call around a task that settles, whatever filters, time-outs and statistics do.\<close>

lemma UnaryInvoke_settles:
  assumes pool: "thread_pool st \<noteq> None" and tasks: "takes_tasks F" and before: "settled H U st st res"
    and task: "\<And>ctx w. \<exists>ctx' res' st'. invoke_task F api H run x ctx res (st\<lparr>fw := w\<rparr>) = Inr (ctx', res', st') \<and> settled H U st st' res'"
  shows "\<exists>ctx' res' st'. UnaryInvoke F api H run x ctx res st = Inr (ctx', res', st') \<and> settled H U st st' res'"
proof -
  obtain timeout ctx1 w1 where 1: "fw_call (check_timeout F) ctx st = (timeout, ctx1, st\<lparr>fw := w1\<rparr>)" by (rule fw_call_eq)
  obtain ret ctx2 w2 where 2: "fw_call (run_filters F CLIENT_PRE_SEND_MSG) ctx1 (st\<lparr>fw := w1\<rparr>) = (ret, ctx2, st\<lparr>fw := w2\<rparr>)"
    by (rule fw_call_eq [of "run_filters F CLIENT_PRE_SEND_MSG" ctx1 "st\<lparr>fw := w1\<rparr>"]) simp
  have last: "\<exists>ctx'' w. (let (c, s) = fw_do (proxy_statistics F) ctx' st'; (c, s) = RunFilters F CLIENT_POST_RECV_MSG c s
      in Inr (c, res', s)) = (Inr (ctx'', res', st'\<lparr>fw := w\<rparr>) :: (call_context \<times> _ \<times> _) result)" for ctx' res' st'
  proof -
    obtain c w where a: "fw_do (proxy_statistics F) ctx' st' = (c, st'\<lparr>fw := w\<rparr>)" by (rule fw_do_eq)
    obtain c' w' where "RunFilters F CLIENT_POST_RECV_MSG c (st'\<lparr>fw := w\<rparr>) = (c', st'\<lparr>fw := w'\<rparr>)"
      by (rule RunFilters_eq [of F CLIENT_POST_RECV_MSG c "st'\<lparr>fw := w\<rparr>"]) simp
    with a show ?thesis by (intro exI [of _ c'] exI [of _ w']) simp
  qed
  consider (late) timeout | (rejected) "\<not> timeout" "ret \<noteq> 0" | (sent) "\<not> timeout" "ret = 0" by blast
  then show ?thesis
  proof cases
    case late
    with 1 before show ?thesis by (simp add: UnaryInvoke_def)
  next
    case rejected
    obtain c w where "(let (c, s) = fw_do (proxy_statistics F) ctx2 (st\<lparr>fw := w2\<rparr>);
        (c, s) = RunFilters F CLIENT_POST_RECV_MSG c s in Inr (c, res, s)) =
        (Inr (c, res, st\<lparr>fw := w\<rparr>) :: (call_context \<times> _ \<times> _) result)"
      using last [of ctx2 "st\<lparr>fw := w2\<rparr>" res] by auto
    with rejected 1 2 before show ?thesis by (simp add: UnaryInvoke_def)
  next
    case sent
    obtain w3 where 3: "add_task F w2 = (True, w3)" using tasks by (metis prod.exhaust_sel takes_tasks_def)
    obtain ctx' res' st' where 4: "invoke_task F api H run x ctx2 res (st\<lparr>fw := w3\<rparr>) = Inr (ctx', res', st')"
      "settled H U st st' res'" using task by blast
    obtain c w where "(let (c, s) = fw_do (proxy_statistics F) (if OK res' then ctx' else set_status
          \<lparr>frame_ret = fst (results_error res'), status_msg = snd (results_error res')\<rparr> ctx') st';
        (c, s) = RunFilters F CLIENT_POST_RECV_MSG c s in Inr (c, res', s)) =
        (Inr (c, res', st'\<lparr>fw := w\<rparr>) :: (call_context \<times> _ \<times> _) result)"
      using last [of _ st' res'] by blast
    with sent 1 2 3 4 pool show ?thesis by (simp add: UnaryInvoke_def)
  qed
qed

lemma Query_settles:
  assumes unary: "\<And>ctx w. \<exists>ctx' res' st'. UnaryInvoke F api H run None ctx res (st\<lparr>fw := w\<rparr>) = Inr (ctx', res', st') \<and> settled H U st st' res'"
    and before: "settled H U st st res"
  shows "\<exists>ctx' res' st'. Query F api H run ctx res st = Inr (ctx', res', st') \<and> settled H U st st' res'"
proof -
  obtain ctx1 w1 where 1: "fw_do (fill_context F) ctx st = (ctx1, st\<lparr>fw := w1\<rparr>)" by (rule fw_do_eq)
  obtain reject ctx2 w2 where 2: "fw_call (message_filters F CLIENT_PRE_RPC_INVOKE) ctx1 (st\<lparr>fw := w1\<rparr>) = (reject, ctx2, st\<lparr>fw := w2\<rparr>)"
    by (rule fw_call_eq [of "message_filters F CLIENT_PRE_RPC_INVOKE" ctx1 "st\<lparr>fw := w1\<rparr>"]) simp
  obtain ctx3 res3 st3 where 3: "(if reject then Inr (ctx2, res, st\<lparr>fw := w2\<rparr>)
      else UnaryInvoke F api H run None ctx2 res (st\<lparr>fw := w2\<rparr>)) = Inr (ctx3, res3, st3)" "settled H U st st3 res3"
    using unary [of ctx2 w2] before by (cases reject) auto
  obtain ctx4 w4 where "RunFilters F CLIENT_POST_RPC_INVOKE ctx3 st3 = (ctx4, st3\<lparr>fw := w4\<rparr>)" by (rule RunFilters_eq)
  with 1 2 3 show ?thesis by (simp add: Query_def)
qed

context connection_user begin

lemma invoke_task_settles:
  assumes H: "hashmap_laws H" and ok: "proxy_ok H U st" and oom: "no_oom api" and acc: "accepts api"
    and res: "suits res" "results_wf (psys st) res"
  shows "\<exists>ctx' res' st'. invoke_task F api H run None ctx res (st\<lparr>fw := w\<rparr>) = Inr (ctx', res', st') \<and> settled H U st st' res'"
proof -
  obtain res' m where "invoke_task F api H run None ctx res (st\<lparr>fw := w\<rparr>) = Inr (ctx, res', st\<lparr>fw := w\<rparr>\<lparr>mgr := m\<rparr>)"
    "proxy_ok H U (st\<lparr>fw := w\<rparr>\<lparr>mgr := m\<rparr>)" "same_on U (psys st) (msys m)" "results_wf (msys m) res'"
    "stmts (msys m) = stmts (psys st)"
    using task_pool [OF H _ oom acc res(1), of U "st\<lparr>fw := w\<rparr>" "ctx_addr ctx" F] ok res(2) by (metis proxy_ok_fw psys_simps(1))
  then show ?thesis by (fastforce simp: settled_def)
qed

lemma query_settles:
  assumes H: "hashmap_laws H" and ok: "proxy_ok H U st" and oom: "no_oom api" and acc: "accepts api"
    and tasks: "takes_tasks F" and res: "suits res" "results_wf (psys st) res"
  shows "\<exists>ctx' res' st'. Query F api H run ctx res st = Inr (ctx', res', st') \<and> settled H U st st' res'"
proof (rule Query_settles)
  show before: "settled H U st st res" using ok res(2) by (simp add: settled_def)
  show "\<exists>ctx' res' st'. UnaryInvoke F api H run None ctx res (st\<lparr>fw := w\<rparr>) = Inr (ctx', res', st') \<and> settled H U st st' res'"
    for ctx w
    using UnaryInvoke_settles [of "st\<lparr>fw := w\<rparr>" F H U res api run None ctx] ok tasks before
      invoke_task_settles [OF H ok oom acc res, of F] by (simp add: proxy_ok_def)
qed

end

text \<open>The end of a transaction: the handle is in its final state, and the connection in the pool of its
  address, or closed and still the handle's.\<close>

definition node_of :: "executor \<Rightarrow> NodeAddr" where
  "node_of e = \<lparr>na_ip = hostname (conn_option e), na_port = port (conn_option e)\<rparr>"

text \<open>\<open>pooled_for a r m\<close>: the executor waits in a pool under the key of the address.\<close>

definition pooled_for :: "NodeAddr \<Rightarrow> nat \<Rightarrow> ('m, 'w) manager \<Rightarrow> bool" where
  "pooled_for a r m \<longleftrightarrow> (\<exists>q p. pools m q = Some p \<and> r \<in> pooled p \<and> endpoint_key (target p) = endpoint_key a)"

lemma EndTransaction_returns:
  assumes H: "hashmap_laws H" and ok: "proxy_ok H U st" and h: "GetExecutor_of h = Some r" and r: "r \<in> U"
    and e: "execs (psys st) r = Some e"
  obtains x m where "EndTransaction api H rollback (Some h) st =
      Inr (True, Some (TransferExecutor x (SetState (if rollback then kRollBacked else kCommitted) h)), st\<lparr>mgr := m\<rparr>)"
    and "same_on (U - {r}) (psys st) (msys m)" and "keeps_blocks (psys st) (msys m)"
    and "x = None \<Longrightarrow> proxy_ok H (U - {r}) (st\<lparr>mgr := m\<rparr>) \<and> pooled_for (node_of e) r m"
    and "x = None \<Longrightarrow> lib (msys m) = lib (psys st) \<and> connected (msys m) = connected (psys st)"
    and "x \<noteq> None \<Longrightarrow> x = Some r \<and> proxy_ok H U (st\<lparr>mgr := m\<rparr>) \<and> \<not> connected (msys m) r"
proof -
  have up: "has_manager st" "thread_pool st \<noteq> None" and mok: "manager_ok H U (mgr st)"
    using ok by (simp_all add: proxy_ok_def)
  let ?a = "node_of e"
  obtain q m1 p where g: "mgr_Get api H ?a (mgr st) = Inr (q, m1)" "manager_ok H U m1" "pools m1 q = Some p"
    "execs (msys m1) = execs (msys (mgr st))" "keeps_blocks (msys (mgr st)) (msys m1)"
    "lib (msys m1) = lib (msys (mgr st))" "endpoint_key (target p) = endpoint_key ?a"
    by (rule mgr_Get_ok [OF H mok, of api ?a]) blast
  obtain x p' s where x: "Reclaim api 0 (Some r) p (msys m1) = Inr (x, p', s)"
    "same_on (U - {r}) (msys m1) s" "keeps_blocks (msys m1) s"
    "x = None \<Longrightarrow> manager_ok H (U - {r}) (m1\<lparr>pools := (pools m1)(q \<mapsto> p'), msys := s\<rparr>) \<and> r \<in> pooled p'"
    "x = None \<Longrightarrow> lib s = lib (msys m1) \<and> connected s = connected (msys m1)" "target p' = target p"
    "x \<noteq> None \<Longrightarrow> x = Some r \<and> manager_ok H U (m1\<lparr>pools := (pools m1)(q \<mapsto> p'), msys := s\<rparr>) \<and> \<not> connected s r"
    by (rule Reclaim_manager [OF g(2,3) r, of api 0]) blast
  let ?m = "m1\<lparr>pools := (pools m1)(q \<mapsto> p'), msys := s\<rparr>"
  have cm: "connected (msys m1) = connected (psys st)" using g(4) by (simp add: connected_def psys_def fun_eq_iff)
  have "EndTransaction api H rollback (Some h) st =
      Inr (True, Some (TransferExecutor x (SetState (if rollback then kRollBacked else kCommitted) h)), st\<lparr>mgr := ?m\<rparr>)"
    using e up g(1,3) x(1) h
    by (simp add: EndTransaction_def deref_handle_def GetExecutor_of_def SetState_def GetIp_def GetPort_def node_of_def Get_pool_def
        get_mgr_def on_pool_def get_pool_def psys_def)
  moreover have "same_on (U - {r}) (psys st) (msys ?m)" using x(2) g(4) by (simp add: psys_def same_on_def)
  moreover have "keeps_blocks (psys st) (msys ?m)" using keeps_blocks_trans [OF g(5) x(3)] by (simp add: psys_def)
  moreover have "x = None \<Longrightarrow> proxy_ok H (U - {r}) (st\<lparr>mgr := ?m\<rparr>) \<and> pooled_for ?a r ?m"
    using x(4,6) g(7) up by (auto simp: proxy_ok_def pooled_for_def)
  moreover have "x = None \<Longrightarrow> lib (msys ?m) = lib (psys st) \<and> connected (msys ?m) = connected (psys st)"
    using x(5) g(6) cm by (simp add: psys_def)
  moreover have "x \<noteq> None \<Longrightarrow> x = Some r \<and> proxy_ok H U (st\<lparr>mgr := ?m\<rparr>) \<and> \<not> connected (msys ?m) r"
    using x(7) up by (simp add: proxy_ok_def)
  ultimately show thesis by (rule that)
qed

end
