(* ===== verification/Proxy_Properties.thy ===== *)
theory Proxy_Properties
  imports Call_Contract
begin

text \<open>
  Properties of the service proxy: queries on the pools, synchronous and asynchronous.
  \<open>passes F\<close> says that the framework lets calls through: no filter rejects or
  changes the context, no time-out, and the thread pool takes tasks.
\<close>

section \<open>A framework that lets calls through\<close>

definition passes :: "'f framework \<Rightarrow> bool" where
  "passes F \<longleftrightarrow>
     (\<forall>p ctx w. \<exists>w'. message_filters F p ctx w = (False, ctx, w')) \<and>
     (\<forall>p ctx w. \<exists>w'. run_filters F p ctx w = (0, ctx, w')) \<and>
     (\<forall>ctx w. \<exists>w'. check_timeout F ctx w = (False, ctx, w')) \<and>
     (\<forall>ctx w. \<exists>w'. proxy_statistics F ctx w = (ctx, w')) \<and>
     (\<forall>ctx w. \<exists>w'. fill_context F ctx w = (ctx, w')) \<and> takes_tasks F"

lemma passesE:
  assumes "passes F"
  shows passes_filters: "\<exists>w. fw_call (message_filters F p) ctx st = (False, ctx, st\<lparr>fw := w\<rparr>)"
    and passes_run: "\<exists>w. fw_call (run_filters F p) ctx st = (0, ctx, st\<lparr>fw := w\<rparr>)"
    and passes_RunFilters: "\<exists>w. RunFilters F p ctx st = (ctx, st\<lparr>fw := w\<rparr>)"
    and passes_timeout: "\<exists>w. fw_call (check_timeout F) ctx st = (False, ctx, st\<lparr>fw := w\<rparr>)"
    and passes_statistics: "\<exists>w. fw_do (proxy_statistics F) ctx st = (ctx, st\<lparr>fw := w\<rparr>)"
    and passes_fill: "\<exists>w. fw_do (fill_context F) ctx st = (ctx, st\<lparr>fw := w\<rparr>)"
    and passes_tasks: "\<exists>w. add_task F x = (True, w)"
proof -
  obtain w where m: "message_filters F p ctx (fw st) = (False, ctx, w)" using assms unfolding passes_def by blast
  then show "\<exists>w. fw_call (message_filters F p) ctx st = (False, ctx, st\<lparr>fw := w\<rparr>)" by (auto simp: fw_call_def)
  obtain w where r: "run_filters F p ctx (fw st) = (0, ctx, w)" using assms unfolding passes_def by blast
  then show "\<exists>w. fw_call (run_filters F p) ctx st = (0, ctx, st\<lparr>fw := w\<rparr>)"
    "\<exists>w. RunFilters F p ctx st = (ctx, st\<lparr>fw := w\<rparr>)" by (auto simp: fw_call_def RunFilters_def)
  obtain w where "check_timeout F ctx (fw st) = (False, ctx, w)" using assms unfolding passes_def by blast
  then show "\<exists>w. fw_call (check_timeout F) ctx st = (False, ctx, st\<lparr>fw := w\<rparr>)" by (auto simp: fw_call_def)
  obtain w where "proxy_statistics F ctx (fw st) = (ctx, w)" using assms unfolding passes_def by blast
  then show "\<exists>w. fw_do (proxy_statistics F) ctx st = (ctx, st\<lparr>fw := w\<rparr>)" by (auto simp: fw_do_def)
  obtain w where "fill_context F ctx (fw st) = (ctx, w)" using assms unfolding passes_def by blast
  then show "\<exists>w. fw_do (fill_context F) ctx st = (ctx, st\<lparr>fw := w\<rparr>)" by (auto simp: fw_do_def)
  have "fst (add_task F x)" using assms by (simp add: passes_def takes_tasks_def)
  then show "\<exists>w. add_task F x = (True, w)" by (cases "add_task F x") auto
qed

text \<open>The status a call reports: that of the context, or the error the results hold.\<close>

definition final_context :: "call_context \<Rightarrow> 'r results \<Rightarrow> call_context" where
  "final_context ctx res =
     (if OK res then ctx
      else set_status \<lparr>frame_ret = fst (results_error res), status_msg = snd (results_error res)\<rparr> ctx)"

lemma UnaryInvoke_passes_at:
  assumes F: "passes F" and up: "thread_pool st \<noteq> None"
  obtains w where "\<And>ctx' res' st'. invoke_task F api H run x ctx res (st\<lparr>fw := w\<rparr>) = Inr (ctx', res', st') \<Longrightarrow>
    \<exists>w'. UnaryInvoke F api H run x ctx res st = Inr (final_context ctx' res', res', st'\<lparr>fw := w'\<rparr>)"
proof -
  obtain w1 where 1: "fw_call (check_timeout F) ctx st = (False, ctx, st\<lparr>fw := w1\<rparr>)" using passes_timeout [OF F] by blast
  obtain w2 where 2: "fw_call (run_filters F CLIENT_PRE_SEND_MSG) ctx (st\<lparr>fw := w1\<rparr>) = (0, ctx, st\<lparr>fw := w2\<rparr>)"
    using passes_run [OF F, of CLIENT_PRE_SEND_MSG ctx "st\<lparr>fw := w1\<rparr>"] by auto
  obtain w3 where 3: "add_task F w2 = (True, w3)" using passes_tasks [OF F] by blast
  show thesis
  proof (rule that)
    fix ctx' res' st' assume t: "invoke_task F api H run x ctx res (st\<lparr>fw := w3\<rparr>) = Inr (ctx', res', st')"
    let ?c = "final_context ctx' res'"
    obtain w4 where 4: "fw_do (proxy_statistics F) ?c st' = (?c, st'\<lparr>fw := w4\<rparr>)" using passes_statistics [OF F] by blast
    obtain w5 where 5: "RunFilters F CLIENT_POST_RECV_MSG ?c (st'\<lparr>fw := w4\<rparr>) = (?c, st'\<lparr>fw := w5\<rparr>)"
      using passes_RunFilters [OF F, of CLIENT_POST_RECV_MSG ?c "st'\<lparr>fw := w4\<rparr>"] by auto
    show "\<exists>w'. UnaryInvoke F api H run x ctx res st = Inr (?c, res', st'\<lparr>fw := w'\<rparr>)"
      using 1 2 3 t 4 5 up by (intro exI [of _ w5]) (simp add: UnaryInvoke_def Let_def final_context_def)
  qed
qed

lemma UnaryInvoke_passes:
  assumes F: "passes F" and up: "thread_pool st \<noteq> None"
    and task: "\<And>w. invoke_task F api H run x ctx res (st\<lparr>fw := w\<rparr>) = Inr (ctx', res', st'\<lparr>fw := w\<rparr>)"
  shows "\<exists>w. UnaryInvoke F api H run x ctx res st = Inr (final_context ctx' res', res', st'\<lparr>fw := w\<rparr>)"
  by (rule UnaryInvoke_passes_at [OF F up, of api H run x ctx res]) (use task in fastforce)

text \<open>A task on the caller's own connected executor.\<close>

lemma own_task:
  assumes "connected (psys st) r" and "run r res (psys st) = Inr (b, res', t)"
  shows "invoke_task F api H run (Some r) ctx res (st\<lparr>fw := w\<rparr>) = Inr (ctx, res', (put_sys t st)\<lparr>fw := w\<rparr>)"
  using IsConnected_known [OF connected_exists [OF assms(1)]] assms
  by (simp add: invoke_task_def task_connection_def return_connection_def)

lemma UnaryInvoke_fails:
  assumes F: "passes F" and up: "thread_pool st \<noteq> None"
    and task: "\<And>w. invoke_task F api H run x ctx res (st\<lparr>fw := w\<rparr>) = Inl f"
  shows "UnaryInvoke F api H run x ctx res st = Inl f"
proof -
  obtain w1 where 1: "fw_call (check_timeout F) ctx st = (False, ctx, st\<lparr>fw := w1\<rparr>)" using passes_timeout [OF F] by blast
  obtain w2 where 2: "fw_call (run_filters F CLIENT_PRE_SEND_MSG) ctx (st\<lparr>fw := w1\<rparr>) = (0, ctx, st\<lparr>fw := w2\<rparr>)"
    using passes_run [OF F, of CLIENT_PRE_SEND_MSG ctx "st\<lparr>fw := w1\<rparr>"] by auto
  obtain w3 where 3: "add_task F w2 = (True, w3)" using passes_tasks [OF F] by blast
  show ?thesis using 1 2 3 task [of w3] up by (auto simp: UnaryInvoke_def)
qed

lemma UnaryInvoke_own:
  assumes F: "passes F" and "thread_pool st \<noteq> None" and "connected (psys st) r"
    and "run r res (psys st) = Inr (b, res', t)"
  shows "\<exists>w. UnaryInvoke F api H run (Some r) ctx res st = Inr (final_context ctx res', res', (put_sys t st)\<lparr>fw := w\<rparr>)"
  by (rule UnaryInvoke_passes [OF F assms(2)]) (rule own_task [OF assms(3), of run, OF assms(4)])

section \<open>A proxy for examples\<close>

definition demo_framework :: "unit framework" where
  "demo_framework =
     \<lparr>fill_context = (\<lambda>ctx w. (ctx, w)), message_filters = (\<lambda>_ ctx w. (False, ctx, w)),
      run_filters = (\<lambda>_ ctx w. (0, ctx, w)), check_timeout = (\<lambda>ctx w. (False, ctx, w)),
      proxy_statistics = (\<lambda>ctx w. (ctx, w)),
      new_context = (\<lambda>w. (\<lparr>ctx_status = status_ok, ctx_addr = demo_addr\<rparr>, w)),
      select_target = (\<lambda>ctx w. (True, ctx, w)), add_task = (\<lambda>w. (True, w)), tp_start = (\<lambda>_ w. w),
      tp_stop = (\<lambda>w. w), tp_join = (\<lambda>w. w), parse_bind_core = (\<lambda>_ w. w), base_set_option = (\<lambda>w. w),
      base_stop = (\<lambda>w. w), base_destroy = (\<lambda>w. w), service_name = (\<lambda>_. ''mysql''), format_string = demo_formatter,
      status_to_string = status_msg, unknown_error = \<lparr>frame_ret = -1, status_msg = []\<rparr>,
      failed_future_value = Inl Assertion_failed, client_connect_err = 141\<rparr>"

lemma demo_passes: "passes demo_framework"
  by (simp add: passes_def takes_tasks_def demo_framework_def)

text \<open>A library that always connects, and one whose server refuses.\<close>

definition open_api :: "demo_world mysql_api" where
  "open_api = demo_api\<lparr>c_real_connect := (\<lambda>_ _ w. (True, w)), c_ping := (\<lambda>_ w. (0, w))\<rparr>"

definition shut_api :: "demo_world mysql_api" where
  "shut_api = demo_api\<lparr>c_real_connect := (\<lambda>_ _ w. (False, w))\<rparr>"

lemma open_api_laws: "accepts open_api" "no_oom open_api" "serves open_api args"
  by (simp_all add: accepts_def no_oom_def serves_def frees_def open_api_def demo_api_def)

text \<open>No pool yet, and executor 0, connected, in use.\<close>

definition demo_proxy :: "((string \<times> nat) list, demo_world, unit) proxy" where
  "demo_proxy =
     \<lparr>has_manager = True, mgr = \<lparr>executor_pools = [], pools_to_destroy = [], mgr_option = demo_option 10,
        pools = Map.empty, msys = demo_sys True True\<rparr>,
      thread_pool = Some \<lparr>tp_thread_num = 4, tp_bind_core = False\<rparr>, mysql_conf = MysqlClientConf_default,
      proxy_option = \<lparr>so_name = ''mysql'', max_conn_num = 64, idle_time = 0\<rparr>, fw = ()\<rparr>"

definition demo_context :: call_context where
  "demo_context = \<lparr>ctx_status = status_ok, ctx_addr = demo_addr\<rparr>"

lemma demo_proxy_psys [simp]: "psys demo_proxy = demo_sys True True" "thread_pool demo_proxy \<noteq> None"
  by (simp_all add: psys_def demo_proxy_def)

lemma demo_proxy_ok: "proxy_ok demo_map {0} demo_proxy"
proof -
  have "held {0} (demo_sys True True)" using demo_sys_wf by (simp add: held_def single_refs_def)
  then show ?thesis
    by (auto simp: proxy_ok_def demo_proxy_def manager_ok_def mgr_ok_def pooled_at_def others_def demo_option_def
        map_of_mgr_def demo_map_def demo_sys_def)
qed

section \<open>Queries\<close>

text \<open>With a framework that lets calls through, a query on the pools runs its statement on a connected
  executor, and returns what that delivered.\<close>

lemma Query_passes_at:
  assumes F: "passes F" and up: "thread_pool st \<noteq> None"
  obtains w where "\<And>ctx' res' st'. invoke_task F api H run None ctx res (st\<lparr>fw := w\<rparr>) = Inr (ctx', res', st') \<Longrightarrow>
    \<exists>w'. Query F api H run ctx res st = Inr (final_context ctx' res', res', st'\<lparr>fw := w'\<rparr>)"
proof -
  obtain w1 where 1: "fw_do (fill_context F) ctx st = (ctx, st\<lparr>fw := w1\<rparr>)" using passes_fill [OF F] by blast
  obtain w2 where 2: "fw_call (message_filters F CLIENT_PRE_RPC_INVOKE) ctx (st\<lparr>fw := w1\<rparr>) = (False, ctx, st\<lparr>fw := w2\<rparr>)"
    using passes_filters [OF F, of CLIENT_PRE_RPC_INVOKE ctx "st\<lparr>fw := w1\<rparr>"] by auto
  obtain w3 where 3: "\<And>ctx' res' st'. invoke_task F api H run None ctx res (st\<lparr>fw := w3\<rparr>) = Inr (ctx', res', st') \<Longrightarrow>
      \<exists>w. UnaryInvoke F api H run None ctx res (st\<lparr>fw := w2\<rparr>) = Inr (final_context ctx' res', res', st'\<lparr>fw := w\<rparr>)"
    by (rule UnaryInvoke_passes_at [OF F, of "st\<lparr>fw := w2\<rparr>" api H run None ctx res]) (use up in auto)
  show thesis
  proof (rule that)
    fix ctx' res' st' assume t: "invoke_task F api H run None ctx res (st\<lparr>fw := w3\<rparr>) = Inr (ctx', res', st')"
    obtain w4 where 4: "UnaryInvoke F api H run None ctx res (st\<lparr>fw := w2\<rparr>) = Inr (final_context ctx' res', res', st'\<lparr>fw := w4\<rparr>)"
      using 3 [OF t] by blast
    obtain w5 where "RunFilters F CLIENT_POST_RPC_INVOKE (final_context ctx' res') (st'\<lparr>fw := w4\<rparr>) =
        (final_context ctx' res', st'\<lparr>fw := w5\<rparr>)"
      using passes_RunFilters [OF F, of CLIENT_POST_RPC_INVOKE _ "st'\<lparr>fw := w4\<rparr>"] by auto
    with 1 2 4 show "\<exists>w'. Query F api H run ctx res st = Inr (final_context ctx' res', res', st'\<lparr>fw := w'\<rparr>)"
      by (intro exI [of _ w5]) (simp add: Query_def)
  qed
qed

context connection_user begin

lemma Query_delivers:
  assumes F: "passes F" and H: "hashmap_laws H" and ok: "proxy_ok H U st" and oom: "no_oom api" and acc: "accepts api"
    and res: "suits res" "results_wf (psys st) res"
  obtains r h s b res' t st' where "query_start r h res s" and "run r res s = Inr (b, res', t)"
    and "Query F api H run ctx res st = Inr (final_context ctx res', res', st')" and "settled H U st st' res'"
proof -
  have up: "thread_pool st \<noteq> None" using ok by (simp add: proxy_ok_def)
  obtain w where w: "\<And>ctx' res' st'. invoke_task F api H run None ctx res (st\<lparr>fw := w\<rparr>) = Inr (ctx', res', st') \<Longrightarrow>
      \<exists>w'. Query F api H run ctx res st = Inr (final_context ctx' res', res', st'\<lparr>fw := w'\<rparr>)"
    by (rule Query_passes_at [OF F up, of api H run ctx res]) blast
  let ?st = "st\<lparr>fw := w\<rparr>"
  have okw: "proxy_ok H U ?st" and wf: "results_wf (psys ?st) res" using ok res(2) by simp_all
  obtain r s b res' t m where t: "run r res s = Inr (b, res', t)" "\<exists>h. query_start r h res s"
    "\<And>ctx'. ctx_addr ctx' = ctx_addr ctx \<Longrightarrow> invoke_task F api H run None ctx' res ?st = Inr (ctx', res', ?st\<lparr>mgr := m\<rparr>)"
    "proxy_ok H U (?st\<lparr>mgr := m\<rparr>)" "same_on U (psys ?st) (msys m)" "results_wf (msys m) res'"
    "stmts (msys m) = stmts (psys ?st)"
    by (rule task_pool [OF H okw oom acc res(1) wf, of "ctx_addr ctx" F]) blast
  obtain w' where q: "Query F api H run ctx res st = Inr (final_context ctx res', res', (?st\<lparr>mgr := m\<rparr>)\<lparr>fw := w'\<rparr>)"
    using w [OF t(3) [OF refl]] by blast
  have "settled H U st (?st\<lparr>mgr := m\<rparr>) res'" using t(4-7) by (simp add: settled_def)
  then have "settled H U st ((?st\<lparr>mgr := m\<rparr>)\<lparr>fw := w'\<rparr>) res'" by (simp only: settled_fw)
  with t(1,2) q show thesis using that by blast
qed

end

lemma typed_rows_arrive:
  assumes F: "passes F" and H: "hashmap_laws H" and ok: "proxy_ok H U st" and oom: "no_oom api" and acc: "accepts api"
    and res: "results_wf (psys st) res" "mode res \<noteq> OnlyExec" "error_number res = 0"
    and sv: "stmt_succeeds api fm (length args)" "columns_valid Ts fm"
    and rows: "\<And>b w. \<exists>w'. fetches api b (snd (s_store_result api b w)) rows w'" and fit: "rows_fit (res_option res) Ts fm rows"
  shows "\<exists>res' st'. Query F api H (run_typed fmt api Ts sql_str args) ctx res st = Inr (ctx, res', st') \<and>
    list_all2 (row_matches Ts) rows (ResultSet res') \<and> GetNullFlag res' = map (map (\<lambda>v. v = None)) rows \<and>
    GetFieldsName res' = map field_name fm \<and> OK res' \<and> settled H U st st' res'"
proof -
  have "answers_typed fmt api Ts (res_option res) (length args)" by (rule succeeds_answers [OF sv rows fit])
  then obtain r h s b res' t st' where q: "query_start r h res s" "run_typed fmt api Ts sql_str args r res s = Inr (b, res', t)"
    "Query F api H (run_typed fmt api Ts sql_str args) ctx res st = Inr (final_context ctx res', res', st')" "settled H U st st' res'"
    using typed_call.Query_delivers [OF F H ok oom acc _ res(1), where query = sql_str and ctx = ctx and Ts = Ts and args = args]
      res(2) by blast
  obtain res2 t2 where "QueryAll_typed fmt api r Ts res sql_str args s = Inr (True, res2, t2)"
    "list_all2 (row_matches Ts) rows (result_set res2)" "null_flags res2 = map (map (\<lambda>v. v = None)) rows"
    "fields_name res2 = map field_name fm" "error_number res2 = error_number res"
    using typed_query_spec [OF q(1) res(2) sv, where P = "\<lambda>r. r = rows" and fmt = fmt and query = sql_str] rows fit by blast
  with q(2) res(3) have "list_all2 (row_matches Ts) rows (ResultSet res')" "GetNullFlag res' = map (map (\<lambda>v. v = None)) rows"
    "GetFieldsName res' = map field_name fm" "OK res'"
    by (simp_all add: run_typed_def ResultSet_def GetNullFlag_def GetFieldsName_def OK_def)
  moreover from this(4) have "final_context ctx res' = ctx" by (simp add: final_context_def)
  ultimately show ?thesis using q(3,4) by auto
qed





text \<open>C32: The first query to a node whose server refuses the connection never reports the failure: the
  error message it would report is read from the handle \<^verbatim>\<open>Connect\<close> just closed.\<close>

theorem refused_query_reads_freed_handle:
  assumes F: "passes F" and H: "hashmap_laws H" and ok: "proxy_ok H U st" and oom: "no_oom api" and ref: "refuses api"
    and new: "map_of_mgr H (mgr st) (endpoint_key (ctx_addr ctx)) = None"
  shows "Query F api H run ctx res st = Inl Use_after_free"
proof -
  obtain w1 where 1: "fw_do (fill_context F) ctx st = (ctx, st\<lparr>fw := w1\<rparr>)" using passes_fill [OF F] by blast
  obtain w2 where 2: "fw_call (message_filters F CLIENT_PRE_RPC_INVOKE) ctx (st\<lparr>fw := w1\<rparr>) = (False, ctx, st\<lparr>fw := w2\<rparr>)"
    using passes_filters [OF F, of CLIENT_PRE_RPC_INVOKE ctx "st\<lparr>fw := w1\<rparr>"] by auto
  have "UnaryInvoke F api H run None ctx res (st\<lparr>fw := w2\<rparr>) = Inl Use_after_free"
  proof (rule UnaryInvoke_fails [OF F])
    show "thread_pool (st\<lparr>fw := w2\<rparr>) \<noteq> None" using ok by (simp add: proxy_ok_def)
    fix w
    let ?st = "st\<lparr>fw := w2\<rparr>\<lparr>fw := w\<rparr>"
    have okw: "proxy_ok H U ?st" and neww: "map_of_mgr H (mgr ?st) (endpoint_key (ctx_addr ctx)) = None"
      using ok new by simp_all
    obtain q r m where "task_connection api H (ctx_addr ctx) None ?st = Inr ((Some q, r), ?st\<lparr>mgr := m\<rparr>)"
      "\<not> connected (msys m) r" "\<exists>h. handle (msys m) r = Some h \<and> h \<notin> mysqls (msys m)"
      by (rule task_connection_pool [OF H okw oom, of "ctx_addr ctx"]) (use ref neww in blast)
    then show "invoke_task F api H run None ctx res ?st = Inl Use_after_free" using invoke_refused by fastforce
  qed
  with 1 2 show ?thesis by (simp add: Query_def)
qed

theorem refused_query_reads_freed_handle_witness:
  "Query demo_framework shut_api demo_map (run_exec shut_api ''select 1'' []) demo_context
    (MysqlResults_new OnlyExec :: unit results) demo_proxy = Inl Use_after_free"
  by (rule refused_query_reads_freed_handle [OF demo_passes demo_map_laws demo_proxy_ok])
    (simp_all add: no_oom_def refuses_def shut_api_def demo_api_def map_of_mgr_def demo_map_def demo_proxy_def)

text \<open>When the thread pool does not take the task, which the code does not look at, the caller
  waits for ever: the task that would wake it does not exist.\<close>

theorem lost_task_never_returns:
  assumes time: "\<And>ctx w. fst (check_timeout F ctx w) = False" and run: "\<And>p ctx w. fst (run_filters F p ctx w) = 0"
    and filters: "\<And>p ctx w. \<not> fst (message_filters F p ctx w)" and full: "\<And>w. \<not> fst (add_task F w)"
    and up: "thread_pool st \<noteq> None"
  shows "Query F api H runner ctx res st = Inl Diverges"
proof -
  have "UnaryInvoke F api H runner None c res s = Inl Diverges" if "thread_pool s \<noteq> None" for c s
  proof -
    obtain c1 w1 where 1: "fw_call (check_timeout F) c s = (False, c1, s\<lparr>fw := w1\<rparr>)"
      using time [of c "fw s"] by (cases "check_timeout F c (fw s)") (simp add: fw_call_def)
    obtain c2 w2 where 2: "fw_call (run_filters F CLIENT_PRE_SEND_MSG) c1 (s\<lparr>fw := w1\<rparr>) = (0, c2, s\<lparr>fw := w2\<rparr>)"
      using run [of CLIENT_PRE_SEND_MSG c1 w1] by (cases "run_filters F CLIENT_PRE_SEND_MSG c1 w1") (simp add: fw_call_def)
    show ?thesis using 1 2 full [of w2] that by (auto simp: UnaryInvoke_def split: prod.splits)
  qed
  moreover obtain c1 w1 where 1: "fw_do (fill_context F) ctx st = (c1, st\<lparr>fw := w1\<rparr>)" by (rule fw_do_eq)
  moreover obtain c2 w2 where "fw_call (message_filters F CLIENT_PRE_RPC_INVOKE) c1 (st\<lparr>fw := w1\<rparr>) = (False, c2, st\<lparr>fw := w2\<rparr>)"
    using filters [of CLIENT_PRE_RPC_INVOKE c1 w1]
    by (cases "message_filters F CLIENT_PRE_RPC_INVOKE c1 w1") (simp add: fw_call_def)
  ultimately show ?thesis using up by (simp add: Query_def)
qed

theorem lost_task_never_returns_witness:
  "Query (demo_framework\<lparr>add_task := \<lambda>w. (False, w)\<rparr>) open_api demo_map (run_exec open_api ''select 1'' []) demo_context
    (MysqlResults_new OnlyExec :: unit results) demo_proxy = Inl Diverges"
  by (rule lost_task_never_returns) (simp_all add: demo_framework_def)

section \<open>Synchronous and asynchronous calls\<close>

lemma exec_no_raw_result:
  assumes "run_exec api query args r res s = Inr (b, res', t)" and "mysql_res res = None"
  shows "mysql_res res' = None"
  using assms
  by (auto simp: run_exec_def Execute_def ExecuteInternal_def ExecuteInternal_args_def Clear_def conn_fail_def
      stmt_fail_def SetAffectedRows_def MysqlResults_with_def MysqlResults_new_def bindE_Inr_iff Let_def
      split: if_splits)

lemma move_OK: "OK res \<Longrightarrow> fst (MysqlResults_move res) = res"
  by (simp add: OK_def MysqlResults_move_def)

lemma async_filters_passes:
  assumes "passes F"
  shows "\<exists>w. async_filters F p (ctx, hdl, st) = (ctx, hdl, st\<lparr>fw := w\<rparr>)"
  using passes_RunFilters [OF assms, of p ctx st] by (auto simp: async_filters_def)

text \<open>The whole asynchronous call around a task whose future is known.\<close>

lemma AsyncUnaryInvoke_passes:
  assumes F: "passes F" and up: "thread_pool st \<noteq> None"
    and task: "\<And>w. \<exists>w'. async_task F api H run m None ctx (st\<lparr>fw := w\<rparr>) = Inr (fut, ctx', st'\<lparr>fw := w'\<rparr>)"
    and fut: "fut = Failed msg \<or> fut = Ready res \<and> OK res"
  shows "\<exists>w. AsyncUnaryInvoke F api H run m None (ctx, hdl, st) = Inr (fut, ctx', hdl, st'\<lparr>fw := w\<rparr>)"
proof -
  obtain w1 where 1: "fw_call (check_timeout F) ctx st = (False, ctx, st\<lparr>fw := w1\<rparr>)" using passes_timeout [OF F] by blast
  obtain w2 where 2: "fw_call (run_filters F CLIENT_PRE_SEND_MSG) ctx (st\<lparr>fw := w1\<rparr>) = (0, ctx, st\<lparr>fw := w2\<rparr>)"
    using passes_run [OF F, of CLIENT_PRE_SEND_MSG ctx "st\<lparr>fw := w1\<rparr>"] by auto
  obtain w3 where 3: "add_task F w2 = (True, w3)" using passes_tasks [OF F] by blast
  obtain w4 where 4: "async_task F api H run m None ctx (st\<lparr>fw := w3\<rparr>) = Inr (fut, ctx', st'\<lparr>fw := w4\<rparr>)" using task by blast
  obtain w5 where 5: "async_filters F CLIENT_POST_RECV_MSG (ctx', hdl, st'\<lparr>fw := w4\<rparr>) = (ctx', hdl, st'\<lparr>fw := w5\<rparr>)"
    using async_filters_passes [OF F, of CLIENT_POST_RECV_MSG ctx' hdl "st'\<lparr>fw := w4\<rparr>"] by auto
  show ?thesis
    using 1 2 3 4 5 up fut
    by (intro exI [of _ w5]) (auto simp: AsyncUnaryInvoke_def and_then_def move_OK Let_def)
qed

lemma post_invoke_passes:
  assumes F: "passes F" and fut: "fut = Failed msg \<or> fut = Ready res \<and> OK res"
  shows "\<exists>w. post_invoke F fut (ctx, hdl, st) = Inr (fut, ctx, hdl, st\<lparr>fw := w\<rparr>)"
proof -
  obtain w where "async_filters F CLIENT_POST_RPC_INVOKE (ctx, hdl, st) = (ctx, hdl, st\<lparr>fw := w\<rparr>)"
    using async_filters_passes [OF F] by blast
  with fut show ?thesis by (intro exI [of _ w]) (auto simp: post_invoke_def and_then_def move_OK Let_def)
qed

lemma AsyncQuery_passes:
  assumes F: "passes F" and up: "thread_pool st \<noteq> None"
    and task: "\<And>w. \<exists>w'. async_task F api H run m None ctx (st\<lparr>fw := w\<rparr>) = Inr (fut, ctx', st'\<lparr>fw := w'\<rparr>)"
    and fut: "fut = Failed msg \<or> fut = Ready res \<and> OK res"
  shows "\<exists>w. AsyncQuery F api H run m ctx st = Inr (fut, ctx', None, st'\<lparr>fw := w\<rparr>)"
proof -
  obtain w1 where 1: "fw_do (fill_context F) ctx st = (ctx, st\<lparr>fw := w1\<rparr>)" using passes_fill [OF F] by blast
  obtain w2 where 2: "fw_call (message_filters F CLIENT_PRE_RPC_INVOKE) ctx (st\<lparr>fw := w1\<rparr>) = (False, ctx, st\<lparr>fw := w2\<rparr>)"
    using passes_filters [OF F, of CLIENT_PRE_RPC_INVOKE ctx "st\<lparr>fw := w1\<rparr>"] by auto
  have "\<And>w. \<exists>w'. async_task F api H run m None ctx (st\<lparr>fw := w2\<rparr>\<lparr>fw := w\<rparr>) = Inr (fut, ctx', st'\<lparr>fw := w'\<rparr>)"
    using task by simp
  then obtain w3 where 3: "AsyncUnaryInvoke F api H run m None (ctx, None, st\<lparr>fw := w2\<rparr>) = Inr (fut, ctx', None, st'\<lparr>fw := w3\<rparr>)"
    using AsyncUnaryInvoke_passes [OF F _ _ fut, of "st\<lparr>fw := w2\<rparr>" api H run m ctx ctx' st' None] up by auto
  obtain w4 where "post_invoke F fut (ctx', None, st'\<lparr>fw := w3\<rparr>) = Inr (fut, ctx', None, st'\<lparr>fw := w4\<rparr>)"
    using post_invoke_passes [OF F fut, of ctx' None "st'\<lparr>fw := w3\<rparr>"] by auto
  with 1 2 3 show ?thesis by (intro exI [of _ w4]) (simp add: AsyncQuery_def async_enter_def)
qed

lemma Query_passes:
  assumes F: "passes F" and up: "thread_pool st \<noteq> None"
    and task: "\<And>w. invoke_task F api H run None ctx res (st\<lparr>fw := w\<rparr>) = Inr (ctx', res', st'\<lparr>fw := w\<rparr>)"
  shows "\<exists>w. Query F api H run ctx res st = Inr (final_context ctx' res', res', st'\<lparr>fw := w\<rparr>)"
  by (rule Query_passes_at [OF F up, of api H run ctx res]) (use task in fastforce)

text \<open>Pools are used the same way whatever the framework's state is.\<close>

lemma task_connection_fw:
  assumes "task_connection api H a x st = Inr (y, st\<lparr>mgr := m\<rparr>)"
  shows "task_connection api H a x (st\<lparr>fw := w\<rparr>) = Inr (y, st\<lparr>fw := w\<rparr>\<lparr>mgr := m\<rparr>)"
proof (cases x)
  case None
  with assms obtain q r m1 p p' s where "has_manager st" "mgr_Get api H a (mgr st) = Inr (q, m1)"
    "get_pool q m1 = Inr p" "GetExecutor api p (msys m1) = Inr (r, p', s)" "y = (Some q, r)"
    and eq: "st\<lparr>mgr := m1\<lparr>pools := (pools m1)(q \<mapsto> p'), msys := s\<rparr>\<rparr> = st\<lparr>mgr := m\<rparr>"
    by (auto simp: task_connection_def Get_pool_def get_mgr_def on_pool_def psys_def bindE_Inr_iff split: if_splits)
  moreover have "m1\<lparr>pools := (pools m1)(q \<mapsto> p'), msys := s\<rparr> = m" using arg_cong [OF eq, of mgr] by simp
  ultimately show ?thesis
    using None by (simp add: task_connection_def Get_pool_def get_mgr_def on_pool_def psys_def)
next
  case (Some r)
  with assms have "y = (None, r)" and eq: "st = st\<lparr>mgr := m\<rparr>" by (auto simp: task_connection_def)
  moreover have "mgr st = m" using arg_cong [OF eq, of mgr] by simp
  ultimately show ?thesis using Some by (auto simp: task_connection_def)
qed

lemma return_connection_fw:
  assumes "return_connection api (Some q) r st = Inr (st\<lparr>mgr := m\<rparr>)"
  shows "return_connection api (Some q) r (st\<lparr>fw := w\<rparr>) = Inr (st\<lparr>fw := w\<rparr>\<lparr>mgr := m\<rparr>)"
proof -
  obtain p x p' s u where "get_pool q (mgr st) = Inr p" "Reclaim api 0 (Some r) p (msys (mgr st)) = Inr (x, p', s)"
    "ref_drop api x s = Inr u"
    and eq: "st\<lparr>mgr := (mgr st)\<lparr>pools := (pools (mgr st))(q \<mapsto> p'), msys := u\<rparr>\<rparr> = st\<lparr>mgr := m\<rparr>"
    using assms by (auto simp: return_connection_def on_pool_def drop_ref_def put_sys_def psys_def bindE_Inr_iff)
  moreover have "(mgr st)\<lparr>pools := (pools (mgr st))(q \<mapsto> p'), msys := u\<rparr> = m" using arg_cong [OF eq, of mgr] by simp
  ultimately show ?thesis
    by (simp add: return_connection_def on_pool_def drop_ref_def put_sys_def psys_def)
qed

text \<open>C11: A statement run by \<^verbatim>\<open>AsyncExecute\<close> does what it does by \<^verbatim>\<open>Execute\<close>: the pools, the connections and
  the library are left in the same state. When it succeeds the future is ready with the
  results \<^verbatim>\<open>Execute\<close> fills; when it fails the future has the message of the error, but the
  status of the context, which \<^verbatim>\<open>Execute\<close> sets to the error, is left as it was.\<close>

theorem async_agrees_with_sync:
  assumes F: "passes F" and H: "hashmap_laws H" and ok: "proxy_ok H U st" and oom: "no_oom api" and acc: "accepts api"
    and sv: "serves api args"
  shows "\<exists>res1 st1 w w'. proxy_Execute F api H (run_exec api sql_str args) ctx (MysqlResults_new OnlyExec :: unit results) st =
      Inr (final_context ctx res1, res1, st1\<lparr>fw := w\<rparr>) \<and>
    AsyncExecute F api H (run_exec api sql_str args) OnlyExec ctx st =
      Inr (if OK res1 then Ready res1 else Failed (error_message res1), ctx, None, st1\<lparr>fw := w'\<rparr>)"
proof -
  let ?run = "run_exec api sql_str args :: (unit, _) runner" and ?res = "MysqlResults_new OnlyExec :: unit results"
  have none: "mysql_res ?res = None" by (simp add: MysqlResults_new_def)
  then have wf: "results_wf (psys st) ?res" by (simp add: results_wf_def)
  obtain r s b res1 t m where p: "?run r ?res s = Inr (b, res1, t)"
    "\<And>c. ctx_addr c = ctx_addr ctx \<Longrightarrow> invoke_task F api H ?run None c ?res st = Inr (c, res1, st\<lparr>mgr := m\<rparr>)"
    "\<exists>q m1. task_connection api H (ctx_addr ctx) None st = Inr ((Some q, r), st\<lparr>mgr := m1\<rparr>) \<and> msys m1 = s \<and>
      connected s r \<and> return_connection api (Some q) r (put_sys t (st\<lparr>mgr := m1\<rparr>)) = Inr (st\<lparr>mgr := m\<rparr>)"
    by (rule exec_call.task_pool [OF H ok oom acc sv wf, where a = "ctx_addr ctx" and query = sql_str and F = F]) blast
  then obtain q m1 where c: "task_connection api H (ctx_addr ctx) None st = Inr ((Some q, r), st\<lparr>mgr := m1\<rparr>)"
    "connected (msys m1) r" "?run r ?res (msys m1) = Inr (b, res1, t)"
    "return_connection api (Some q) r (put_sys t (st\<lparr>mgr := m1\<rparr>)) = Inr (st\<lparr>mgr := m\<rparr>)" by blast
  have ret: "return_connection api (Some q) r (put_sys t (st\<lparr>mgr := m1\<rparr>)) = Inr ((put_sys t (st\<lparr>mgr := m1\<rparr>))\<lparr>mgr := m\<rparr>)"
    using c(4) by (simp add: put_sys_def)
  have con: "IsConnected r (msys m1) = Inr True"
    using IsConnected_known [OF connected_exists [OF c(2)]] c(2) by simp
  have raw: "mysql_res res1 = None" by (rule exec_no_raw_result [OF p(1) none])
  have swap: "st\<lparr>fw := w\<rparr>\<lparr>mgr := x\<rparr> = st\<lparr>mgr := x\<rparr>\<lparr>fw := w\<rparr>" for w x by (cases st) simp
  have ret_w: "return_connection api (Some q) r (put_sys t (st\<lparr>mgr := m1\<rparr>\<lparr>fw := w\<rparr>)) = Inr (st\<lparr>mgr := m\<rparr>\<lparr>fw := w\<rparr>)" for w
    using return_connection_fw [OF ret, of w] by (simp add: swap [symmetric] put_sys_def)
  have sync: "invoke_task F api H ?run None ctx ?res (st\<lparr>fw := w\<rparr>) = Inr (ctx, res1, st\<lparr>mgr := m\<rparr>\<lparr>fw := w\<rparr>)" for w
    using task_connection_fw [OF c(1), of w] ret_w [of w] c(3) con by (simp add: invoke_task_def swap)
  have async: "\<exists>w'. async_task F api H ?run OnlyExec None ctx (st\<lparr>fw := w\<rparr>) =
      Inr (if OK res1 then Ready res1 else Failed (error_message res1), ctx, st\<lparr>mgr := m\<rparr>\<lparr>fw := w'\<rparr>)" for w
  proof -
    obtain w' where "fw_do (proxy_statistics F) ctx (st\<lparr>mgr := m\<rparr>\<lparr>fw := w\<rparr>) = (ctx, st\<lparr>mgr := m\<rparr>\<lparr>fw := w'\<rparr>)"
      using passes_statistics [OF F, of ctx "st\<lparr>mgr := m\<rparr>\<lparr>fw := w\<rparr>"] by auto
    then show ?thesis
      using task_connection_fw [OF c(1), of w] ret_w [of w] c(3) con raw
      by (intro exI [of _ w'])
        (simp add: async_task_def swap put_sys_def psys_def move_OK drop_results_def MysqlResults_destroy_def mysql_free_result_def
          results_error_def Let_def)
  qed
  have up: "thread_pool st \<noteq> None" using ok by (simp add: proxy_ok_def)
  obtain w where "Query F api H ?run ctx ?res st = Inr (final_context ctx res1, res1, st\<lparr>mgr := m\<rparr>\<lparr>fw := w\<rparr>)"
    using Query_passes [OF F up sync] by blast
  moreover obtain w' where "AsyncQuery F api H ?run OnlyExec ctx st =
      Inr (if OK res1 then Ready res1 else Failed (error_message res1), ctx, None, st\<lparr>mgr := m\<rparr>\<lparr>fw := w'\<rparr>)"
    using AsyncQuery_passes [OF F up async, of "error_message res1" res1] by presburger
  ultimately show ?thesis unfolding proxy_Execute_def AsyncExecute_def by blast
qed

theorem async_agrees_with_sync_witness:
  "\<exists>res1 st1 w w'. proxy_Execute demo_framework open_api demo_map (run_exec open_api ''delete from t'' []) demo_context
      (MysqlResults_new OnlyExec :: unit results) demo_proxy = Inr (final_context demo_context res1, res1, st1\<lparr>fw := w\<rparr>) \<and>
    AsyncExecute demo_framework open_api demo_map (run_exec open_api ''delete from t'' []) OnlyExec demo_context demo_proxy =
      Inr (if OK res1 then Ready res1 else Failed (error_message res1), demo_context, None, st1\<lparr>fw := w'\<rparr>)"
  by (rule async_agrees_with_sync [OF demo_passes demo_map_laws demo_proxy_ok]) (simp_all add: open_api_laws)

end
