(* ===== verification/Transaction_Properties.thy ===== *)
theory Transaction_Properties
  imports Proxy_Properties
begin

text \<open>
  Properties of transactions: \<^verbatim>\<open>Begin\<close>, statements with a handle, \<^verbatim>\<open>Commit\<close> and \<^verbatim>\<open>Rollback\<close>, over the
  pools, with the paths that fail.
\<close>

section \<open>Transactions\<close>

lemma Get_then_GetExecutor:
  assumes "task_connection api H a None st = Inr ((Some q, r), st')"
  obtains st1 where "Get_pool api H a st = Inr (q, st1)" and "on_pool q (GetExecutor api) st1 = Inr (r, st')"
  using assms by (auto simp: task_connection_def bindE_Inr_iff)

text \<open>A statement without arguments on a live connection.\<close>

lemma run_exec_plain:
  assumes "execs s r = Some e" and "mysql e = Some h" and "h \<in> mysqls s" and "fst (c_real_query api h query (lib s)) = 0"
  shows "run_exec api query [] r res s =
    Inr (True, SetAffectedRows (c_affected_rows api h (snd (c_real_query api h query (lib s)))) res,
      s\<lparr>lib := snd (c_real_query api h query (lib s))\<rparr>)"
  using Execute_without_arguments [OF assms(1-3), of api query] assms(4)
  by (cases "c_real_query api h query (lib s)") (simp add: run_exec_def)

lemma run_exec_rejected:
  assumes "execs s r = Some e" and "mysql e = Some h" and "h \<in> mysqls s" and "fst (c_real_query api h query (lib s)) \<noteq> 0"
  defines "w \<equiv> snd (c_real_query api h query (lib s))"
  shows "run_exec api query [] r res s =
    Inr (True, SetAffectedRows 0 (set_error (c_error api (Some h) w) (c_errno api (Some h) w) res), s\<lparr>lib := w\<rparr>)"
  using Execute_without_arguments [OF assms(1-3), of api query "fst (c_real_query api h query (lib s))" w] assms(4)
  by (simp add: run_exec_def w_def)

lemma proxy_ok_executor:
  assumes "proxy_ok H U st" and "r \<in> U"
  obtains e where "execs (psys st) r = Some e" and "refcount e = 1"
    and "connected (psys st) r \<Longrightarrow> \<exists>h. mysql e = Some h \<and> h \<in> mysqls (psys st)"
proof -
  have h: "held U (psys st)"
    using assms(1) mgr_ok_held [OF manager_okD(1)] by (auto simp: proxy_ok_def psys_def)
  then have wf: "wf_on U (psys st)" by (simp add: held_def)
  obtain e where e: "execs (psys st) r = Some e" "refcount e = 1" using held_refcount [OF h assms(2)] .
  have "\<exists>h. mysql e = Some h \<and> h \<in> mysqls (psys st)" if "connected (psys st) r"
    using wf_onD(2,3) [OF wf assms(2)] that e(1) by (cases "mysql e") auto
  with e that show thesis by blast
qed

lemma settled_lib:
  assumes "proxy_ok H U st"
  shows "proxy_ok H U (put_sys ((psys st)\<lparr>lib := w\<rparr>) st)"
proof (rule proxy_ok_put [OF assms])
  have m: "manager_ok H U (mgr st)" using assms by (simp add: proxy_ok_def)
  show "manager_ok H U ((mgr st)\<lparr>msys := (psys st)\<lparr>lib := w\<rparr>\<rparr>)"
    by (rule manager_ok_run [OF m]) (use manager_okD(5) [OF m] in \<open>auto simp: psys_def\<close>)
qed

text \<open>The part of \<^verbatim>\<open>Begin\<close> up to its connection.\<close>

definition begin_rest ::
  "'f framework \<Rightarrow> 'w mysql_api \<Rightarrow> 'm hashmap_api \<Rightarrow> call_context \<Rightarrow> tx option \<Rightarrow> nat \<Rightarrow> ('m, 'w, 'f) proxy \<Rightarrow>
   (call_context \<times> tx option \<times> ('m, 'w, 'f) proxy) result" where
  "begin_rest F api H ctx hdl executor st =
     bindE (UnaryInvoke F api H (run_exec api ''begin'' []) (Some executor) ctx (MysqlResults_new OnlyExec :: exec_results) st)
       (\<lambda>(ctx, res, st).
     bindE (if status_OK (ctx_status ctx)
            then bindE (drop_handle api hdl st) (\<lambda>st. Inr (Some (started executor), None, st))
            else Inr (hdl, Some executor, st)) (\<lambda>(hdl, executor, st).
       let (ctx, st) = RunFilters F CLIENT_POST_RPC_INVOKE ctx st
       in bindE (drop_ref api executor st) (\<lambda>st.
          bindE (drop_results api res st) (\<lambda>st. Inr (ctx, hdl, st)))))"

lemma Begin_connection:
  assumes F: "passes F" and H: "hashmap_laws H" and ok: "proxy_ok H U st" and oom: "no_oom api" and acc: "accepts api"
    and addr: "na_ip (ctx_addr ctx) \<noteq> []"
  obtains r st1 where "Begin F api H ctx hdl st = begin_rest F api H ctx hdl r st1" and "r \<notin> U"
    and "connected (psys st1) r" and "proxy_ok H (insert r U) st1" and "same_on U (psys st) (psys st1)"
    and "keeps_blocks (psys st) (psys st1)"
proof -
  obtain w1 where 1: "fw_do (fill_context F) ctx st = (ctx, st\<lparr>fw := w1\<rparr>)" using passes_fill [OF F] by blast
  obtain w2 where 2: "fw_call (message_filters F CLIENT_PRE_RPC_INVOKE) ctx (st\<lparr>fw := w1\<rparr>) = (False, ctx, st\<lparr>fw := w2\<rparr>)"
    using passes_filters [OF F, of CLIENT_PRE_RPC_INVOKE ctx "st\<lparr>fw := w1\<rparr>"] by auto
  let ?st = "st\<lparr>fw := w2\<rparr>"
  have okw: "proxy_ok H U ?st" using ok by simp
  obtain q r m where c: "task_connection api H (ctx_addr ctx) None ?st = Inr ((Some q, r), ?st\<lparr>mgr := m\<rparr>)" "r \<notin> U"
    "same_on U (psys ?st) (msys m)" "keeps_blocks (psys ?st) (msys m)" "proxy_ok H (insert r U) (?st\<lparr>mgr := m\<rparr>)"
    "connected (msys m) r"
    by (rule task_connection_pool [OF H okw oom, of "ctx_addr ctx"]) (use acc in blast)
  obtain st1 where d: "Get_pool api H (ctx_addr ctx) ?st = Inr (q, st1)" "on_pool q (GetExecutor api) st1 = Inr (r, ?st\<lparr>mgr := m\<rparr>)"
    by (rule Get_then_GetExecutor [OF c(1)])
  have con: "IsConnected r (msys m) = Inr True" using IsConnected_known [OF connected_exists [OF c(6)]] c(6) by simp
  have "Begin F api H ctx hdl st = begin_rest F api H ctx hdl r (?st\<lparr>mgr := m\<rparr>)"
    using 1 2 addr d con by (simp add: Begin_def begin_address_def begin_rest_def)
  then show thesis by (rule that) (use c in simp_all)
qed

lemma Begin_starts:
  assumes F: "passes F" and H: "hashmap_laws H" and ok: "proxy_ok H U st" and oom: "no_oom api" and acc: "accepts api"
    and addr: "na_ip (ctx_addr ctx) \<noteq> []" and fine: "status_OK (ctx_status ctx)"
    and begins: "\<And>h w. fst (c_real_query api h ''begin'' w) = 0"
  shows "\<exists>r h w st'. Begin F api H ctx None st = Inr (ctx, Some \<lparr>tx_executor = Some r, tx_state = kStarted\<rparr>, st') \<and>
    r \<notin> U \<and> connected (psys st') r \<and> handle (psys st') r = Some h \<and>
    lib (psys st') = snd (c_real_query api h ''begin'' w) \<and> proxy_ok H (insert r U) st' \<and> same_on U (psys st) (psys st')"
proof -
  obtain r st1 where b: "Begin F api H ctx None st = begin_rest F api H ctx None r st1" "r \<notin> U" "connected (psys st1) r"
    "proxy_ok H (insert r U) st1" "same_on U (psys st) (psys st1)" "keeps_blocks (psys st) (psys st1)"
    by (rule Begin_connection [OF F H ok oom acc addr])
  obtain e where e: "execs (psys st1) r = Some e" "\<exists>h. mysql e = Some h \<and> h \<in> mysqls (psys st1)"
    using proxy_ok_executor [OF b(4), of r] b(3) by blast
  then obtain h where h: "mysql e = Some h" "h \<in> mysqls (psys st1)" by blast
  let ?w = "snd (c_real_query api h ''begin'' (lib (psys st1)))" and ?res = "MysqlResults_new OnlyExec :: exec_results"
  let ?t = "(psys st1)\<lparr>lib := ?w\<rparr>" and ?res' = "SetAffectedRows (c_affected_rows api h ?w) ?res"
  let ?st2 = "put_sys ?t st1"
  have run: "run_exec api ''begin'' [] r ?res (psys st1) = Inr (True, ?res', ?t)"
    by (rule run_exec_plain [OF e(1) h begins])
  have up: "thread_pool st1 \<noteq> None" using b(4) by (simp add: proxy_ok_def)
  have "OK ?res'" by (simp add: OK_def SetAffectedRows_def MysqlResults_new_def)
  then have fin: "final_context ctx ?res' = ctx" by (simp add: final_context_def)
  obtain w1 where u: "UnaryInvoke F api H (run_exec api ''begin'' []) (Some r) ctx ?res st1 = Inr (ctx, ?res', ?st2\<lparr>fw := w1\<rparr>)"
    using UnaryInvoke_own [OF F up b(3), of "run_exec api ''begin'' []", OF run, of api H ctx] unfolding fin by blast
  obtain w2 where v: "RunFilters F CLIENT_POST_RPC_INVOKE ctx (?st2\<lparr>fw := w1\<rparr>) = (ctx, ?st2\<lparr>fw := w2\<rparr>)"
    using passes_RunFilters [OF F, of CLIENT_POST_RPC_INVOKE ctx "?st2\<lparr>fw := w1\<rparr>"] by auto
  have no: "mysql_res ?res' = None" by (simp add: SetAffectedRows_def MysqlResults_new_def)
  have new: "started r = \<lparr>tx_executor = Some r, tx_state = kStarted\<rparr>"
    by (simp add: started_def SetExecutor_def SetState_def TransactionHandle_new_def)
  have "begin_rest F api H ctx None r st1 = Inr (ctx, Some (started r), ?st2\<lparr>fw := w2\<rparr>)"
    using u v no fine
    by (simp add: begin_rest_def drop_handle_def drop_ref_def drop_results_def MysqlResults_destroy_def
        mysql_free_result_def put_sys_def psys_def)
  with b(1) new have "Begin F api H ctx None st = Inr (ctx, Some \<lparr>tx_executor = Some r, tx_state = kStarted\<rparr>, ?st2\<lparr>fw := w2\<rparr>)"
    by simp
  moreover have "proxy_ok H (insert r U) (?st2\<lparr>fw := w2\<rparr>)" using settled_lib [OF b(4)] by simp
  moreover have "same_on U (psys st) ?t" using b(5) by (simp add: same_on_def)
  ultimately show ?thesis
    using b(2,3) e(1) h(1) by (intro exI [of _ r] exI [of _ h] exI [of _ "lib (psys st1)"] exI [of _ "?st2\<lparr>fw := w2\<rparr>"]) simp
qed

text \<open>C16: \<^verbatim>\<open>Begin\<close> with an empty handle, when the framework lets the call through and the server accepts
  connections and \<^verbatim>\<open>begin\<close>: it returns a started handle that owns a live connection nobody else
  uses, on which \<^verbatim>\<open>begin\<close> was the last thing sent; the connections in use are as they were.\<close>

theorem begin_starts_transaction:
  assumes F: "passes F" and H: "hashmap_laws H" and ok: "proxy_ok H U st" and oom: "no_oom api" and acc: "accepts api"
    and addr: "na_ip (ctx_addr ctx) \<noteq> []" and fine: "status_OK (ctx_status ctx)"
    and begins: "\<And>h w. fst (c_real_query api h ''begin'' w) = 0"
  shows "\<exists>r h w st'. Begin F api H ctx None st = Inr (ctx, Some \<lparr>tx_executor = Some r, tx_state = kStarted\<rparr>, st') \<and>
    r \<notin> U \<and> connected (psys st') r \<and> handle (psys st') r = Some h \<and>
    lib (psys st') = snd (c_real_query api h ''begin'' w) \<and> proxy_ok H (insert r U) st' \<and> same_on U (psys st) (psys st')"
  by (rule Begin_starts [OF F H ok oom acc addr fine begins])

text \<open>A server that takes every text.\<close>

definition eager_api :: "demo_world mysql_api" where
  "eager_api = open_api\<lparr>c_real_query := (\<lambda>_ q w. (0, w\<lparr>seen := seen w @ [q]\<rparr>))\<rparr>"

lemma eager_api_laws:
  "accepts eager_api" "no_oom eager_api" "fst (c_real_query eager_api h q w) = 0" "fst (c_ping eager_api h w) = 0"
  by (simp_all add: accepts_def no_oom_def eager_api_def open_api_def demo_api_def)

theorem begin_starts_transaction_witness:
  "\<exists>r st'. Begin demo_framework eager_api demo_map demo_context None demo_proxy =
      Inr (demo_context, Some \<lparr>tx_executor = Some r, tx_state = kStarted\<rparr>, st') \<and> r \<noteq> 0 \<and> connected (psys st') r \<and>
      last (seen (lib (psys st'))) = ''begin''"
proof -
  have "\<exists>r h w st'. Begin demo_framework eager_api demo_map demo_context None demo_proxy =
      Inr (demo_context, Some \<lparr>tx_executor = Some r, tx_state = kStarted\<rparr>, st') \<and> r \<notin> {0} \<and> connected (psys st') r \<and>
      handle (psys st') r = Some h \<and> lib (psys st') = snd (c_real_query eager_api h ''begin'' w) \<and>
      proxy_ok demo_map (insert r {0}) st' \<and> same_on {0} (psys demo_proxy) (psys st')"
    by (rule begin_starts_transaction [OF demo_passes demo_map_laws demo_proxy_ok eager_api_laws(2,1)])
      (simp_all add: eager_api_laws demo_context_def demo_addr_def status_OK_def status_ok_def)
  then show ?thesis by (auto simp: eager_api_def)
qed

text \<open>C33: When the server rejects \<^verbatim>\<open>begin\<close>, \<^verbatim>\<open>Begin\<close> does not return: the executor it does not hand over is
  still connected when its last reference goes, and the destructor's assertion fails.\<close>

theorem failed_begin_aborts:
  assumes F: "passes F" and H: "hashmap_laws H" and ok: "proxy_ok H U st" and oom: "no_oom api" and acc: "accepts api"
    and addr: "na_ip (ctx_addr ctx) \<noteq> []" and fails: "\<And>h w. fst (c_real_query api h ''begin'' w) \<noteq> 0"
    and errno: "\<And>p w. c_errno api p w \<noteq> 0"
  shows "Begin F api H ctx hdl st = Inl Assertion_failed"
proof -
  obtain r st1 where b: "Begin F api H ctx hdl st = begin_rest F api H ctx hdl r st1" "connected (psys st1) r"
    "proxy_ok H (insert r U) st1"
    by (rule Begin_connection [OF F H ok oom acc addr])
  obtain e where e: "execs (psys st1) r = Some e" "refcount e = 1" "\<exists>h. mysql e = Some h \<and> h \<in> mysqls (psys st1)"
    using proxy_ok_executor [OF b(3), of r] b(2) by blast
  then obtain h where h: "mysql e = Some h" "h \<in> mysqls (psys st1)" by blast
  let ?w = "snd (c_real_query api h ''begin'' (lib (psys st1)))" and ?res = "MysqlResults_new OnlyExec :: exec_results"
  let ?t = "(psys st1)\<lparr>lib := ?w\<rparr>" and ?res' = "SetAffectedRows 0 (set_error (c_error api (Some h) ?w) (c_errno api (Some h) ?w) ?res)"
  let ?st2 = "put_sys ?t st1" and ?ctx = "final_context ctx ?res'"
  have run: "run_exec api ''begin'' [] r ?res (psys st1) = Inr (True, ?res', ?t)"
    by (rule run_exec_rejected [OF e(1) h fails])
  have up: "thread_pool st1 \<noteq> None" using b(3) by (simp add: proxy_ok_def)
  obtain w1 where u: "UnaryInvoke F api H (run_exec api ''begin'' []) (Some r) ctx ?res st1 = Inr (?ctx, ?res', ?st2\<lparr>fw := w1\<rparr>)"
    using UnaryInvoke_own [OF F up b(2), of "run_exec api ''begin'' []", OF run, of api H ctx] by blast
  obtain w2 where v: "RunFilters F CLIENT_POST_RPC_INVOKE ?ctx (?st2\<lparr>fw := w1\<rparr>) = (?ctx, ?st2\<lparr>fw := w2\<rparr>)"
    using passes_RunFilters [OF F, of CLIENT_POST_RPC_INVOKE ?ctx "?st2\<lparr>fw := w1\<rparr>"] by auto
  have bad: "\<not> status_OK (ctx_status ?ctx)"
    using errno by (simp add: final_context_def OK_def SetAffectedRows_def set_error_def SetErrorNumber_def
        SetErrorMessage_def status_OK_def set_status_def results_error_def)
  have d: "ref_drop api (Some r) ?t = Inl Assertion_failed"
    by (rule ref_drop_last_connected [of _ _ e]) (use e b(2) in simp_all)
  have "begin_rest F api H ctx hdl r st1 = Inl Assertion_failed"
    using u v bad d by (simp add: begin_rest_def drop_ref_def)
  with b(1) show ?thesis by simp
qed

theorem failed_begin_aborts_witness:
  "Begin demo_framework (open_api\<lparr>c_real_query := \<lambda>_ _ w. (1, w), c_errno := \<lambda>_ _. 1064\<rparr>) demo_map demo_context None
    demo_proxy = Inl Assertion_failed"
  by (rule failed_begin_aborts [OF demo_passes demo_map_laws demo_proxy_ok])
    (simp_all add: accepts_def no_oom_def open_api_def demo_api_def demo_context_def demo_addr_def)

text \<open>A transaction in progress: its handle is started and owns a live connection.\<close>

definition in_transaction :: "'m hashmap_api \<Rightarrow> nat set \<Rightarrow> tx \<Rightarrow> nat \<Rightarrow> executor \<Rightarrow> ('m, 'w, 'f) proxy \<Rightarrow> bool" where
  "in_transaction H U h r e st \<longleftrightarrow>
     proxy_ok H U st \<and> r \<in> U \<and> tx_executor h = Some r \<and> tx_state h = kStarted \<and> execs (psys st) r = Some e \<and> is_connected e"

lemma in_transactionD:
  assumes "in_transaction H U h r e st"
  shows "proxy_ok H U st" and "r \<in> U" and "GetExecutor_of h = Some r" and "GetState h = kStarted"
    and "execs (psys st) r = Some e" and "connected (psys st) r" and "thread_pool st \<noteq> None"
    and "\<exists>d. mysql e = Some d \<and> d \<in> mysqls (psys st)"
  using assms proxy_ok_executor [of H U st r]
  by (auto simp: in_transaction_def GetExecutor_of_def GetState_def proxy_ok_def)

lemma in_transaction_alive:
  assumes tx: "in_transaction H U h r e st" and d: "mysql e = Some d" "d \<in> mysqls (psys st)"
  shows "CheckAlive api r (psys st) =
    (let (ret, w) = c_ping api d (lib (psys st)) in
      if ret = 0 then Inr (True, (psys st)\<lparr>lib := w\<rparr>)
      else Inr (False, put_exec r (e\<lparr>is_connected := False\<rparr>) ((psys st)\<lparr>lib := w\<rparr>)))"
  by (rule CheckAlive_live) (use tx d in \<open>simp_all add: in_transaction_def\<close>)

text \<open>A statement in a transaction that the server takes.\<close>

lemma Query_tx_passes:
  assumes F: "passes F" and tx: "in_transaction H U h r e st" and d: "mysql e = Some d"
    and ping: "c_ping api d (lib (psys st)) = (0, w1)" and sql: "c_real_query api d sql_str w1 = (0, w2)" and res: "OK res"
  shows "\<exists>w. Query_tx F api H (run_exec api sql_str []) ctx (Some h) res st =
    Inr (ctx, Some h, SetAffectedRows (c_affected_rows api d w2) res, (put_sys ((psys st)\<lparr>lib := w2\<rparr>) st)\<lparr>fw := w\<rparr>)"
proof -
  note D = in_transactionD [OF tx]
  have dm: "d \<in> mysqls (psys st)" using D(8) d by auto
  let ?res = "SetAffectedRows (c_affected_rows api d w2) res" and ?s1 = "(psys st)\<lparr>lib := w1\<rparr>"
  obtain v1 where 1: "fw_do (fill_context F) ctx st = (ctx, st\<lparr>fw := v1\<rparr>)" using passes_fill [OF F] by blast
  obtain v2 where 2: "fw_call (message_filters F CLIENT_PRE_RPC_INVOKE) ctx (st\<lparr>fw := v1\<rparr>) = (False, ctx, st\<lparr>fw := v2\<rparr>)"
    using passes_filters [OF F, of CLIENT_PRE_RPC_INVOKE ctx "st\<lparr>fw := v1\<rparr>"] by auto
  have 3: "CheckAlive api r (psys st) = Inr (True, ?s1)" using in_transaction_alive [OF tx d dm, of api] ping by simp
  let ?st = "put_sys ?s1 (st\<lparr>fw := v2\<rparr>)"
  have run: "run_exec api sql_str [] r res (psys ?st) = Inr (True, ?res, (psys st)\<lparr>lib := w2\<rparr>)"
    using run_exec_plain [of "psys ?st" r e d api sql_str res] D(5) d dm sql by simp
  have con: "connected (psys ?st) r" "thread_pool ?st \<noteq> None" using D(6,7) by simp_all
  have "OK ?res" using res by (simp add: OK_def SetAffectedRows_def)
  then have fin: "final_context ctx ?res = ctx" by (simp add: final_context_def)
  obtain v3 where 4: "UnaryInvoke F api H (run_exec api sql_str []) (Some r) ctx res ?st =
      Inr (ctx, ?res, (put_sys ((psys st)\<lparr>lib := w2\<rparr>) ?st)\<lparr>fw := v3\<rparr>)"
    using UnaryInvoke_own [OF F con(2,1), of "run_exec api sql_str []", OF run, of api H ctx] unfolding fin by blast
  let ?st2 = "put_sys ((psys st)\<lparr>lib := w2\<rparr>) st"
  obtain v4 where 5: "RunFilters F CLIENT_POST_RPC_INVOKE ctx (?st2\<lparr>fw := v3\<rparr>) = (ctx, ?st2\<lparr>fw := v4\<rparr>)"
    using passes_RunFilters [OF F, of CLIENT_POST_RPC_INVOKE ctx "?st2\<lparr>fw := v3\<rparr>"] by auto
  show ?thesis
    using 1 2 3 4 5 D(3,4)
    by (intro exI [of _ v4]) (simp add: Query_tx_def deref_handle_def deref_def)
qed

text \<open>What ends a transaction whose last statement left the results OK: the connection is handed back, or is
  closed and stays with the handle.\<close>

lemma finished_hands_back:
  assumes H: "hashmap_laws H" and tx: "in_transaction H U h r e st"
    and q: "Query_tx F api H (run_exec api sql_str []) ctx (Some h) (MysqlResults_new OnlyExec :: exec_results) st =
      Inr (c, Some h, res, st1)"
    and res: "OK res" "mysql_res res = None" and st1: "psys st1 = (psys st)\<lparr>lib := w\<rparr>" "proxy_ok H U st1"
  shows "\<exists>h' st'. finish_transaction F api H sql_str rollback ctx (Some h) st = Inr (c, Some h', st') \<and>
    GetState h' = (if rollback then kRollBacked else kCommitted) \<and> same_on (U - {r}) (psys st) (psys st') \<and>
    (case GetExecutor_of h' of
       None \<Rightarrow> proxy_ok H (U - {r}) st' \<and> pooled_for (node_of e) r (mgr st') \<and> connected (psys st') r \<and> lib (psys st') = w
     | Some r' \<Rightarrow> r' = r \<and> proxy_ok H U st' \<and> \<not> connected (psys st') r)"
proof -
  let ?final = "if rollback then kRollBacked else kCommitted"
  note D = in_transactionD [OF tx]
  have e: "execs (psys st1) r = Some e" using D(5) st1(1) by simp
  obtain x m where en: "EndTransaction api H rollback (Some h) st1 =
      Inr (True, Some (TransferExecutor x (SetState ?final h)), st1\<lparr>mgr := m\<rparr>)"
    "same_on (U - {r}) (psys st1) (msys m)" "keeps_blocks (psys st1) (msys m)"
    "x = None \<Longrightarrow> proxy_ok H (U - {r}) (st1\<lparr>mgr := m\<rparr>) \<and> pooled_for (node_of e) r m"
    "x = None \<Longrightarrow> lib (msys m) = lib (psys st1) \<and> connected (msys m) = connected (psys st1)"
    "x \<noteq> None \<Longrightarrow> x = Some r \<and> proxy_ok H U (st1\<lparr>mgr := m\<rparr>) \<and> \<not> connected (msys m) r"
    by (rule EndTransaction_returns [OF H st1(2) D(3,2) e, of api rollback]) blast
  let ?h = "TransferExecutor x (SetState ?final h)" and ?st' = "st1\<lparr>mgr := m\<rparr>"
  have h: "GetExecutor_of ?h = x" "GetState ?h = ?final"
    by (simp_all add: GetExecutor_of_def GetState_def TransferExecutor_def SetState_def)
  have "put_sys (psys st1) st1 = st1" by (simp add: put_sys_def psys_def)
  with q en(1) res have "finish_transaction F api H sql_str rollback ctx (Some h) st = Inr (c, Some ?h, ?st')"
    by (simp add: finish_transaction_def proxy_Execute_tx_def drop_results_def MysqlResults_destroy_def mysql_free_result_def
        put_sys_def psys_def)
  moreover have "same_on (U - {r}) (psys st) (psys ?st')" using en(2) st1(1) by (simp add: same_on_def)
  moreover have "case x of
      None \<Rightarrow> proxy_ok H (U - {r}) ?st' \<and> pooled_for (node_of e) r (mgr ?st') \<and> connected (psys ?st') r \<and> lib (psys ?st') = w
    | Some r' \<Rightarrow> r' = r \<and> proxy_ok H U ?st' \<and> \<not> connected (psys ?st') r"
    using en(4-6) D(6) st1(1) by (cases x) simp_all
  ultimately show ?thesis using h by (intro exI [of _ ?h] exI [of _ ?st']) (simp only: h simp_thms)
qed

text \<open>C10: Committing a transaction, or rolling it back, when the framework lets the call through, the
  connection is alive and the server takes the statement: the handle is in its final state;
  its connection, on which the statement was the last thing sent, is back in the pool of its
  node, or closed and still the handle's when the pool has no room.\<close>

theorem finished_transaction_returns_connection:
  assumes F: "passes F" and H: "hashmap_laws H" and tx: "in_transaction H U h r e st" and d: "mysql e = Some d"
    and ping: "\<And>w. fst (c_ping api d w) = 0"
    and sql: "\<And>w. fst (c_real_query api d (if rollback then ''rollback'' else ''commit'') w) = 0"
  shows "\<exists>h' w st'. (if rollback then Rollback else Commit) F api H ctx (Some h) st = Inr (ctx, Some h', st') \<and>
    GetState h' = (if rollback then kRollBacked else kCommitted) \<and> same_on (U - {r}) (psys st) (psys st') \<and>
    (case GetExecutor_of h' of
       None \<Rightarrow> proxy_ok H (U - {r}) st' \<and> pooled_for (node_of e) r (mgr st') \<and> connected (psys st') r \<and>
         lib (psys st') = snd (c_real_query api d (if rollback then ''rollback'' else ''commit'') w)
     | Some r' \<Rightarrow> r' = r \<and> proxy_ok H U st' \<and> \<not> connected (psys st') r)"
proof -
  let ?sql = "if rollback then ''rollback'' else ''commit''"
  let ?res = "MysqlResults_new OnlyExec :: exec_results"
  obtain w1 where 1: "c_ping api d (lib (psys st)) = (0, w1)" using ping by (metis prod.exhaust_sel)
  obtain w2 where 2: "c_real_query api d ?sql w1 = (0, w2)" using sql by (metis prod.exhaust_sel)
  let ?res' = "SetAffectedRows (c_affected_rows api d w2) ?res"
  have res: "OK ?res" "OK ?res'" "mysql_res ?res' = None" by (simp_all add: OK_def SetAffectedRows_def MysqlResults_new_def)
  obtain w where q: "Query_tx F api H (run_exec api ?sql []) ctx (Some h) ?res st =
      Inr (ctx, Some h, ?res', (put_sys ((psys st)\<lparr>lib := w2\<rparr>) st)\<lparr>fw := w\<rparr>)"
    using Query_tx_passes [OF F tx d 1 2 res(1), of ctx] by blast
  let ?st1 = "(put_sys ((psys st)\<lparr>lib := w2\<rparr>) st)\<lparr>fw := w\<rparr>"
  have st1: "psys ?st1 = (psys st)\<lparr>lib := w2\<rparr>" "proxy_ok H U ?st1"
    using settled_lib [OF in_transactionD(1) [OF tx]] by simp_all
  have c: "(if rollback then Rollback else Commit) F api H ctx (Some h) st =
      finish_transaction F api H ?sql rollback ctx (Some h) st" by (simp add: Rollback_def Commit_def)
  from finished_hands_back [OF H tx q res(2,3) st1, of rollback] show ?thesis
    unfolding c using 2 by (metis snd_conv)
qed

lemma demo_in_transaction: "in_transaction demo_map {0} \<lparr>tx_executor = Some 0, tx_state = kStarted\<rparr> 0 (demo_exec True) demo_proxy"
  by (simp add: in_transaction_def demo_proxy_ok)

theorem finished_transaction_returns_connection_witness:
  "\<exists>h' st'. Commit demo_framework eager_api demo_map demo_context (Some \<lparr>tx_executor = Some 0, tx_state = kStarted\<rparr>)
      demo_proxy = Inr (demo_context, Some h', st') \<and> GetState h' = kCommitted"
proof -
  have "\<exists>h' w st'. (if False then Rollback else Commit) demo_framework eager_api demo_map demo_context
      (Some \<lparr>tx_executor = Some 0, tx_state = kStarted\<rparr>) demo_proxy = Inr (demo_context, Some h', st') \<and>
    GetState h' = (if False then kRollBacked else kCommitted) \<and> same_on ({0} - {0}) (psys demo_proxy) (psys st') \<and>
    (case GetExecutor_of h' of
       None \<Rightarrow> proxy_ok demo_map ({0} - {0}) st' \<and> pooled_for (node_of (demo_exec True)) 0 (mgr st') \<and>
         connected (psys st') 0 \<and>
         lib (psys st') = snd (c_real_query eager_api 1 (if False then ''rollback'' else ''commit'') w)
     | Some r' \<Rightarrow> r' = 0 \<and> proxy_ok demo_map {0} st' \<and> \<not> connected (psys st') 0)"
    by (rule finished_transaction_returns_connection [OF demo_passes demo_map_laws demo_in_transaction])
      (simp_all add: eager_api_laws)
  then show ?thesis unfolding if_False by blast
qed

text \<open>C34: A commit the filters reject before anything is sent is reported as committed: \<^verbatim>\<open>Commit\<close> looks at
  the untouched results, which say OK. The handle's state is committed, and the connection
  goes back into the pool of its node alive, with its transaction open.\<close>

theorem rejected_commit_reports_committed:
  assumes rej: "\<And>p c w. fst (message_filters F p c w)" and H: "hashmap_laws H" and tx: "in_transaction H U h r e st"
  shows "\<exists>ctx' h' st'. Commit F api H ctx (Some h) st = Inr (ctx', Some h', st') \<and> GetState h' = kCommitted \<and>
    (case GetExecutor_of h' of
       None \<Rightarrow> pooled_for (node_of e) r (mgr st') \<and> connected (psys st') r \<and> lib (psys st') = lib (psys st)
     | Some r' \<Rightarrow> r' = r \<and> \<not> connected (psys st') r)"
proof -
  note D = in_transactionD [OF tx]
  let ?res = "MysqlResults_new OnlyExec :: exec_results"
  obtain c1 w1 where 1: "fw_do (fill_context F) ctx st = (c1, st\<lparr>fw := w1\<rparr>)" by (rule fw_do_eq)
  obtain c2 w2 where 2: "fw_call (message_filters F CLIENT_PRE_RPC_INVOKE) c1 (st\<lparr>fw := w1\<rparr>) = (True, c2, st\<lparr>fw := w2\<rparr>)"
    using rej [of CLIENT_PRE_RPC_INVOKE c1 w1] by (cases "message_filters F CLIENT_PRE_RPC_INVOKE c1 w1") (simp add: fw_call_def)
  obtain c3 w3 where 3: "RunFilters F CLIENT_POST_RPC_INVOKE c2 (st\<lparr>fw := w2\<rparr>) = (c3, st\<lparr>fw := w3\<rparr>)"
    by (rule RunFilters_eq [of F CLIENT_POST_RPC_INVOKE c2 "st\<lparr>fw := w2\<rparr>"]) simp
  let ?st = "st\<lparr>fw := w3\<rparr>"
  have q: "Query_tx F api H (run_exec api ''commit'' []) ctx (Some h) ?res st = Inr (c3, Some h, ?res, ?st)"
    using 1 2 3 by (simp add: Query_tx_def)
  have "OK ?res" "mysql_res ?res = None" "psys ?st = (psys st)\<lparr>lib := lib (psys st)\<rparr>" "proxy_ok H U ?st"
    using D(1) by (simp_all add: OK_def MysqlResults_new_def)
  from finished_hands_back [OF H tx q this, of False] obtain h' st' where
    "finish_transaction F api H ''commit'' False ctx (Some h) st = Inr (c3, Some h', st')" "GetState h' = kCommitted"
    "case GetExecutor_of h' of
       None \<Rightarrow> proxy_ok H (U - {r}) st' \<and> pooled_for (node_of e) r (mgr st') \<and> connected (psys st') r \<and> lib (psys st') = lib (psys st)
     | Some r' \<Rightarrow> r' = r \<and> proxy_ok H U st' \<and> \<not> connected (psys st') r" by auto
  then show ?thesis
    by (intro exI [of _ c3] exI [of _ h'] exI [of _ st']) (auto simp: Commit_def split: option.splits)
qed

theorem rejected_commit_reports_committed_witness:
  "\<exists>ctx' h' st'. Commit (demo_framework\<lparr>message_filters := \<lambda>_ c w. (True, c, w)\<rparr>) eager_api demo_map demo_context
      (Some \<lparr>tx_executor = Some 0, tx_state = kStarted\<rparr>) demo_proxy = Inr (ctx', Some h', st') \<and> GetState h' = kCommitted"
  using rejected_commit_reports_committed [OF _ demo_map_laws demo_in_transaction,
      of "demo_framework\<lparr>message_filters := \<lambda>_ c w. (True, c, w)\<rparr>" eager_api demo_context] by simp blast

text \<open>C20: A statement in a transaction whose connection is lost: nothing is sent, the results are as they
  were, the context has the connection error, and the handle is rolled back; the connection
  is marked as lost and stays the handle's.\<close>

theorem lost_transaction_is_rolled_back:
  assumes F: "passes F" and tx: "in_transaction H U h r e st" and d: "mysql e = Some d"
    and ping: "c_ping api d (lib (psys st)) = (ret, w1)" "ret \<noteq> 0"
  shows "\<exists>st'. Query_tx F api H run ctx (Some h) res st =
      Inr (set_status (lost_status F) ctx, Some (SetState kRollBacked h), res, st') \<and>
    lib (psys st') = w1 \<and> execs (psys st') = (execs (psys st))(r \<mapsto> e\<lparr>is_connected := False\<rparr>) \<and> pools (mgr st') = pools (mgr st)"
proof -
  note D = in_transactionD [OF tx]
  have dm: "d \<in> mysqls (psys st)" using D(8) d by auto
  let ?s1 = "put_exec r (e\<lparr>is_connected := False\<rparr>) ((psys st)\<lparr>lib := w1\<rparr>)" and ?ctx = "set_status (lost_status F) ctx"
  obtain v1 where 1: "fw_do (fill_context F) ctx st = (ctx, st\<lparr>fw := v1\<rparr>)" using passes_fill [OF F] by blast
  obtain v2 where 2: "fw_call (message_filters F CLIENT_PRE_RPC_INVOKE) ctx (st\<lparr>fw := v1\<rparr>) = (False, ctx, st\<lparr>fw := v2\<rparr>)"
    using passes_filters [OF F, of CLIENT_PRE_RPC_INVOKE ctx "st\<lparr>fw := v1\<rparr>"] by auto
  have 3: "CheckAlive api r (psys st) = Inr (False, ?s1)" using in_transaction_alive [OF tx d dm, of api] ping by simp
  obtain v3 where 4: "RunFilters F CLIENT_POST_RPC_INVOKE ?ctx ((put_sys ?s1 st)\<lparr>fw := v2\<rparr>) = (?ctx, (put_sys ?s1 st)\<lparr>fw := v3\<rparr>)"
    using passes_RunFilters [OF F, of CLIENT_POST_RPC_INVOKE ?ctx "(put_sys ?s1 st)\<lparr>fw := v2\<rparr>"] by auto
  have "Query_tx F api H run ctx (Some h) res st =
      Inr (?ctx, Some (SetState kRollBacked h), res, (put_sys ?s1 st)\<lparr>fw := v3\<rparr>)"
    using 1 2 3 4 D(3,4) by (simp add: Query_tx_def deref_handle_def deref_def)
  then show ?thesis by (intro exI [of _ "(put_sys ?s1 st)\<lparr>fw := v3\<rparr>"]) simp
qed

theorem lost_transaction_is_rolled_back_witness:
  "\<exists>st'. Query_tx demo_framework (demo_api\<lparr>c_ping := \<lambda>_ w. (2013, w)\<rparr>) demo_map
      (run_exec demo_api ''delete from t'' []) demo_context (Some \<lparr>tx_executor = Some 0, tx_state = kStarted\<rparr>)
      (MysqlResults_new OnlyExec :: unit results) demo_proxy =
    Inr (set_status (lost_status demo_framework) demo_context, Some \<lparr>tx_executor = Some 0, tx_state = kRollBacked\<rparr>,
      MysqlResults_new OnlyExec, st') \<and> \<not> connected (psys st') 0"
proof -
  from lost_transaction_is_rolled_back [OF demo_passes demo_in_transaction, of 1 "demo_api\<lparr>c_ping := \<lambda>_ w. (2013, w)\<rparr>" 2013
      "lib (demo_sys True True)" "run_exec demo_api ''delete from t'' []" demo_context "MysqlResults_new OnlyExec :: unit results"]
  show ?thesis by (auto simp: SetState_def connected_def)
qed

text \<open>A statement with a handle that is not started, because its transaction ended, was moved or never
  began: neither the synchronous nor the asynchronous call uses a connection or changes the
  handle, the results or the pools, and both set the status to error 3502.\<close>

lemma not_started_refused:
  assumes F: "passes F" and h: "GetState h \<noteq> kStarted"
  shows "\<exists>w. Query_tx F api H run ctx (Some h) res st =
      Inr (set_status (invalid_handle_status F h) ctx, Some h, res, st\<lparr>fw := w\<rparr>)"
    and "\<exists>w. AsyncQuery_tx F api H run m ctx (Some h) st =
      Inr (Failed ''Invalid handle.'', set_status \<lparr>frame_ret = TRPC_MYSQL_INVALID_HANDLE, status_msg = ''Invalid handle.''\<rparr> ctx,
        Some h, st\<lparr>fw := w\<rparr>)"
proof -
  obtain v1 where 1: "fw_do (fill_context F) ctx st = (ctx, st\<lparr>fw := v1\<rparr>)" using passes_fill [OF F] by blast
  obtain v2 where 2: "fw_call (message_filters F CLIENT_PRE_RPC_INVOKE) ctx (st\<lparr>fw := v1\<rparr>) = (False, ctx, st\<lparr>fw := v2\<rparr>)"
    using passes_filters [OF F, of CLIENT_PRE_RPC_INVOKE ctx "st\<lparr>fw := v1\<rparr>"] by auto
  let ?c = "set_status (invalid_handle_status F h) ctx"
  let ?a = "set_status \<lparr>frame_ret = TRPC_MYSQL_INVALID_HANDLE, status_msg = ''Invalid handle.''\<rparr> ctx"
  obtain v3 where 3: "RunFilters F CLIENT_POST_RPC_INVOKE ?c (st\<lparr>fw := v2\<rparr>) = (?c, st\<lparr>fw := v3\<rparr>)"
    using passes_RunFilters [OF F, of CLIENT_POST_RPC_INVOKE ?c "st\<lparr>fw := v2\<rparr>"] by auto
  obtain v4 where 4: "fw_call (message_filters F CLIENT_POST_RPC_INVOKE) ?a (st\<lparr>fw := v2\<rparr>) = (False, ?a, st\<lparr>fw := v4\<rparr>)"
    using passes_filters [OF F, of CLIENT_POST_RPC_INVOKE ?a "st\<lparr>fw := v2\<rparr>"] by auto
  show "\<exists>w. Query_tx F api H run ctx (Some h) res st = Inr (?c, Some h, res, st\<lparr>fw := w\<rparr>)"
    using 1 2 3 h by (intro exI [of _ v3]) (simp add: Query_tx_def deref_handle_def)
  show "\<exists>w. AsyncQuery_tx F api H run m ctx (Some h) st = Inr (Failed ''Invalid handle.'', ?a, Some h, st\<lparr>fw := w\<rparr>)"
    using 1 2 4 h by (intro exI [of _ v4]) (simp add: AsyncQuery_tx_def async_enter_def async_reject_def deref_handle_def)
qed

section \<open>The life of a handle\<close>

text \<open>What happens to a handle between its start and its destruction: statements of any kind, synchronous or not,
  \<^verbatim>\<open>Commit\<close> and \<^verbatim>\<open>Rollback\<close> and their asynchronous forms, in any order and with any outcome; other users of the proxy run in
  between.\<close>

inductive handle_step ::
  "'f framework \<Rightarrow> 'w mysql_api \<Rightarrow> 'm hashmap_api \<Rightarrow> tx \<times> ('m, 'w, 'f) proxy \<Rightarrow> tx \<times> ('m, 'w, 'f) proxy \<Rightarrow> bool"
  for F :: "'f framework" and api :: "'w mysql_api" and H :: "'m hashmap_api" where
  handle_execute: "Query_tx F api H (run_exec api sql_str args) ctx (Some h) (res :: unit results) st = Inr (ctx', Some h', res', st') \<Longrightarrow>
    handle_step F api H (h, st) (h', st')"
| handle_query: "Query_tx F api H (run_typed fmt api Ts sql_str args) ctx (Some h) tres st = Inr (ctx', Some h', tres', st') \<Longrightarrow>
    handle_step F api H (h, st) (h', st')"
| handle_native: "Query_tx F api H (run_native fmt tfmt api sql_str args) ctx (Some h) nres st = Inr (ctx', Some h', nres', st') \<Longrightarrow>
    handle_step F api H (h, st) (h', st')"
| handle_commit: "Commit F api H ctx (Some h) st = Inr (ctx', Some h', st') \<Longrightarrow> handle_step F api H (h, st) (h', st')"
| handle_rollback: "Rollback F api H ctx (Some h) st = Inr (ctx', Some h', st') \<Longrightarrow> handle_step F api H (h, st) (h', st')"
| handle_async: "AsyncQuery_tx F api H (run_exec api sql_str args) m ctx (Some h) st =
    Inr (fut :: unit results future, ctx', Some h', st') \<Longrightarrow> handle_step F api H (h, st) (h', st')"
| handle_async_query: "AsyncQuery_tx F api H (run_typed fmt api Ts sql_str args) m ctx (Some h) st = Inr (tfut, ctx', Some h', st') \<Longrightarrow>
    handle_step F api H (h, st) (h', st')"
| handle_async_native: "AsyncQuery_tx F api H (run_native fmt tfmt api sql_str args) m ctx (Some h) st = Inr (nfut, ctx', Some h', st') \<Longrightarrow>
    handle_step F api H (h, st) (h', st')"
| handle_async_commit: "AsyncCommit F api H ctx (Some h) st = Inr (end_fut, ctx', Some h', st') \<Longrightarrow> handle_step F api H (h, st) (h', st')"
| handle_async_rollback: "AsyncRollback F api H ctx (Some h) st = Inr (end_fut, ctx', Some h', st') \<Longrightarrow> handle_step F api H (h, st) (h', st')"
| handle_others: "handle_step F api H (h, st) (h, st')"

inductive_cases handle_stepE: "handle_step F api H (h, st) (h', st')"

lemma Query_tx_handle:
  assumes "Query_tx F api H run ctx (Some h) res st = Inr (ctx', hdl', res', st')"
  shows "hdl' = Some h \<or> hdl' = Some (SetState kRollBacked h) \<and> GetState h = kStarted"
  using assms
  by (auto simp: Query_tx_def deref_handle_def bindE_Inr_iff Let_def split: if_splits prod.splits)

lemma EndTransaction_handle:
  assumes "EndTransaction api H rollback hdl st = Inr (b, hdl', st')"
  shows "\<exists>h'. hdl' = Some h' \<and> tx_state h' = (if rollback then kRollBacked else kCommitted)"
  using assms
  by (auto simp: EndTransaction_def bindE_Inr_iff SetState_def TransferExecutor_def Let_def split: option.splits)

lemma finish_transaction_handle:
  assumes "finish_transaction F api H sql_str rollback ctx (Some h) st = Inr (ctx', Some h', st')"
  shows "h' = h \<or> kRollBacked \<le> tx_state h'"
proof -
  obtain c hdl res u where q: "Query_tx F api H (run_exec api sql_str []) ctx (Some h)
      (MysqlResults_new OnlyExec :: exec_results) st = Inr (c, hdl, res, u)"
    and e: "Some h' = hdl \<or> (\<exists>b st''. EndTransaction api H rollback hdl u = Inr (b, Some h', st''))"
    using assms by (auto simp: finish_transaction_def proxy_Execute_tx_def bindE_Inr_iff split: if_splits)
  from e show ?thesis
  proof
    assume "Some h' = hdl"
    with Query_tx_handle [OF q] show ?thesis by (auto simp: SetState_def)
  next
    assume "\<exists>b st''. EndTransaction api H rollback hdl u = Inr (b, Some h', st'')"
    then have "tx_state h' = (if rollback then kRollBacked else kCommitted)" using EndTransaction_handle by fastforce
    then show ?thesis by simp
  qed
qed

text \<open>The asynchronous calls pass the handle on.\<close>

lemma async_filters_handle: "async_filters F p (ctx, hdl, st) = (ctx', hdl', st') \<Longrightarrow> hdl' = hdl"
  by (auto simp: async_filters_def split: prod.splits)

lemma post_invoke_handle: "post_invoke F fut (ctx, hdl, st) = Inr (fut', ctx', hdl', st') \<Longrightarrow> hdl' = hdl"
  by (cases fut) (auto simp: post_invoke_def and_then_def Let_def dest: async_filters_handle)

lemma async_reject_handle: "async_reject F m ctx hdl st = Inr (fut, ctx', hdl', st') \<Longrightarrow> hdl' = hdl"
  by (auto simp: async_reject_def split: prod.splits)

lemma AsyncUnaryInvoke_handle:
  assumes "AsyncUnaryInvoke F api H run m x (ctx, hdl, st) = Inr (fut, ctx', hdl', st')"
  shows "hdl' = hdl"
proof -
  have receive: "hdl2 = hdl" if "and_then f (\<lambda>f a. let a = async_filters F CLIENT_POST_RECV_MSG a
      in case f of Inr msg \<Rightarrow> Inr (Failed msg, a) | Inl res \<Rightarrow> Inr (Ready (fst (MysqlResults_move res)), a)) (c, hdl, u) =
      Inr (fut2, c2, hdl2, u2)" for f :: "'a results future" and c u fut2 c2 hdl2 u2
    using that by (cases f) (auto simp: and_then_def Let_def dest: async_filters_handle)
  show ?thesis
    using assms
    by (auto simp: AsyncUnaryInvoke_def bindE_Inr_iff Let_def split: if_splits prod.splits dest: receive [unfolded Let_def])
qed

lemma AsyncQuery_tx_handle:
  assumes "AsyncQuery_tx F api H run m ctx (Some h) st = Inr (fut, ctx', hdl', st')"
  shows "hdl' = Some h \<or> hdl' = Some (SetState kRollBacked h) \<and> GetState h = kStarted"
  using assms
  by (auto simp: AsyncQuery_tx_def deref_handle_def bindE_Inr_iff Let_def split: if_splits prod.splits
      dest!: async_reject_handle AsyncUnaryInvoke_handle post_invoke_handle)

lemma async_end_handle:
  assumes "async_end api H rollback (ctx, hdl, st) = Inr (fut, ctx', Some h', st')"
  shows "kRollBacked \<le> tx_state h'"
  using assms by (auto simp: async_end_def bindE_Inr_iff dest!: EndTransaction_handle split: if_splits)

lemma AsyncCommit_handle:
  fixes api :: "'w mysql_api"
  assumes "AsyncCommit F api H ctx (Some h) st = Inr (fut, ctx', Some h', st')"
  shows "h' = h \<or> kRollBacked \<le> tx_state h'"
proof -
  obtain f c hdl u where q: "AsyncQuery_tx F api H (run_exec api ''commit'' [] :: (unit, 'w) runner) OnlyExec ctx (Some h) st = Inr (f, c, hdl, u)"
    and e: "commit_then api H f (c, hdl, u) = Inr (fut, ctx', Some h', st')"
    using assms by (auto simp: AsyncCommit_def bindE_Inr_iff)
  have "Some h' = hdl \<or> kRollBacked \<le> tx_state h'"
    using e by (cases f) (auto simp: commit_then_def and_then_def bindE_Inr_iff dest: async_end_handle)
  with AsyncQuery_tx_handle [OF q] show ?thesis by (auto simp: SetState_def)
qed

lemma AsyncRollback_handle:
  fixes api :: "'w mysql_api"
  assumes "AsyncRollback F api H ctx (Some h) st = Inr (fut, ctx', Some h', st')"
  shows "h' = h \<or> kRollBacked \<le> tx_state h'"
proof -
  obtain f c hdl u where q: "AsyncQuery_tx F api H (run_exec api ''rollback'' [] :: (unit, 'w) runner) OnlyExec ctx (Some h) st = Inr (f, c, hdl, u)"
    and e: "rollback_then F api H f (c, hdl, u) = Inr (fut, ctx', Some h', st')"
    using assms by (auto simp: AsyncRollback_def bindE_Inr_iff)
  have "Some h' = hdl \<or> kRollBacked \<le> tx_state h'"
    using e by (cases f) (auto simp: rollback_then_def and_then_def bindE_Inr_iff dest: async_end_handle)
  with AsyncQuery_tx_handle [OF q] show ?thesis by (auto simp: SetState_def)
qed

lemma handle_step_ended:
  assumes "handle_step F api H (h, st) (h', st')" and "kRollBacked \<le> tx_state h"
  shows "kRollBacked \<le> tx_state h'"
  using assms
  by (elim handle_stepE)
    (auto simp: Commit_def Rollback_def SetState_def GetState_def dest!: Query_tx_handle finish_transaction_handle
      AsyncQuery_tx_handle AsyncCommit_handle AsyncRollback_handle)

interpretation handle_runs: invariant_system "\<lambda>c. kRollBacked \<le> tx_state (fst c)"
  "\<lambda>c d. handle_step F api H c d" "\<lambda>c. kRollBacked \<le> tx_state (fst c)" for F api H
  by unfold_locales (auto dest: handle_step_ended)

text \<open>C19: A transaction that ended stays ended: once the handle's state is rolled back, committed or
  invalid, no sequence of statements, commits and rollbacks with it, synchronous or not, whatever the framework
  and the server answer and whatever others do to the pools, makes it a started one again;
  and a statement with it, synchronous or not, is refused with error 3502 without touching a connection.\<close>

theorem ended_transaction_stays_ended:
  assumes r: "reach (\<lambda>c. kRollBacked \<le> tx_state (fst c)) (\<lambda>c d. handle_step F api H c d) (h, st)" and F: "passes F"
  shows "kRollBacked \<le> tx_state h \<and>
    (\<exists>w. Query_tx F api H run ctx (Some h) res st =
      Inr (set_status (invalid_handle_status F h) ctx, Some h, res, st\<lparr>fw := w\<rparr>)) \<and>
    (\<exists>w. AsyncQuery_tx F api H run m ctx (Some h) st =
      Inr (Failed ''Invalid handle.'', set_status \<lparr>frame_ret = TRPC_MYSQL_INVALID_HANDLE, status_msg = ''Invalid handle.''\<rparr> ctx,
        Some h, st\<lparr>fw := w\<rparr>))"
proof -
  have "kRollBacked \<le> tx_state h" using handle_runs.inv_reach [OF r] by simp
  moreover from this have "GetState h \<noteq> kStarted" by (auto simp: GetState_def)
  ultimately show ?thesis using not_started_refused [OF F] by blast
qed

theorem ended_transaction_stays_ended_witness:
  "kRollBacked \<le> tx_state \<lparr>tx_executor = None, tx_state = kCommitted\<rparr> \<and>
    (\<exists>w. Query_tx demo_framework open_api demo_map (run_exec open_api ''select 1'' []) demo_context
      (Some \<lparr>tx_executor = None, tx_state = kCommitted\<rparr>) (MysqlResults_new OnlyExec :: unit results) demo_proxy =
      Inr (set_status (invalid_handle_status demo_framework \<lparr>tx_executor = None, tx_state = kCommitted\<rparr>) demo_context,
        Some \<lparr>tx_executor = None, tx_state = kCommitted\<rparr>, MysqlResults_new OnlyExec, demo_proxy\<lparr>fw := w\<rparr>)) \<and>
    (\<exists>w. AsyncQuery_tx demo_framework open_api demo_map (run_exec open_api ''select 1'' [] :: (unit, demo_world) runner) OnlyExec demo_context
      (Some \<lparr>tx_executor = None, tx_state = kCommitted\<rparr>) demo_proxy =
      Inr (Failed ''Invalid handle.'', set_status \<lparr>frame_ret = TRPC_MYSQL_INVALID_HANDLE, status_msg = ''Invalid handle.''\<rparr> demo_context,
        Some \<lparr>tx_executor = None, tx_state = kCommitted\<rparr>, demo_proxy\<lparr>fw := w\<rparr>))"
proof (rule ended_transaction_stays_ended [where F = demo_framework and H = demo_map and api = open_api, OF _ demo_passes])
  show "reach (\<lambda>c. kRollBacked \<le> tx_state (fst c)) (\<lambda>c d. handle_step demo_framework open_api demo_map c d)
      (\<lparr>tx_executor = None, tx_state = kCommitted\<rparr>, demo_proxy)"
    by (rule reach_start) simp
qed

end
