(* ===== verification/Restart_Properties.thy ===== *)
theory Restart_Properties
  imports Proxy_Properties
begin

text \<open>
  Start, reconfiguration and shutdown of the service proxy: what \<^verbatim>\<open>SetServiceProxyOptionInner\<close>,
  \<^verbatim>\<open>SetMysqlConfig\<close>, \<^verbatim>\<open>Stop\<close> and \<^verbatim>\<open>Destroy\<close> leave behind.
\<close>

section \<open>Shutting pools down keeps statements and results\<close>

lemma foldE_keeps:
  assumes f: "\<And>x s t. f x s = Inr t \<Longrightarrow> keeps_blocks s t" and r: "foldE f xs s = Inr t"
  shows "keeps_blocks s t"
  by (rule foldE_invariant [where I = "keeps_blocks s", OF _ _ r])
    (use f keeps_blocks_trans in \<open>simp_all, blast\<close>)

lemma pool_Stop_keeps: "pool_Stop api p s = Inr t \<Longrightarrow> keeps_blocks s t"
proof -
  assume stop: "pool_Stop api p s = Inr t"
  have "keeps_blocks u v" if shard: "stop_shard api p i u = Inr v" for i u v
  proof -
    obtain xs a b where x: "foldE ref_copy xs u = Inr a" "foldE (Close api) xs a = Inr b"
      "foldE (\<lambda>r. ref_drop api (Some r)) xs b = Inr v"
      using shard by (auto simp: stop_shard_def bindE_Inr_iff)
    have "keeps_blocks u a" "keeps_blocks a b" "keeps_blocks b v"
      by (rule foldE_keeps [OF _ x(1)], rule ref_copy_keeps, assumption)
        (rule foldE_keeps [OF _ x(2)], rule Close_keeps, assumption,
          rule foldE_keeps [OF _ x(3)], rule ref_drop_keeps, assumption)
    then show ?thesis by (blast intro: keeps_blocks_trans)
  qed
  with stop show ?thesis unfolding pool_Stop_def by (rule foldE_keeps [rotated])
qed

lemma drop_all_keeps: "foldE (\<lambda>r. ref_drop api (Some r)) xs s = Inr t \<Longrightarrow> keeps_blocks s t"
  by (rule foldE_keeps) (rule ref_drop_keeps)

lemma pool_Destroy_keeps:
  assumes "pool_Destroy api p s = Inr (q, t)"
  shows "keeps_blocks s t"
proof -
  have "keeps_blocks s (snd (q, t))"
  proof (rule foldE_invariant [where I = "\<lambda>c. keeps_blocks s (snd c)"])
    show "foldE (destroy_shard api) [0..<unat (num_shard_group (pool_option p))] (p, s) = Inr (q, t)"
      using assms by (simp add: pool_Destroy_def)
    show "keeps_blocks s (snd b)" if "keeps_blocks s (snd a)" "destroy_shard api i a = Inr b" for i a b
      using that drop_all_keeps keeps_blocks_trans
      by (cases a) (fastforce simp: destroy_shard_def bindE_Inr_iff)
  qed simp
  then show ?thesis by simp
qed

lemma mgr_Stop_keeps:
  assumes "mgr_Stop api H m = Inr t"
  shows "keeps_blocks (msys m) (msys t) \<and> mgr_option t = mgr_option m"
proof -
  let ?I = "\<lambda>u. keeps_blocks (msys m) (msys u) \<and> mgr_option u = mgr_option m"
  let ?m = "m\<lparr>pools_to_destroy := hm_get_all_items H (executor_pools m)\<rparr>"
  show ?thesis
  proof (rule foldE_invariant [where I = ?I])
    show "foldE (stop_one api) (map snd (pools_to_destroy ?m)) ?m = Inr t" using assms by (simp add: mgr_Stop_def)
    show "?I b" if "?I a" "stop_one api q a = Inr b" for q a b
      using that pool_Stop_keeps keeps_blocks_trans by (fastforce simp: stop_one_def bindE_Inr_iff)
  qed simp
qed

lemma mgr_Destroy_keeps:
  assumes "mgr_Destroy api H m = Inr t"
  shows "keeps_blocks (msys m) (msys t) \<and> mgr_option t = mgr_option m"
proof -
  let ?I = "\<lambda>u. keeps_blocks (msys m) (msys u) \<and> mgr_option u = mgr_option m"
  obtain u where u: "foldE (destroy_one api) (map snd (pools_to_destroy m)) m = Inr u"
    "t = u\<lparr>executor_pools := hm_reclaim H (executor_pools u), pools_to_destroy := []\<rparr>"
    using assms by (auto simp: mgr_Destroy_def bindE_Inr_iff)
  have "?I u"
  proof (rule foldE_invariant [where I = ?I, OF _ _ u(1)])
    show "?I b" if a: "?I a" and d: "destroy_one api q a = Inr b" for q a b
    proof -
      obtain p p' s v where "pool_Destroy api p (msys a) = Inr (p', s)"
        "foldE (\<lambda>r. ref_drop api (Some r)) (concat (executor_shards p')) s = Inr v" "msys b = v" "mgr_option b = mgr_option a"
        using d by (auto simp: destroy_one_def delete_pool_def get_pool_def bindE_Inr_iff split: option.splits)
      then show ?thesis using a pool_Destroy_keeps drop_all_keeps by (metis keeps_blocks_trans)
    qed
  qed simp
  with u(2) show ?thesis by simp
qed

section \<open>Reconfiguration\<close>

lemma shutdown_manager:
  assumes H: "hashmap_laws H" and ok: "manager_ok H U m"
  obtains t u where "mgr_Stop api H m = Inr t" and "mgr_Destroy api H t = Inr u" and "manager_ok H U u"
    and "same_on U (msys m) (msys u)" and "map_of_mgr H u = Map.empty"
    and "\<forall>q \<in> ran (map_of_mgr H m). pools u q = None \<and> (\<forall>r \<in> pooled_at m q. execs (msys u) r = None)"
proof -
  note D = manager_okD [OF ok]
  have key: "\<forall>k q. map_of_mgr H m k = Some q \<longrightarrow> (\<exists>p. pools m q = Some p \<and> endpoint_key (target p) = k)"
    using D(3) by blast
  from shutdown_spec [OF H D(1) key, of api] obtain t u where S: "mgr_Stop api H m = Inr t" "mgr_Destroy api H t = Inr u"
    "map_of_mgr H u = Map.empty" "mgr_ok U u" "pools u = (\<lambda>q. if q \<in> ran (map_of_mgr H m) then None else pools m q)"
    "\<forall>q \<in> ran (map_of_mgr H m). pools u q = None \<and> (\<forall>r \<in> pooled_at m q. execs (msys u) r = None)"
    "\<forall>r \<in> U. execs (msys u) r = execs (msys m) r"
    by blast
  have k: "keeps_blocks (msys m) (msys u)" "mgr_option u = mgr_option m"
    using mgr_Stop_keeps [OF S(1)] mgr_Destroy_keeps [OF S(2)] keeps_blocks_trans by auto
  have "q < next_block (msys u)" if "pools u q = Some p" for q p
  proof -
    have "pools m q = Some p" using that S(5) by (simp split: if_splits)
    with D(4) [of q p] k(1) show ?thesis by (simp add: keeps_blocks_def)
  qed
  moreover have "b < next_block (msys u)" if "b \<in> stmts (msys u) \<union> ress (msys u)" for b
    using that D(5) [of b] k(1) by (simp add: keeps_blocks_def)
  ultimately have "manager_ok H U u" using S(3,4) D(2) k(2) unfolding manager_ok_def by auto
  moreover have "same_on U (msys m) (msys u)" using S(7) by (simp add: same_on_def)
  ultimately show thesis using that [OF S(1,2)] S(3,6) by blast
qed

definition pool_option_of :: "service_option \<Rightarrow> MysqlClientConf \<Rightarrow> MysqlExecutorPoolOption" where
  "pool_option_of opt conf =
     \<lparr>max_size = max_conn_num opt, max_idle_time = idle_time opt, num_shard_group = cf_num_shard_group conf,
      po_dbname = dbname conf, po_username = user_name conf, po_password = cf_password conf, po_char_set = cf_char_set conf\<rparr>"

text \<open>Starting the manager on a store without a map of pools.\<close>

lemma InitManager_ready:
  assumes H: "hashmap_laws H" and m: "manager_ok H U (mgr st)" and up: "\<not> has_manager st" "thread_pool st \<noteq> None"
    and n: "cf_num_shard_group (mysql_conf st) \<noteq> 0"
  shows "proxy_ok H U (snd (InitManager H st))" and "psys (snd (InitManager H st)) = psys st"
    and "mgr_option (mgr (snd (InitManager H st))) = pool_option_of (proxy_option st) (mysql_conf st)"
    and "map_of_mgr H (mgr (snd (InitManager H st))) = Map.empty"
    and "pools (mgr (snd (InitManager H st))) = pools (mgr st)"
    and "mysql_conf (snd (InitManager H st)) = mysql_conf st" and "thread_pool (snd (InitManager H st)) = thread_pool st"
proof -
  let ?m = "(mgr st)\<lparr>executor_pools := hm_new H, pools_to_destroy := [], mgr_option := pool_option_of (proxy_option st) (mysql_conf st)\<rparr>"
  have eq: "snd (InitManager H st) = st\<lparr>has_manager := True, mgr := ?m\<rparr>"
    using up by (simp add: InitManager_def pool_option_of_def Let_def)
  have e: "map_of_mgr H ?m = Map.empty" using H by (simp add: map_of_mgr_def hashmap_laws_def fun_eq_iff)
  have "pooled_at ?m = pooled_at (mgr st)" "others V ?m = others V (mgr st)" for V
    by (simp_all add: pooled_at_def others_def fun_eq_iff)
  then have "mgr_ok U ?m" using manager_okD(1) [OF m] by (simp add: mgr_ok_def)
  moreover have "num_shard_group (pool_option_of (proxy_option st) (mysql_conf st)) \<noteq> 0" using n by (simp add: pool_option_of_def)
  ultimately have "manager_ok H U ?m" using m e unfolding manager_ok_def by simp
  with up(2) show "proxy_ok H U (snd (InitManager H st))" by (simp add: eq proxy_ok_def)
  show "psys (snd (InitManager H st)) = psys st" by (simp add: eq psys_def)
  show "map_of_mgr H (mgr (snd (InitManager H st))) = Map.empty" using e by (simp add: eq)
qed (use up in \<open>simp_all add: InitManager_def pool_option_of_def Let_def\<close>)

lemma SetMysqlConfig_restarts:
  assumes H: "hashmap_laws H" and ok: "proxy_ok H U st" and n: "cf_num_shard_group conf \<noteq> 0"
  shows "\<exists>st'. SetMysqlConfig F api H conf st = Inr st' \<and> proxy_ok H U st' \<and> same_on U (psys st) (psys st') \<and>
    mysql_conf st' = conf \<and> mgr_option (mgr st') = pool_option_of (proxy_option st) conf \<and>
    thread_pool st' = Some \<lparr>tp_thread_num = thread_num conf, tp_bind_core = thread_bind_core conf \<noteq> []\<rparr> \<and>
    map_of_mgr H (mgr st') = Map.empty \<and>
    (\<forall>q \<in> ran (map_of_mgr H (mgr st)). pools (mgr st') q = None \<and>
       (\<forall>r \<in> pooled_at (mgr st) q. execs (psys st') r = None))"
proof -
  have up: "has_manager st" "thread_pool st \<noteq> None" and m: "manager_ok H U (mgr st)" using ok by (simp_all add: proxy_ok_def)
  obtain t u where S: "mgr_Stop api H (mgr st) = Inr t" "mgr_Destroy api H t = Inr u" "manager_ok H U u"
    "same_on U (msys (mgr st)) (msys u)" "map_of_mgr H u = Map.empty"
    "\<forall>q \<in> ran (map_of_mgr H (mgr st)). pools u q = None \<and> (\<forall>r \<in> pooled_at (mgr st) q. execs (msys u) r = None)"
    by (rule shutdown_manager [OF H m, of api])
  let ?st = "st\<lparr>mysql_conf := conf, fw := tp_join F (tp_stop F (fw st)), thread_pool := None, mgr := u, has_manager := False\<rparr>"
  let ?st1 = "snd (InitThreadPool F ?st)"
  let ?st' = "snd (InitManager H ?st1)"
  have eq: "SetMysqlConfig F api H conf st = Inr ?st'"
    using up S(1,2) by (simp add: SetMysqlConfig_def need_def get_mgr_def Let_def)
  have tp: "thread_pool ?st1 = Some \<lparr>tp_thread_num = thread_num conf, tp_bind_core = thread_bind_core conf \<noteq> []\<rparr>"
    "mgr ?st1 = u" "\<not> has_manager ?st1" "mysql_conf ?st1 = conf" "proxy_option ?st1 = proxy_option st" "psys ?st1 = msys u"
    by (simp_all add: InitThreadPool_def psys_def Let_def)
  have pre: "manager_ok H U (mgr ?st1)" "\<not> has_manager ?st1" "thread_pool ?st1 \<noteq> None" "cf_num_shard_group (mysql_conf ?st1) \<noteq> 0"
    using S(3) n tp by simp_all
  note I = InitManager_ready [OF H pre]
  have "same_on U (psys st) (psys ?st')" using S(4) I(2) tp(6) by (simp add: psys_def [of st])
  then show ?thesis using eq I S(6) tp by (intro exI [of _ ?st']) simp
qed

text \<open>C21: \<^verbatim>\<open>SetMysqlConfig\<close> on a proxy in service, with at least one shard group: it returns; every pool is
  deleted with the connections that waited in it; the connections in use, those of open
  transactions among them, are untouched; the proxy is in service again with the new
  configuration, and the next pool made uses it.\<close>

theorem reconfiguration_restarts:
  assumes H: "hashmap_laws H" and ok: "proxy_ok H U st" and n: "cf_num_shard_group conf \<noteq> 0"
  shows "\<exists>st'. SetMysqlConfig F api H conf st = Inr st' \<and> proxy_ok H U st' \<and> same_on U (psys st) (psys st') \<and>
    mysql_conf st' = conf \<and> mgr_option (mgr st') = pool_option_of (proxy_option st) conf \<and>
    thread_pool st' = Some \<lparr>tp_thread_num = thread_num conf, tp_bind_core = thread_bind_core conf \<noteq> []\<rparr> \<and>
    map_of_mgr H (mgr st') = Map.empty \<and>
    (\<forall>q \<in> ran (map_of_mgr H (mgr st)). pools (mgr st') q = None \<and>
       (\<forall>r \<in> pooled_at (mgr st) q. execs (psys st') r = None))"
  using SetMysqlConfig_restarts [OF H ok n] .

theorem reconfiguration_restarts_witness:
  "\<exists>st'. SetMysqlConfig demo_framework demo_api demo_map (MysqlClientConf_default\<lparr>dbname := ''test''\<rparr>) demo_proxy = Inr st' \<and>
    proxy_ok demo_map {0} st' \<and> po_dbname (mgr_option (mgr st')) = ''test''"
  using reconfiguration_restarts [OF demo_map_laws demo_proxy_ok, of "MysqlClientConf_default\<lparr>dbname := ''test''\<rparr>" demo_framework demo_api]
  by (auto simp: MysqlClientConf_default_def pool_option_of_def)

text \<open>A configuration with zero shard groups is taken without a complaint, and the first query to a
  node divides by zero.\<close>

theorem zero_shard_groups_fault:
  assumes F: "passes F" and H: "hashmap_laws H" and ok: "proxy_ok H U st" and zero: "cf_num_shard_group conf = 0"
  shows "\<exists>st'. SetMysqlConfig F api H conf st = Inr st' \<and> Query F api H run ctx res st' = Inl Division_by_zero"
proof -
  have up: "has_manager st" "thread_pool st \<noteq> None" and m: "manager_ok H U (mgr st)" using ok by (simp_all add: proxy_ok_def)
  obtain t u where S: "mgr_Stop api H (mgr st) = Inr t" "mgr_Destroy api H t = Inr u"
    by (rule shutdown_manager [OF H m, of api])
  let ?st1 = "snd (InitThreadPool F (st\<lparr>mysql_conf := conf, fw := tp_join F (tp_stop F (fw st)), thread_pool := None, mgr := u, has_manager := False\<rparr>))"
  let ?st' = "snd (InitManager H ?st1)"
  have "SetMysqlConfig F api H conf st = Inr ?st'"
    using up S by (simp add: SetMysqlConfig_def need_def get_mgr_def Let_def)
  moreover have init: "has_manager ?st'" "thread_pool ?st' \<noteq> None" "num_shard_group (mgr_option (mgr ?st')) = 0"
    "hm_get H (executor_pools (mgr ?st')) k = None" for k
    using H zero by (simp_all add: InitThreadPool_def InitManager_def hashmap_laws_def Let_def)
  have "Query F api H run ctx res ?st' = Inl Division_by_zero"
  proof -
    obtain w1 where 1: "fw_do (fill_context F) ctx ?st' = (ctx, ?st'\<lparr>fw := w1\<rparr>)" using passes_fill [OF F] by blast
    obtain w2 where 2: "fw_call (message_filters F CLIENT_PRE_RPC_INVOKE) ctx (?st'\<lparr>fw := w1\<rparr>) = (False, ctx, ?st'\<lparr>fw := w2\<rparr>)"
      using passes_filters [OF F, of CLIENT_PRE_RPC_INVOKE ctx "?st'\<lparr>fw := w1\<rparr>"] by auto
    have "invoke_task F api H run None ctx res s = Inl Division_by_zero"
      if "has_manager s" "num_shard_group (mgr_option (mgr s)) = 0" "\<And>k. hm_get H (executor_pools (mgr s)) k = None" for s
      using that by (simp add: invoke_task_def task_connection_def Get_pool_def get_mgr_def mgr_Get_def Get_lookup_def
          CreateExecutorPool_def pool_new_def)
    then have "UnaryInvoke F api H run None ctx res (?st'\<lparr>fw := w2\<rparr>) = Inl Division_by_zero"
      by (intro UnaryInvoke_fails [OF F]) (use init in simp_all)
    with 1 2 show ?thesis by (simp add: Query_def)
  qed
  ultimately show ?thesis by blast
qed

theorem zero_shard_groups_fault_witness:
  "\<exists>st'. SetMysqlConfig demo_framework demo_api demo_map (MysqlClientConf_default\<lparr>cf_num_shard_group := 0\<rparr>) demo_proxy = Inr st' \<and>
    Query demo_framework demo_api demo_map (run_exec demo_api ''delete from t'' []) demo_context
      (MysqlResults_new OnlyExec :: unit results) st' = Inl Division_by_zero"
  by (rule zero_shard_groups_fault [OF demo_passes demo_map_laws demo_proxy_ok]) simp

section \<open>Start\<close>

text \<open>The name of a service entry, and that the entries before and after the proxy's own have others.\<close>

definition entry_name :: "'y yaml_api \<Rightarrow> 'y \<Rightarrow> string option" where
  "entry_name Y idx = Option.bind (y_get Y idx ''name'') (y_string Y)"

lemma SetConfigFromFile_other:
  assumes "\<forall>idx \<in> set services. \<exists>n. entry_name Y idx = Some n \<and> n \<noteq> so_name (proxy_option st)"
  shows "SetConfigFromFile Y (services @ rest) st = SetConfigFromFile Y rest st"
  using assms by (induction services) (auto simp: entry_name_def)

lemma SetConfigFromFile_found:
  assumes Y: "yaml_laws Y"
    and others: "\<forall>i \<in> set (before @ after). \<exists>n. entry_name Y i = Some n \<and> n \<noteq> so_name (proxy_option st)"
    and own: "entry_name Y idx = Some (so_name (proxy_option st))" "y_get Y idx ''mysql'' = Some (encode Y conf)"
  shows "SetConfigFromFile Y (before @ idx # after) st = Inr (st\<lparr>mysql_conf := conf\<rparr>)"
proof -
  have "as_conf Y (encode Y conf) = Inr conf"
    using Y by (simp add: as_conf_def yaml_decode_def encode_def read_key_def yaml_laws_def Let_def)
  moreover have "SetConfigFromFile Y after (st\<lparr>mysql_conf := conf\<rparr>) = Inr (st\<lparr>mysql_conf := conf\<rparr>)"
    using SetConfigFromFile_other [of after Y "st\<lparr>mysql_conf := conf\<rparr>" "[]"] others by simp
  ultimately have "SetConfigFromFile Y (idx # after) st = Inr (st\<lparr>mysql_conf := conf\<rparr>)"
    using own by (simp add: entry_name_def)
  then show ?thesis using SetConfigFromFile_other [of before Y st "idx # after"] others by simp
qed

text \<open>C28: Setting the options of a new proxy whose section of the configuration file, found by its name
  among the services, has a configuration with at least one shard group: the proxy is in
  service, its pools are made with that configuration and the limits of the options, and its
  thread pool has the configured number of threads.\<close>

theorem configured_start:
  assumes H: "hashmap_laws H" and Y: "yaml_laws Y" and new: "\<not> has_manager st" "thread_pool st = None"
    and empty: "manager_ok H {} (mgr st)"
    and others: "\<forall>i \<in> set (before @ after). \<exists>n. entry_name Y i = Some n \<and> n \<noteq> so_name opt"
    and own: "entry_name Y idx = Some (so_name opt)" "y_get Y idx ''mysql'' = Some (encode Y conf)"
    and n: "cf_num_shard_group conf \<noteq> 0"
  shows "\<exists>st'. SetServiceProxyOptionInner F H Y (before @ idx # after) opt st = Inr st' \<and> proxy_ok H {} st' \<and>
    mysql_conf st' = conf \<and> mgr_option (mgr st') = pool_option_of opt conf \<and>
    thread_pool st' = Some \<lparr>tp_thread_num = thread_num conf, tp_bind_core = thread_bind_core conf \<noteq> []\<rparr>"
proof -
  let ?st = "st\<lparr>proxy_option := opt, fw := base_set_option F (fw st)\<rparr>\<lparr>mysql_conf := conf\<rparr>"
  let ?st1 = "snd (InitThreadPool F ?st)"
  have "SetConfigFromFile Y (before @ idx # after) (st\<lparr>proxy_option := opt, fw := base_set_option F (fw st)\<rparr>) = Inr ?st"
    by (rule SetConfigFromFile_found [OF Y]) (use others own in simp_all)
  then have eq: "SetServiceProxyOptionInner F H Y (before @ idx # after) opt st = Inr (snd (InitManager H ?st1))"
    by (simp add: SetServiceProxyOptionInner_def)
  have tp: "thread_pool ?st1 = Some \<lparr>tp_thread_num = thread_num conf, tp_bind_core = thread_bind_core conf \<noteq> []\<rparr>"
    "mgr ?st1 = mgr st" "\<not> has_manager ?st1" "mysql_conf ?st1 = conf" "proxy_option ?st1 = opt"
    using new by (simp_all add: InitThreadPool_def Let_def)
  have pre: "manager_ok H {} (mgr ?st1)" "\<not> has_manager ?st1" "thread_pool ?st1 \<noteq> None" "cf_num_shard_group (mysql_conf ?st1) \<noteq> 0"
    using empty n tp by simp_all
  note I = InitManager_ready [OF H pre]
  show ?thesis using eq I tp by (intro exI [of _ "snd (InitManager H ?st1)"]) simp
qed

definition blank_proxy :: "((string \<times> nat) list, demo_world, unit) proxy" where
  "blank_proxy = demo_proxy\<lparr>has_manager := False, thread_pool := None,
     mgr := (mgr demo_proxy)\<lparr>msys := (demo_sys True True)\<lparr>execs := Map.empty, mysqls := {}\<rparr>\<rparr>\<rparr>"

theorem configured_start_witness:
  "\<exists>st'. SetServiceProxyOptionInner demo_framework demo_map demo_yaml_api
      [Mapping [''name'' \<mapsto> Text ''redis''], Mapping [''name'' \<mapsto> Text ''mysql'',
         ''mysql'' \<mapsto> encode demo_yaml_api (MysqlClientConf_default\<lparr>dbname := ''test''\<rparr>)]]
      \<lparr>so_name = ''mysql'', max_conn_num = 8, idle_time = 1000\<rparr> blank_proxy = Inr st' \<and> proxy_ok demo_map {} st' \<and>
    po_dbname (mgr_option (mgr st')) = ''test'' \<and> max_size (mgr_option (mgr st')) = 8"
proof -
  let ?conf = "MysqlClientConf_default\<lparr>dbname := ''test''\<rparr>" and ?opt = "\<lparr>so_name = ''mysql'', max_conn_num = 8, idle_time = 1000\<rparr>"
  let ?redis = "Mapping [''name'' \<mapsto> Text ''redis'']"
    and ?own = "Mapping [''name'' \<mapsto> Text ''mysql'', ''mysql'' \<mapsto> encode demo_yaml_api ?conf]"
  have "\<not> has_manager blank_proxy" "thread_pool blank_proxy = None" by (simp_all add: blank_proxy_def)
  moreover have "manager_ok demo_map {} (mgr blank_proxy)"
    by (auto simp: blank_proxy_def demo_proxy_def manager_ok_def mgr_ok_def pooled_at_def others_def held_def wf_on_def
        single_refs_def demo_option_def map_of_mgr_def demo_map_def demo_sys_def)
  moreover have "\<forall>i \<in> set ([?redis] @ []). \<exists>n. entry_name demo_yaml_api i = Some n \<and> n \<noteq> so_name ?opt"
    by (simp add: entry_name_def demo_yaml_api_def)
  moreover have "entry_name demo_yaml_api ?own = Some (so_name ?opt)"
    "y_get demo_yaml_api ?own ''mysql'' = Some (encode demo_yaml_api ?conf)"
    by (simp_all add: entry_name_def demo_yaml_api_def)
  moreover have "cf_num_shard_group ?conf \<noteq> 0" by (simp add: MysqlClientConf_default_def)
  ultimately have "\<exists>st'. SetServiceProxyOptionInner demo_framework demo_map demo_yaml_api ([?redis] @ ?own # []) ?opt blank_proxy =
      Inr st' \<and> proxy_ok demo_map {} st' \<and> mysql_conf st' = ?conf \<and> mgr_option (mgr st') = pool_option_of ?opt ?conf \<and>
      thread_pool st' = Some \<lparr>tp_thread_num = thread_num ?conf, tp_bind_core = thread_bind_core ?conf \<noteq> []\<rparr>"
    by (rule configured_start [OF demo_map_laws demo_yaml_laws])
  then show ?thesis by (auto simp: pool_option_of_def)
qed

end
