(* ===== verification/Client_Calls.thy ===== *)
theory Client_Calls
  imports Transaction_Properties Restart_Properties
begin

text \<open>
  What the calls of a client do to the ownership of connections, whatever the framework and the server
  answer: statements on a connection of one's own, \<^verbatim>\<open>Begin\<close>, \<^verbatim>\<open>Commit\<close> and \<^verbatim>\<open>Rollback\<close>, and the
  destruction of a handle. They return, and keep the invariant \<open>proxy_ok\<close>.
\<close>

section \<open>Calls on a connection of one's own\<close>

context connection_user begin

lemma own_task_settles:
  assumes ok: "proxy_ok H U st" and r: "r \<in> U" "connected (psys st) r" and res: "suits res" "results_wf (psys st) res"
  shows "\<exists>ctx' res' st'. invoke_task F api H run (Some r) ctx res (st\<lparr>fw := w\<rparr>) = Inr (ctx', res', st') \<and> settled H U st st' res'"
proof -
  have m: "manager_ok H U (mgr st)" using ok by (simp add: proxy_ok_def)
  have c: "connected (msys (mgr st)) r" "results_wf (msys (mgr st)) res" using r(2) res(2) by (simp_all add: psys_def)
  obtain b res' t where t: "run r res (msys (mgr st)) = Inr (b, res', t)" "manager_ok H U ((mgr st)\<lparr>msys := t\<rparr>)"
    "uses_connection (msys (mgr st)) t" "results_wf t res'"
    by (rule run_manager [OF m r(1) c(1) res(1) c(2)])
  let ?st' = "put_sys t (st\<lparr>fw := w\<rparr>)"
  have "invoke_task F api H run (Some r) ctx res (st\<lparr>fw := w\<rparr>) = Inr (ctx, res', ?st')"
    using IsConnected_known [OF connected_exists [OF r(2)]] r(2) t(1)
    by (simp add: invoke_task_def task_connection_def return_connection_def psys_def)
  moreover have "settled H U st ?st' res'"
    using proxy_ok_put [OF ok t(2)] t(3,4) by (simp add: settled_def uses_connection_def same_on_def psys_def)
  ultimately show ?thesis by blast
qed

lemma own_call_settles:
  assumes ok: "proxy_ok H U st" and r: "r \<in> U" "connected (psys st) r" and res: "suits res" "results_wf (psys st) res"
    and tasks: "takes_tasks F"
  shows "\<exists>ctx' res' st'. UnaryInvoke F api H run (Some r) ctx res st = Inr (ctx', res', st') \<and> settled H U st st' res'"
  by (rule UnaryInvoke_settles [OF _ tasks]) (use ok res own_task_settles [OF ok r res] in \<open>simp_all add: proxy_ok_def settled_def\<close>)

end

lemma drop_results_returns:
  assumes ok: "proxy_ok H U st" and res: "results_wf (psys st) res"
  obtains st' where "drop_results api res st = Inr st'" and "proxy_ok H U st'" and "execs (psys st') = execs (psys st)"
proof (cases "mysql_res res")
  case None
  then have "drop_results api res st = Inr (put_sys (psys st) st)"
    by (simp add: drop_results_def MysqlResults_destroy_def mysql_free_result_def)
  moreover have "put_sys (psys st) st = st" by (simp add: put_sys_def psys_def)
  ultimately show thesis using ok that by simp
next
  case (Some b)
  let ?s = "(psys st)\<lparr>lib := c_free_result api b (lib (psys st)), ress := ress (psys st) - {b}\<rparr>"
  have m: "manager_ok H U (mgr st)" using ok by (simp add: proxy_ok_def)
  have "manager_ok H U ((mgr st)\<lparr>msys := ?s\<rparr>)"
    by (rule manager_ok_run [OF m]) (use manager_okD(5) [OF m] in \<open>auto simp: psys_def\<close>)
  then show thesis
    by (intro that [of "put_sys ?s st"])
      (use Some res proxy_ok_put [OF ok] in \<open>simp_all add: drop_results_def MysqlResults_destroy_def mysql_free_result_def results_wf_def\<close>)
qed

section \<open>Executors in use\<close>

text \<open>A change of the executors that keeps each of them held keeps the manager's invariant.\<close>

lemma manager_ok_held:
  assumes ok: "manager_ok H U m" and k: "keeps_blocks (msys m) t"
    and h: "held (U \<union> (\<Union>q. pooled_at m q)) (msys m) \<Longrightarrow> held (U \<union> (\<Union>q. pooled_at m q)) t"
  shows "manager_ok H U (m\<lparr>msys := t\<rparr>)"
proof -
  let ?m = "m\<lparr>msys := t\<rparr>"
  have at: "pooled_at ?m = pooled_at m" "others V ?m = others V m" for V
    by (simp_all add: pooled_at_def others_def fun_eq_iff)
  have "mgr_ok U ?m" using manager_okD(1) [OF ok] h unfolding mgr_ok_def by (simp add: at)
  moreover have "map_of_mgr H ?m = map_of_mgr H m" by (simp add: map_of_mgr_def fun_eq_iff)
  ultimately show ?thesis
    using ok k unfolding manager_ok_def keeps_blocks_def by (auto intro: less_le_trans)
qed

lemma CheckAlive_proxy:
  assumes ok: "proxy_ok H U st" and r: "r \<in> U"
  obtains b s where "CheckAlive api r (psys st) = Inr (b, s)" and "proxy_ok H U (put_sys s st)"
    and "same_on (U - {r}) (psys st) s" and "keeps_blocks (psys st) s" and "b \<Longrightarrow> same_on U (psys st) s"
    and "connected s r = b"
proof -
  have m: "manager_ok H U (mgr st)" using ok by (simp add: proxy_ok_def)
  let ?R = "U \<union> (\<Union>q. pooled_at (mgr st) q)"
  have h: "held ?R (psys st)" using manager_okD(1) [OF m] by (simp add: mgr_ok_def psys_def)
  obtain e s b where s: "execs (psys st) r = Some e" "CheckAlive api r (psys st) = Inr (b, s)" "wf_on ?R s"
    "execs s = (execs (psys st))(r \<mapsto> e\<lparr>is_connected := b\<rparr>)" "b \<Longrightarrow> is_connected e"
    by (rule CheckAlive_spec [of ?R "psys st" r api]) (use h r in \<open>auto simp: held_def\<close>)
  have k: "keeps_blocks (psys st) s" by (rule CheckAlive_keeps [OF s(2)])
  have "held ?R s" using h s(1,3,4) by (auto simp: held_def single_refs_def)
  then have "manager_ok H U ((mgr st)\<lparr>msys := s\<rparr>)" using manager_ok_held [OF m] k by (simp add: psys_def)
  moreover have "same_on U (psys st) s" if b using s(1,4) s(5) [OF that] that by (simp add: same_on_def)
  ultimately show thesis
    by (intro that [OF s(2)]) (use proxy_ok_put [OF ok] k s(4) in \<open>auto simp: same_on_def\<close>)
qed

lemma Close_proxy:
  assumes ok: "proxy_ok H U st" and r: "r \<in> U"
  obtains s where "Close api r (psys st) = Inr s" and "proxy_ok H U (put_sys s st)" and "same_on (U - {r}) (psys st) s"
    and "\<not> connected s r"
proof -
  have m: "manager_ok H U (mgr st)" using ok by (simp add: proxy_ok_def)
  let ?R = "U \<union> (\<Union>q. pooled_at (mgr st) q)"
  have h: "held ?R (psys st)" using manager_okD(1) [OF m] by (simp add: mgr_ok_def psys_def)
  obtain e s where s: "execs (psys st) r = Some e" "Close api r (psys st) = Inr s" "wf_on ?R s"
    "execs s = (execs (psys st))(r \<mapsto> closed e)"
    by (rule Close_spec [of ?R "psys st" r api]) (use h r in \<open>auto simp: held_def\<close>)
  have "held ?R s" using h s(1,3,4) by (auto simp: held_def single_refs_def closed_def)
  then have "manager_ok H U ((mgr st)\<lparr>msys := s\<rparr>)"
    using manager_ok_held [OF m] Close_keeps [OF s(2)] by (simp add: psys_def)
  then show thesis
    by (intro that [OF s(2)]) (use proxy_ok_put [OF ok] s(4) Close_closes [OF s(2)] in \<open>auto simp: same_on_def\<close>)
qed

section \<open>What the operations on a handle do\<close>

text \<open>\<open>handle_ok\<close>: the executor of a handle is in use, and a started handle has one that is connected.\<close>

definition handle_ok :: "nat set \<Rightarrow> tx \<Rightarrow> ('m, 'w, 'f) proxy \<Rightarrow> bool" where
  "handle_ok U h st \<longleftrightarrow> set_option (tx_executor h) \<subseteq> U \<and>
     (tx_state h = kStarted \<longrightarrow> (\<exists>r. tx_executor h = Some r \<and> connected (psys st) r))"

lemma handle_ok_same:
  assumes "handle_ok U h st" and "same_on V (psys st) (psys st')" and "set_option (tx_executor h) \<subseteq> V" and "V \<subseteq> U'"
  shows "handle_ok U' h st'"
  using assms by (auto simp: handle_ok_def same_on_def connected_def)

text \<open>\<open>handled\<close>: what an operation on a handle leaves: the handle has the executor it had, or none and the
  executor is no longer in use; the other executors in use are as they were.\<close>

definition handled :: "'m hashmap_api \<Rightarrow> nat set \<Rightarrow> tx \<Rightarrow> tx \<Rightarrow> ('m, 'w, 'f) proxy \<Rightarrow> ('m, 'w, 'f) proxy \<Rightarrow> bool" where
  "handled H U h h' st st' \<longleftrightarrow>
     set_option (tx_executor h') \<subseteq> set_option (tx_executor h) \<and>
     proxy_ok H (U - set_option (tx_executor h) \<union> set_option (tx_executor h')) st' \<and>
     same_on (U - set_option (tx_executor h)) (psys st) (psys st') \<and>
     (tx_state h' = kStarted \<longrightarrow> (\<exists>r. tx_executor h' = Some r \<and> connected (psys st') r))"

lemma handled_settled:
  assumes "settled H U st st' res" and "handle_ok U h st"
  shows "handled H U h h st st'"
proof -
  have "U - set_option (tx_executor h) \<union> set_option (tx_executor h) = U" using assms(2) by (auto simp: handle_ok_def)
  with assms show ?thesis
    by (auto simp: settled_def handled_def handle_ok_def same_on_def connected_def)
qed

lemma handled_fw [simp]:
  "handled H U h h' st (st'\<lparr>fw := w\<rparr>) = handled H U h h' st st'"
  "handled H U h h' (st\<lparr>fw := w\<rparr>) st' = handled H U h h' st st'"
  by (simp_all add: handled_def)

context connection_user begin

lemma Query_tx_returns:
  assumes ok: "proxy_ok H U st" and h: "handle_ok U h st" and res: "suits res" "results_wf (psys st) res"
    and tasks: "takes_tasks F"
  shows "\<exists>ctx' h' res' st'. Query_tx F api H run ctx (Some h) res st = Inr (ctx', Some h', res', st') \<and>
    handled H U h h' st st' \<and> tx_executor h' = tx_executor h \<and> results_wf (psys st') res'"
proof -
  obtain c1 w1 where 1: "fw_do (fill_context F) ctx st = (c1, st\<lparr>fw := w1\<rparr>)" by (rule fw_do_eq)
  obtain reject c2 w2 where 2: "fw_call (message_filters F CLIENT_PRE_RPC_INVOKE) c1 (st\<lparr>fw := w1\<rparr>) = (reject, c2, st\<lparr>fw := w2\<rparr>)"
    by (rule fw_call_eq [of "message_filters F CLIENT_PRE_RPC_INVOKE" c1 "st\<lparr>fw := w1\<rparr>"]) simp
  let ?st = "st\<lparr>fw := w2\<rparr>"
  have last: "\<exists>c w. (let (ctx, st) = RunFilters F CLIENT_POST_RPC_INVOKE ctx u in Inr (ctx, hdl, x, st)) =
      (Inr (c, hdl, x, u\<lparr>fw := w\<rparr>) :: (call_context \<times> tx option \<times> 'r results \<times> _) result)" for ctx u hdl x
  proof -
    obtain c w where "RunFilters F CLIENT_POST_RPC_INVOKE ctx u = (c, u\<lparr>fw := w\<rparr>)" by (rule RunFilters_eq)
    then show ?thesis by (intro exI [of _ c] exI [of _ w]) simp
  qed
  have same: "handled H U h h st st" using handled_settled [of H U st st res h] ok res(2) h by (simp add: settled_def)
  show ?thesis
  proof (cases "reject \<or> GetState h \<noteq> kStarted")
    case True
    then have "\<exists>c3. Query_tx F api H run ctx (Some h) res st =
        (let (ctx, st) = RunFilters F CLIENT_POST_RPC_INVOKE c3 ?st in Inr (ctx, Some h, res, st))"
      using 1 2 by (cases reject) (auto simp: Query_tx_def deref_handle_def)
    then show ?thesis using last [of _ ?st "Some h" res] same res(2) by fastforce
  next
    case False
    then obtain r where r: "tx_executor h = Some r" "connected (psys st) r" "r \<in> U" and go: "\<not> reject" "GetState h = kStarted"
      using h by (auto simp: handle_ok_def GetState_def)
    have okw: "proxy_ok H U ?st" using ok by simp
    obtain b s where s: "CheckAlive api r (psys ?st) = Inr (b, s)" "proxy_ok H U (put_sys s ?st)"
      "same_on (U - {r}) (psys ?st) s" "keeps_blocks (psys ?st) s" "b \<Longrightarrow> same_on U (psys ?st) s" "connected s r = b"
      by (rule CheckAlive_proxy [OF okw r(3), of api]) blast
    have wf: "results_wf s res" using keeps_results [OF s(4), of res] res(2) by simp
    show ?thesis
    proof (cases b)
      case False
      let ?h = "SetState kRollBacked h"
      have "Query_tx F api H run ctx (Some h) res st = (let (ctx, st) =
          RunFilters F CLIENT_POST_RPC_INVOKE (set_status (lost_status F) c2) (put_sys s ?st) in Inr (ctx, Some ?h, res, st))"
        using 1 2 go r(1) s(1) False by (simp add: Query_tx_def deref_handle_def deref_def GetExecutor_of_def)
      moreover have "handled H U h ?h st (put_sys s ?st)"
        using s(2,3) r(1,3) by (simp add: handled_def SetState_def insert_absorb)
      ultimately show ?thesis
        using last [of "set_status (lost_status F) c2" "put_sys s ?st" "Some ?h" res] wf by (fastforce simp: SetState_def)
    next
      case True
      let ?st1 = "put_sys s ?st"
      obtain c3 res' st' where u: "UnaryInvoke F api H run (Some r) c2 res ?st1 = Inr (c3, res', st')" "settled H U ?st1 st' res'"
        using own_call_settles [OF s(2) r(3) _ res(1) _ tasks, of api c2] s(6) True wf by auto
      have "Query_tx F api H run ctx (Some h) res st =
          (let (ctx, st) = RunFilters F CLIENT_POST_RPC_INVOKE c3 st' in Inr (ctx, Some h, res', st))"
        using 1 2 go r(1) s(1) True u(1) by (simp add: Query_tx_def deref_handle_def deref_def GetExecutor_of_def)
      moreover have "handled H U h h st st'"
      proof -
        have "settled H U st st' res'" using u(2) s(5) [OF True] s(4) by (simp add: settled_def same_on_def keeps_blocks_def)
        then show ?thesis using h by (rule handled_settled)
      qed
      ultimately show ?thesis using last [of c3 st' "Some h" res'] u(2) by (fastforce simp: settled_def)
    qed
  qed
qed

end

text \<open>\<^verbatim>\<open>Commit\<close> and \<^verbatim>\<open>Rollback\<close> of any handle: they return.\<close>

lemma EndTransaction_handled:
  assumes H: "hashmap_laws H" and ok: "proxy_ok H U st" and h: "set_option (tx_executor h) \<subseteq> U"
  shows "\<exists>h' st'. EndTransaction api H rollback (Some h) st = Inr (True, Some h', st') \<and> handled H U h h' st st' \<and>
    tx_state h' \<noteq> kStarted \<and> keeps_blocks (psys st) (psys st')"
proof (cases "tx_executor h")
  case None
  let ?h = "SetState (if rollback then kRollBacked else kCommitted) h"
  have "EndTransaction api H rollback (Some h) st = Inr (True, Some ?h, st)"
    using None by (simp add: EndTransaction_def deref_handle_def GetExecutor_of_def SetState_def)
  moreover have "handled H U h ?h st st" using None ok by (simp add: handled_def SetState_def same_on_def)
  ultimately show ?thesis by (auto simp: SetState_def)
next
  case (Some r)
  then have r: "r \<in> U" using h by simp
  obtain e where e: "execs (psys st) r = Some e" by (rule proxy_ok_executor [OF ok r])
  have g: "GetExecutor_of h = Some r" using Some by (simp add: GetExecutor_of_def)
  obtain x m where en: "EndTransaction api H rollback (Some h) st =
      Inr (True, Some (TransferExecutor x (SetState (if rollback then kRollBacked else kCommitted) h)), st\<lparr>mgr := m\<rparr>)"
    "same_on (U - {r}) (psys st) (msys m)" "keeps_blocks (psys st) (msys m)"
    "x = None \<Longrightarrow> proxy_ok H (U - {r}) (st\<lparr>mgr := m\<rparr>) \<and> pooled_for (node_of e) r m"
    "x \<noteq> None \<Longrightarrow> x = Some r \<and> proxy_ok H U (st\<lparr>mgr := m\<rparr>) \<and> \<not> connected (msys m) r"
    by (rule EndTransaction_returns [OF H ok g r e, of api rollback]) blast
  let ?h = "TransferExecutor x (SetState (if rollback then kRollBacked else kCommitted) h)"
  have h': "tx_executor ?h = x" "tx_state ?h = (if rollback then kRollBacked else kCommitted)"
    by (simp_all add: TransferExecutor_def SetState_def)
  have "handled H U h ?h st (st\<lparr>mgr := m\<rparr>)"
    using en(2,4,5) Some r h' by (cases x) (simp_all add: handled_def insert_absorb)
  with en(1,3) h' show ?thesis by (intro exI [of _ ?h] exI [of _ "st\<lparr>mgr := m\<rparr>"]) simp
qed

lemma handled_after:
  assumes 1: "handled H U h h1 st st1" "tx_executor h1 = tx_executor h" and h: "set_option (tx_executor h) \<subseteq> U"
    and 2: "handled H U h1 h2 st1 st2"
  shows "handled H U h h2 st st2"
  using assms by (auto simp: handled_def same_on_def)

lemma handled_results:
  assumes "handled H U h h' st st1" and "proxy_ok H (U - set_option (tx_executor h) \<union> set_option (tx_executor h')) st2"
    and "execs (psys st2) = execs (psys st1)"
  shows "handled H U h h' st st2"
  using assms by (auto simp: handled_def same_on_def connected_def)

lemma finish_returns:
  assumes H: "hashmap_laws H" and ok: "proxy_ok H U st" and h: "handle_ok U h st" and tasks: "takes_tasks F"
  shows "\<exists>ctx' h' st'. finish_transaction F api H sql_str rollback ctx (Some h) st = Inr (ctx', Some h', st') \<and>
    handled H U h h' st st'"
proof -
  let ?res = "MysqlResults_new OnlyExec :: exec_results"
  have r: "serves api []" "results_wf (psys st) ?res" by (simp_all add: serves_def results_wf_def MysqlResults_new_def)
  obtain c1 h1 res1 st1 where q: "Query_tx F api H (run_exec api sql_str []) ctx (Some h) ?res st = Inr (c1, Some h1, res1, st1)"
    "handled H U h h1 st st1" "tx_executor h1 = tx_executor h" "results_wf (psys st1) res1"
    using exec_call.Query_tx_returns [OF ok h r tasks, where query = sql_str and ctx = ctx] by blast
  have sub: "set_option (tx_executor h) \<subseteq> U" using h by (simp add: handle_ok_def)
  then have U: "U - set_option (tx_executor h) \<union> set_option (tx_executor h1) = U" using q(3) by auto
  have ok1: "proxy_ok H U st1" using q(2) U by (simp add: handled_def)
  obtain c2 h2 st2 where e: "(if \<not> OK res1
      then Inr (set_status ((unknown_error F)\<lparr>status_msg := snd (results_error res1)\<rparr>) c1, Some h1, st1)
      else bindE (EndTransaction api H rollback (Some h1) st1) (\<lambda>(_, hdl, st). Inr (c1, hdl, st))) = Inr (c2, Some h2, st2)"
    "handled H U h h2 st st2" "results_wf (psys st2) res1"
  proof (cases "OK res1")
    case False
    then show thesis using q(2,4) that by simp
  next
    case True
    obtain h2 st2 where "EndTransaction api H rollback (Some h1) st1 = Inr (True, Some h2, st2)" "handled H U h1 h2 st1 st2"
      "keeps_blocks (psys st1) (psys st2)"
      using EndTransaction_handled [OF H ok1, of h1 api rollback] q(3) sub by auto
    moreover from this(3) have "results_wf (psys st2) res1" using keeps_results [of "psys st1" "psys st2" res1] q(4) by blast
    ultimately show thesis using that [of c1 h2 st2] True handled_after [OF q(2,3) sub] by simp
  qed
  let ?V = "U - set_option (tx_executor h) \<union> set_option (tx_executor h2)"
  have ok2: "proxy_ok H ?V st2" using e(2) by (simp add: handled_def)
  obtain st3 where d: "drop_results api res1 st2 = Inr st3" "proxy_ok H ?V st3" "execs (psys st3) = execs (psys st2)"
    by (rule drop_results_returns [OF ok2 e(3)])
  have "finish_transaction F api H sql_str rollback ctx (Some h) st = Inr (c2, Some h2, st3)"
    using q(1) e(1) d(1) by (simp add: finish_transaction_def proxy_Execute_tx_def del: not_None_eq)
  with handled_results [OF e(2) d(2,3)] show ?thesis by blast
qed

text \<open>Destroying a handle closes the connection it still owns.\<close>

lemma TransactionHandle_destroy_returns:
  assumes ok: "proxy_ok H U st" and h: "set_option (tx_executor h) \<subseteq> U"
  shows "\<exists>s. TransactionHandle_destroy api h (psys st) = Inr s \<and> proxy_ok H (U - set_option (tx_executor h)) (put_sys s st) \<and>
    same_on (U - set_option (tx_executor h)) (psys st) s"
proof (cases "tx_executor h")
  case None
  have "put_sys (psys st) st = st" by (simp add: put_sys_def psys_def)
  with None ok show ?thesis by (simp add: TransactionHandle_destroy_def ref_drop_def same_on_def)
next
  case (Some r)
  then have r: "r \<in> U" using h by simp
  obtain s where s: "Close api r (psys st) = Inr s" "proxy_ok H U (put_sys s st)" "same_on (U - {r}) (psys st) s" "\<not> connected s r"
    by (rule Close_proxy [OF ok r])
  have m: "manager_ok H U ((mgr st)\<lparr>msys := s\<rparr>)" using s(2) by (simp add: proxy_ok_def)
  obtain t where t: "ref_drop api (Some r) s = Inr t" "manager_ok H (U - {r}) ((mgr st)\<lparr>msys := t\<rparr>)" "same_on (U - {r}) s t"
    by (rule drop_manager [OF m r, of api]) (use s(4) in simp_all)
  have "proxy_ok H (U - {r}) (put_sys t st)" using proxy_ok_put [OF ok t(2)] .
  with Some s(1,3) t(1,3) same_on_trans show ?thesis by (fastforce simp: TransactionHandle_destroy_def)
qed

text \<open>\<^verbatim>\<open>Begin\<close> with an empty handle, when it returns: there is no handle, or a started one on a
  connection nobody else uses.\<close>

lemma begin_address_eq: obtains a w where "begin_address F ctx st = (a, st\<lparr>fw := w\<rparr>)"
proof (cases "na_ip (ctx_addr ctx) = []")
  case False
  then show thesis using that [of "Inr (ctx_addr ctx)" "fw st"] by (simp add: begin_address_def)
next
  case True
  obtain t w where 1: "new_context F (fw st) = (t, w)" by fastforce
  obtain t1 w1 where 2: "fw_do (fill_context F) t (st\<lparr>fw := w\<rparr>) = (t1, st\<lparr>fw := w1\<rparr>)"
    by (rule fw_do_eq [of "fill_context F" t "st\<lparr>fw := w\<rparr>"]) simp
  obtain b t2 w2 where "fw_call (select_target F) t1 (st\<lparr>fw := w1\<rparr>) = (b, t2, st\<lparr>fw := w2\<rparr>)"
    by (rule fw_call_eq [of "select_target F" t1 "st\<lparr>fw := w1\<rparr>"]) simp
  with True 1 2 that show thesis by (simp add: begin_address_def)
qed

definition begun :: "'m hashmap_api \<Rightarrow> nat set \<Rightarrow> tx option \<Rightarrow> ('m, 'w, 'f) proxy \<Rightarrow> ('m, 'w, 'f) proxy \<Rightarrow> bool" where
  "begun H U hdl st st' \<longleftrightarrow> same_on U (psys st) (psys st') \<and>
     (case hdl of
        None \<Rightarrow> proxy_ok H U st'
      | Some h \<Rightarrow> \<exists>r. tx_executor h = Some r \<and> tx_state h = kStarted \<and> r \<notin> U \<and> connected (psys st') r \<and> proxy_ok H (insert r U) st')"

lemma begin_rest_begun:
  assumes ok: "proxy_ok H (insert r U) st" and r: "r \<notin> U" "connected (psys st) r" and tasks: "takes_tasks F"
    and B: "begin_rest F api H ctx None r st = Inr (ctx', hdl, st')"
  shows "begun H U hdl st st'"
proof -
  let ?res = "MysqlResults_new OnlyExec :: exec_results"
  have s: "serves api []" "results_wf (psys st) ?res" by (simp_all add: serves_def results_wf_def MysqlResults_new_def)
  obtain c res st1 where u: "UnaryInvoke F api H (run_exec api ''begin'' []) (Some r) ctx ?res st = Inr (c, res, st1)"
    "settled H (insert r U) st st1 res"
    using exec_call.own_call_settles [OF ok _ r(2) s tasks, where query = "''begin''" and ctx = ctx] by blast
  have ok1: "proxy_ok H (insert r U) st1" and same: "same_on (insert r U) (psys st) (psys st1)" and wf: "results_wf (psys st1) res"
    using u(2) by (simp_all add: settled_def)
  have con: "connected (psys st1) r" using same r(2) by (simp add: same_on_def connected_def)
  obtain c2 w where f: "RunFilters F CLIENT_POST_RPC_INVOKE c st1 = (c2, st1\<lparr>fw := w\<rparr>)" by (rule RunFilters_eq)
  show ?thesis
  proof (cases "status_OK (ctx_status c)")
    case False
    obtain e where e: "execs (psys st1) r = Some e" "refcount e = 1" by (rule proxy_ok_executor [OF ok1, of r]) auto
    moreover from e(1) con have "is_connected e" by (simp add: connected_def)
    ultimately have "ref_drop api (Some r) (psys st1) = Inl Assertion_failed" by (simp add: ref_drop_last_connected)
    with B u(1) f False show ?thesis by (simp add: begin_rest_def drop_ref_def)
  next
    case True
    obtain st2 where d: "drop_results api res (st1\<lparr>fw := w\<rparr>) = Inr st2" "proxy_ok H (insert r U) st2"
      "execs (psys st2) = execs (psys (st1\<lparr>fw := w\<rparr>))"
      by (rule drop_results_returns [of H "insert r U" "st1\<lparr>fw := w\<rparr>" res]) (use ok1 wf in simp_all)
    have n: "drop_ref api None (st1\<lparr>fw := w\<rparr>) = Inr (st1\<lparr>fw := w\<rparr>)"
      by (simp add: drop_ref_def ref_drop_def put_sys_def psys_def)
    have "hdl = Some (started r)" "st' = st2"
      using B u(1) f True n d(1) by (simp_all add: begin_rest_def drop_handle_def)
    with d(2,3) con same r(1) show ?thesis
      by (auto simp: begun_def started_def SetExecutor_def SetState_def TransactionHandle_new_def same_on_def connected_def)
  qed
qed

lemma Begin_begun:
  assumes H: "hashmap_laws H" and ok: "proxy_ok H U st" and oom: "no_oom api" and acc: "accepts api" and tasks: "takes_tasks F"
    and B: "Begin F api H ctx None st = Inr (ctx', hdl, st')"
  shows "begun H U hdl st st'"
proof -
  obtain c1 w1 where 1: "fw_do (fill_context F) ctx st = (c1, st\<lparr>fw := w1\<rparr>)" by (rule fw_do_eq)
  obtain reject c2 w2 where 2: "fw_call (message_filters F CLIENT_PRE_RPC_INVOKE) c1 (st\<lparr>fw := w1\<rparr>) = (reject, c2, st\<lparr>fw := w2\<rparr>)"
    by (rule fw_call_eq [of "message_filters F CLIENT_PRE_RPC_INVOKE" c1 "st\<lparr>fw := w1\<rparr>"]) simp
  obtain a w3 where 3: "begin_address F c2 (st\<lparr>fw := w2\<rparr>) = (a, st\<lparr>fw := w3\<rparr>)"
    by (rule begin_address_eq [of F c2 "st\<lparr>fw := w2\<rparr>"]) simp
  obtain c4 w4 where 4: "RunFilters F CLIENT_POST_RPC_INVOKE c2 (st\<lparr>fw := w2\<rparr>) = (c4, st\<lparr>fw := w4\<rparr>)"
    by (rule RunFilters_eq [of F CLIENT_POST_RPC_INVOKE c2 "st\<lparr>fw := w2\<rparr>"]) simp
  consider (stopped) w where "hdl = None" "st' = st\<lparr>fw := w\<rparr>" | (goes) addr where "\<not> reject" "a = Inr addr"
    using B 1 2 3 4 by (cases reject; cases a) (auto simp: Begin_def)
  then show ?thesis
  proof cases
    case stopped
    with ok show ?thesis by (simp add: begun_def same_on_def)
  next
    case goes
    let ?st = "st\<lparr>fw := w3\<rparr>"
    have okw: "proxy_ok H U ?st" using ok by simp
    obtain q r m where c: "task_connection api H addr None ?st = Inr ((Some q, r), ?st\<lparr>mgr := m\<rparr>)" "r \<notin> U"
      "same_on U (psys ?st) (msys m)" "proxy_ok H (insert r U) (?st\<lparr>mgr := m\<rparr>)" "connected (msys m) r"
      by (rule task_connection_pool [OF H okw oom, of addr]) (use acc in blast)
    obtain st1 where d: "Get_pool api H addr ?st = Inr (q, st1)" "on_pool q (GetExecutor api) st1 = Inr (r, ?st\<lparr>mgr := m\<rparr>)"
      by (rule Get_then_GetExecutor [OF c(1)])
    have con: "IsConnected r (msys m) = Inr True" using IsConnected_known [OF connected_exists [OF c(5)]] c(5) by simp
    have "begin_rest F api H c2 None r (?st\<lparr>mgr := m\<rparr>) = Inr (ctx', hdl, st')"
      using B 1 2 3 goes d con by (simp add: Begin_def begin_rest_def)
    from begin_rest_begun [OF c(4,2) _ tasks this] c(3,5) show ?thesis
      by (auto simp: begun_def same_on_def)
  qed
qed

end
