(* ===== verification/Results_Frame.thy ===== *)
theory Results_Frame
  imports Client_Calls
begin

text \<open>
  What a call does to the results of others: it frees no raw result but that of the results object
  it runs with, and a raw result it makes is new. So views into a result stay valid until its
  own object is used again.
\<close>

section \<open>Operations that free no result\<close>

definition grows :: "'w sys \<Rightarrow> 'w sys \<Rightarrow> bool" where
  "grows s t \<longleftrightarrow> ress s \<subseteq> ress t \<and> next_block s \<le> next_block t"

lemma grows_refl [simp]: "grows s s"
  by (simp add: grows_def)

lemma grows_trans [trans]: "grows s t \<Longrightarrow> grows t u \<Longrightarrow> grows s u"
  by (auto simp: grows_def)

lemma keeps_grows: "keeps_blocks s t \<Longrightarrow> grows s t"
  by (simp add: keeps_blocks_def grows_def)

named_theorems growing "operations free no result"

lemma call_grows [growing]:
  "mysql_call p f s = Inr (a, t) \<Longrightarrow> grows s t" "stmt_call p g s = Inr (b, t) \<Longrightarrow> grows s t"
  by (auto simp: mysql_call_def stmt_call_def on_block_Inr grows_def)

lemma CloseStatement_grows [growing]: "CloseStatement api st s = Inr (b, st', t) \<Longrightarrow> grows s t"
  by (auto simp: CloseStatement_def stmt_call_def on_block_Inr bindE_Inr_iff grows_def split: if_splits)

lemma end_stmt_grows [growing]: "end_stmt api st s = Inr t \<Longrightarrow> grows s t"
  by (auto simp: end_stmt_def bindE_Inr_iff dest: growing)

lemma mysql_stmt_init_grows [growing]: "mysql_stmt_init api p s = Inr (q, t) \<Longrightarrow> grows s t"
  by (auto simp: mysql_stmt_init_def bindE_Inr_iff grows_def Let_def case_prod_unfold split: if_splits)

lemma Init_grows [growing]: "Init api q st s = Inr (b, st', t) \<Longrightarrow> grows s t"
  by (auto simp: Init_def bindE_Inr_iff Let_def split: if_splits dest!: mysql_stmt_init_grows call_grows(2) intro: grows_trans)

lemma GetResultsMeta_grows [growing]: "GetResultsMeta api st s = Inr (p, t) \<Longrightarrow> grows s t"
  by (auto simp: GetResultsMeta_def bindE_Inr_iff grows_def Let_def case_prod_unfold split: if_splits)

lemma BindParam_grows [growing]: "BindParam api binds st s = Inr (b, t) \<Longrightarrow> grows s t"
  by (auto simp: BindParam_def bindE_Inr_iff split: if_splits dest: growing)

lemma BindOutputs_grows [growing]: "BindOutputs api Ts st h s = Inr (h', t) \<Longrightarrow> grows s t"
  by (auto simp: BindOutputs_def bindE_Inr_iff dest: growing)

lemma reconnect_loop_grows: "reconnect_loop api r n i s = Inr (b, t) \<Longrightarrow> grows s t"
proof (induction n arbitrary: i s)
  case 0
  then show ?case by simp
next
  case (Suc n)
  then obtain ok u where u: "Connect api r s = Inr (ok, u)" by (auto simp: Reconnect_def bindE_Inr_iff)
  have su: "grows s u" using Connect_keeps [OF u] by (rule keeps_grows)
  show ?case
  proof (cases ok)
    case True
    with Suc.prems u su show ?thesis by (simp add: Reconnect_def)
  next
    case False
    with Suc.prems u have "grows (u\<lparr>lib := sleep_ms api i (lib u)\<rparr>) t" by (intro Suc.IH) (simp add: Reconnect_def)
    then have "grows u t" by (simp add: grows_def)
    with su show ?thesis by (rule grows_trans)
  qed
qed

lemma ensure_alive_grows [growing]: "ensure_alive api r s = Inr (x, t) \<Longrightarrow> grows s t"
  by (auto simp: ensure_alive_def StartReconnect_def bindE_Inr_iff split: if_splits
      dest!: CheckAlive_keeps keeps_grows reconnect_loop_grows intro: grows_trans)

lemma ExecuteStatement_grows [growing]:
  "ExecuteStatement_binds api r binds st s = Inr (f, bs, t) \<Longrightarrow> grows s t"
  "ExecuteStatement api r st s = Inr (f, t) \<Longrightarrow> grows s t"
proof -
  show "grows s t" if "ExecuteStatement_binds api r binds st s = Inr (f, bs, t)"
    using that by (auto simp: ExecuteStatement_binds_def bindE_Inr_iff split: option.splits if_splits
        dest!: ensure_alive_grows call_grows(2) intro: grows_trans)
  show "grows s t" if "ExecuteStatement api r st s = Inr (f, t)"
    using that by (auto simp: ExecuteStatement_def bindE_Inr_iff split: option.splits if_splits
        dest!: ensure_alive_grows call_grows(2) intro: grows_trans)
qed

lemma fetch_truncated_grows: "fetch_truncated api st row is h s = Inr (b, h', t) \<Longrightarrow> grows s t"
proof (induction "is" arbitrary: h s)
  case Nil
  then show ?case by simp
next
  case (Cons i "is")
  show ?case
  proof (cases "\<exists>v n. nthE (output_buffer h) i = Inr v \<and> nthE (output_length h) i = Inr n \<and> n \<le> length (v_data v)")
    case True
    with Cons show ?thesis by (auto simp: bindE_Inr_iff Let_def)
  next
    case False
    from Cons.prems obtain bind n v where 1: "nthE (output_binds h) i = Inr bind" "nthE (output_length h) i = Inr n"
      "nthE (output_buffer h) i = Inr v" by (auto simp: bindE_Inr_iff)
    with False have n: "\<not> n \<le> length (v_data v)" by auto
    obtain v2 nb where 2: "vec_resize n (next_buf h) v = (v2, nb)" by fastforce
    from Cons.prems 1 n 2 obtain ret u
      where u: "stmt_call (mysql_stmt st) (\<lambda>b. s_fetch_column api b i (length (v_data v))) s = Inr (ret, u)"
      by (auto simp: bindE_Inr_iff Let_def)
    from Cons.prems 1 n 2 u obtain h2 where t: "t = u \<or> fetch_truncated api st row is h2 u = Inr (b, h', t)"
      by (cases "ret = 0") (auto simp: bindE_Inr_iff Let_def)
    from t have "grows u t" using Cons.IH by auto
    with call_grows(2) [OF u] show ?thesis by (rule grows_trans)
  qed
qed

lemma fetch_row_grows [growing]: "fetch_row api st Ts binds row h res s = Inr (h', res', t) \<Longrightarrow> grows s t"
  and fetch_row_raw: "fetch_row api st Ts binds row h res s = Inr (h', res', t) \<Longrightarrow> mysql_res res' = mysql_res res"
  by (auto simp: fetch_row_def FetchTruncatedResults_def bindE_Inr_iff split: if_splits dest: fetch_truncated_grows)

lemma fetch_loop_grows:
  "fetch_loop api st Ts binds h res s = Some out \<Longrightarrow>
    case out of Inl e \<Rightarrow> True | Inr (b, res', t) \<Rightarrow> grows s t \<and> mysql_res res' = mysql_res res"
proof (induction api st Ts binds h res s out rule: fetch_loop.raw_induct [rotated, consumes 1])
  case (1 loop api st Ts binds h res s out)
  show ?case
  proof (cases out)
    case (Inr r)
    then obtain b res' t where out: "out = Inr (b, res', t)" by (cases r) auto
    obtain f u where f: "stmt_call (mysql_stmt st) (s_fetch api) s = Inr (f, u)"
      using 1(2) out by (auto split: sum.splits)
    note su = call_grows(2) [OF f]
    show ?thesis
    proof (cases f)
      case (Row row)
      with 1(2) out f obtain h2 res2 u2 where row: "fetch_row api st Ts binds row h res u = Inr (h2, res2, u2)"
        and rest: "loop api st Ts binds h2 res2 u2 = Some out" by (auto split: sum.splits)
      have "grows u2 t \<and> mysql_res res' = mysql_res res2" using 1(1) [OF rest] out by simp
      with fetch_row_grows [OF row] fetch_row_raw [OF row] su out show ?thesis by (auto intro: grows_trans)
    qed (use 1(2) out f su in auto)
  qed simp
qed

lemma FetchResults_grows [growing]:
  "FetchResults api st Ts binds h res s = Inr (b, res', t) \<Longrightarrow> grows s t \<and> mysql_res res' = mysql_res res"
  by (auto simp: FetchResults_def bindE_Inr_iff split: if_splits option.splits
      dest!: call_grows(2) fetch_loop_grows intro: grows_trans)

section \<open>Runs on a connection\<close>

text \<open>\<open>frame p s q t\<close>: what was done with a results object that owned \<open>p\<close> and owns \<open>q\<close> now. Blocks the
  allocator gave out stay allocated, \<open>p\<close> apart; \<open>q\<close> is \<open>p\<close> or new.\<close>

definition frame :: "ptr \<Rightarrow> 'w sys \<Rightarrow> ptr \<Rightarrow> 'w sys \<Rightarrow> bool" where
  "frame p s q t \<longleftrightarrow>
     (\<forall>b \<in> ress s. b < next_block s \<longrightarrow> p \<noteq> Some b \<longrightarrow> b \<in> ress t) \<and> next_block s \<le> next_block t \<and>
     (\<forall>b. q = Some b \<longrightarrow> p = Some b \<or> next_block s \<le> b)"

lemma frame_grows: "frame p s q t \<Longrightarrow> grows t u \<Longrightarrow> frame p s q u"
  by (auto simp: frame_def grows_def)

lemma grows_frame: "grows s t \<Longrightarrow> frame p t q u \<Longrightarrow> frame p s q u"
  by (force simp: frame_def grows_def)

lemma frame_refl [simp]: "frame p s p s"
  by (simp add: frame_def)

lemma frame_of_grows: "grows s t \<Longrightarrow> frame p s p t"
  using grows_frame [of s t p p t] by simp

lemma frame_trans:
  assumes A: "frame p s q t" and B: "frame q t r u"
  shows "frame p s r u"
proof -
  have "b \<in> ress u" if b: "b \<in> ress s" "b < next_block s" "p \<noteq> Some b" for b
  proof -
    have "b \<in> ress t" "b < next_block t" "q \<noteq> Some b" using A b by (auto simp: frame_def)
    then show ?thesis using B by (simp add: frame_def)
  qed
  moreover have "p = Some b \<or> next_block s \<le> b" if "r = Some b" for b
    using A B that by (fastforce simp: frame_def)
  ultimately show ?thesis using A B by (simp add: frame_def)
qed

lemma Clear_frame:
  assumes "Clear api res s = Inr (res', t)"
  shows "frame (mysql_res res) s None t" and "mysql_res res' = None"
  using assms
  by (auto simp: Clear_def mysql_free_result_def bindE_Inr_iff use_block_Inr frame_def Let_def split: if_splits)

lemma stmt_fail_grows [growing]: "stmt_fail api x st res s = Inr (y, res', t) \<Longrightarrow> grows s t \<and> mysql_res res' = mysql_res res"
  by (auto simp: stmt_fail_def set_error_def SetErrorNumber_def SetErrorMessage_def bindE_Inr_iff dest: growing)

lemma conn_fail_same: "conn_fail api r x res s = Inr (y, res', t) \<Longrightarrow> t = s \<and> mysql_res res' = mysql_res res"
  by (auto simp: conn_fail_def set_error_def SetErrorNumber_def SetErrorMessage_def bindE_Inr_iff)

lemma set_error_raw [simp]: "mysql_res (set_error m n res) = mysql_res res"
  by (simp add: set_error_def SetErrorNumber_def SetErrorMessage_def)

lemma SetFieldsName_raw: "SetFieldsName api p res s = Inr res' \<Longrightarrow> mysql_res res' = mysql_res res"
  by (auto simp: SetFieldsName_def bindE_Inr_iff split: if_splits)

lemma typed_frame:
  assumes "QueryAllInternal_typed fmt api r Ts res query args s = Inr (b, res', t)"
  shows "frame (mysql_res res) s (mysql_res res') t \<and> mysql_res res' = None"
proof -
  obtain res1 s1 where c: "Clear api res s = Inr (res1, s1)" using assms by (auto simp: QueryAllInternal_typed_def bindE_Inr_iff)
  have "grows s1 t \<and> mysql_res res' = mysql_res res1"
    using assms c
    by (auto simp: QueryAllInternal_typed_def bindE_Inr_iff split: if_splits
        dest!: growing SetFieldsName_raw) (meson grows_trans)+
  with Clear_frame [OF c] show ?thesis using frame_grows by metis
qed

lemma mysql_store_result_grows [growing]:
  "mysql_store_result api p s = Inr (q, t) \<Longrightarrow> grows s t \<and> (\<forall>b. q = Some b \<longrightarrow> next_block s \<le> b)"
  by (auto simp: mysql_store_result_def bindE_Inr_iff grows_def Let_def case_prod_unfold split: if_splits)

lemma native_frame:
  assumes "QueryAllInternal_native fmt tfmt api r res query args s = Inr (b, res', t)"
  shows "frame (mysql_res res) s (mysql_res res') t"
proof -
  obtain res1 s1 where c: "Clear api res s = Inr (res1, s1)" using assms by (auto simp: QueryAllInternal_native_def bindE_Inr_iff)
  note c1 = Clear_frame [OF c]
  have "grows s1 t \<and> (mysql_res res' = mysql_res res1 \<or> (\<forall>b. mysql_res res' = Some b \<longrightarrow> next_block s1 \<le> b))"
    using assms c
    by (auto simp: QueryAllInternal_native_def SetRawMysqlRes_def bindE_Inr_iff split: if_splits option.splits
        dest!: growing conn_fail_same SetFieldsName_raw intro: grows_trans) (auto simp: grows_def)
  moreover have "frame None s1 (mysql_res res') t"
    using calculation c1(2) by (auto simp: frame_def grows_def)
  ultimately show ?thesis using frame_trans [OF c1(1)] by simp
qed

lemma args_frame:
  assumes "ExecuteInternal_args api r query res args s = Inr (n, res', t)"
  shows "frame (mysql_res res) s (mysql_res res') t \<and> mysql_res res' = None"
proof -
  obtain res1 s1 where c: "Clear api res s = Inr (res1, s1)" using assms by (auto simp: ExecuteInternal_args_def bindE_Inr_iff)
  have "grows s1 t \<and> mysql_res res' = mysql_res res1"
    using assms c
    by (auto simp: ExecuteInternal_args_def bindE_Inr_iff Let_def split: if_splits dest!: growing) (meson grows_trans)+
  with Clear_frame [OF c] show ?thesis using frame_grows by metis
qed

lemma noargs_frame:
  assumes "ExecuteInternal api r query res s = Inr (n, res', t)"
  shows "frame (mysql_res res) s (mysql_res res') t \<and> mysql_res res' = mysql_res res"
  using assms
  by (auto simp: ExecuteInternal_def bindE_Inr_iff split: if_splits dest!: growing conn_fail_same intro: frame_of_grows)

section \<open>Calls of the proxy\<close>

lemma psys_fw [simp]: "psys (st\<lparr>fw := w\<rparr>) = psys st"
  by (simp add: psys_def)

lemma mgr_Get_grows:
  assumes "mgr_Get api H a m = Inr (q, m')"
  shows "grows (msys m) (msys m')"
proof -
  obtain f m1 where 1: "Get_lookup H a m = Inr (f, m1)" using assms by (auto simp: mgr_Get_def bindE_Inr_iff)
  have g: "grows (msys m) (msys m1)"
    using 1 by (auto simp: Get_lookup_def CreateExecutorPool_def bindE_Inr_iff grows_def Let_def split: option.splits)
  show ?thesis
  proof (cases f)
    case (Inl x)
    with assms 1 g show ?thesis by (simp add: mgr_Get_def)
  next
    case (Inr n)
    then have "Get_insert api H a n m1 = Inr (q, m')" using assms 1 by (simp add: mgr_Get_def)
    then have "grows (msys m1) (msys m')"
      by (auto simp: Get_insert_def delete_pool_def get_pool_def bindE_Inr_iff Let_def split: prod.splits option.splits
          dest!: drop_all_keeps keeps_grows)
    with g show ?thesis by (rule grows_trans)
  qed
qed

lemma Get_pool_grows [growing]: "Get_pool api H a st = Inr (q, st') \<Longrightarrow> grows (psys st) (psys st')"
  by (auto simp: Get_pool_def get_mgr_def psys_def bindE_Inr_iff split: if_splits dest: mgr_Get_grows)

lemma GetExecutor_pool_grows [growing]: "on_pool q (GetExecutor api) st = Inr (r, st') \<Longrightarrow> grows (psys st) (psys st')"
  by (auto simp: on_pool_def psys_def bindE_Inr_iff dest!: GetExecutor_keeps keeps_grows)

lemma Reclaim_pool_grows [growing]: "on_pool q (Reclaim api n x) st = Inr (r, st') \<Longrightarrow> grows (psys st) (psys st')"
  by (auto simp: on_pool_def psys_def bindE_Inr_iff dest!: Reclaim_keeps keeps_grows)

lemma drop_ref_grows [growing]: "drop_ref api x st = Inr st' \<Longrightarrow> grows (psys st) (psys st')"
  by (auto simp: drop_ref_def bindE_Inr_iff dest!: ref_drop_keeps keeps_grows)

lemma task_connection_grows [growing]: "task_connection api H a x st = Inr (y, st') \<Longrightarrow> grows (psys st) (psys st')"
  by (auto simp: task_connection_def bindE_Inr_iff split: option.splits
      dest!: Get_pool_grows GetExecutor_pool_grows intro: grows_trans)

lemma return_connection_grows [growing]: "return_connection api q r st = Inr st' \<Longrightarrow> grows (psys st) (psys st')"
  by (auto simp: return_connection_def bindE_Inr_iff split: option.splits
      dest!: Reclaim_pool_grows drop_ref_grows intro: grows_trans)

lemma EndTransaction_grows [growing]: "EndTransaction api H rb hdl st = Inr (b, hdl', st') \<Longrightarrow> grows (psys st) (psys st')"
  by (auto simp: EndTransaction_def Let_def bindE_Inr_iff split: option.splits
      dest!: Reclaim_pool_grows Get_pool_grows intro: grows_trans)

lemma drop_results_frame:
  "drop_results api res st = Inr st' \<Longrightarrow> frame (mysql_res res) (psys st) None (psys st')"
  by (auto simp: drop_results_def MysqlResults_destroy_def mysql_free_result_def bindE_Inr_iff use_block_Inr frame_def
      split: if_splits)

text \<open>The contract, and what follows for the calls: the statement is the same for all of them.\<close>

locale result_keeper =
  fixes run :: "nat \<Rightarrow> 'r results \<Rightarrow> 'w sys \<Rightarrow> (bool \<times> 'r results \<times> 'w sys) result"
  assumes run_frame: "run r res s = Inr (b, res', t) \<Longrightarrow> frame (mysql_res res) s (mysql_res res') t"
begin

lemma invoke_task_frame:
  assumes "invoke_task F api H run x ctx res st = Inr (ctx', res', st')"
  shows "frame (mysql_res res) (psys st) (mysql_res res') (psys st')"
proof -
  obtain pool conn st1 b where 1: "task_connection api H (ctx_addr ctx) x st = Inr ((pool, conn), st1)"
    "IsConnected conn (psys st1) = Inr b" using assms by (auto simp: invoke_task_def bindE_Inr_iff)
  note g = task_connection_grows [OF 1(1)]
  show ?thesis
  proof (cases b)
    case False
    with assms 1 have "res' = res" "grows (psys st1) (psys st')"
      by (auto simp: invoke_task_def bindE_Inr_iff split: if_splits dest: growing)
    with g show ?thesis using frame_of_grows grows_trans by blast
  next
    case True
    with assms 1 obtain c t where 2: "run conn res (psys st1) = Inr (c, res', t)"
      "return_connection api pool conn (put_sys t st1) = Inr st'" by (auto simp: invoke_task_def bindE_Inr_iff)
    have "grows t (psys st')" using return_connection_grows [OF 2(2)] by simp
    then show ?thesis using grows_frame [OF g frame_grows [OF run_frame [OF 2(1)]]] by blast
  qed
qed

lemma UnaryInvoke_frame:
  assumes "UnaryInvoke F api H run x ctx res st = Inr (ctx', res', st')"
  shows "frame (mysql_res res) (psys st) (mysql_res res') (psys st')"
  using assms
  by (auto simp: UnaryInvoke_def fw_call_def fw_do_def RunFilters_def bindE_Inr_iff Let_def case_prod_unfold split: if_splits
      dest!: invoke_task_frame)

lemma Query_frame:
  assumes "Query F api H run ctx res st = Inr (ctx', res', st')"
  shows "frame (mysql_res res) (psys st) (mysql_res res') (psys st')"
  using assms
  by (auto simp: Query_def fw_call_def fw_do_def RunFilters_def bindE_Inr_iff Let_def case_prod_unfold split: if_splits
      dest!: UnaryInvoke_frame)

lemma Query_tx_frame:
  assumes "Query_tx F api H run ctx hdl res st = Inr (ctx', hdl', res', st')"
  shows "frame (mysql_res res) (psys st) (mysql_res res') (psys st')"
  using assms
  by (auto simp: Query_tx_def fw_call_def fw_do_def RunFilters_def bindE_Inr_iff Let_def case_prod_unfold split: if_splits
      dest!: UnaryInvoke_frame CheckAlive_keeps keeps_grows intro: grows_frame frame_of_grows)

text \<open>The raw result a future holds.\<close>

lemma async_task_frame:
  assumes t: "async_task F api H run m x ctx st = Inr (fut, ctx', st')"
  shows "frame None (psys st) (case fut of Ready res \<Rightarrow> mysql_res res | _ \<Rightarrow> None) (psys st')"
proof -
  obtain pool conn st1 b where 1: "task_connection api H (ctx_addr ctx) x st = Inr ((pool, conn), st1)"
    "IsConnected conn (psys st1) = Inr b" using t by (auto simp: async_task_def bindE_Inr_iff)
  note g = task_connection_grows [OF 1(1)]
  show ?thesis
  proof (cases b)
    case False
    with t 1 have "grows (psys st1) (psys st')" "\<exists>m. fut = Failed m"
      by (auto simp: async_task_def bindE_Inr_iff split: if_splits dest: growing)
    with g show ?thesis using frame_of_grows grows_trans by fastforce
  next
    case True
    with t 1 obtain c res s st2 where 2: "run conn (MysqlResults_new m) (psys st1) = Inr (c, res, s)"
      "return_connection api pool conn (put_sys s st1) = Inr st2" by (auto simp: async_task_def bindE_Inr_iff)
    have "grows s (psys st2)" using return_connection_grows [OF 2(2)] by simp
    then have f: "frame None (psys st) (mysql_res res) (psys st2)"
      using grows_frame [OF g frame_grows [OF run_frame [OF 2(1)]]] by (simp add: MysqlResults_new_def)
    show ?thesis
    proof (cases "OK res")
      case ok: True
      with t 1 2 True f show ?thesis
        by (auto simp: async_task_def fw_do_def case_prod_unfold Let_def MysqlResults_move_def)
    next
      case bad: False
      with t 1 2 True obtain w where d: "drop_results api res (st2\<lparr>fw := w\<rparr>) = Inr st'" and fut: "\<exists>m. fut = Failed m"
        by (auto simp: async_task_def fw_do_def case_prod_unfold Let_def bindE_Inr_iff)
      have "frame (mysql_res res) (psys st2) None (psys st')" using drop_results_frame [OF d] by simp
      with f fut show ?thesis using frame_trans by fastforce
    qed
  qed
qed

end

interpretation exec_keeper: result_keeper "run_exec api query args" for api :: "'w mysql_api" and query args
  by unfold_locales
    (auto simp: run_exec_def Execute_def SetAffectedRows_def bindE_Inr_iff split: if_splits dest: args_frame noargs_frame)

interpretation typed_keeper: result_keeper "run_typed fmt api Ts query args" for fmt and api :: "'w mysql_api" and Ts query args
  by unfold_locales
    (auto simp: run_typed_def QueryAll_typed_def QueryAll_def bindE_Inr_iff split: if_splits dest: typed_frame)

interpretation native_keeper: result_keeper "run_native fmt tfmt api query args"
  for fmt tfmt and api :: "'w mysql_api" and query args
  by unfold_locales
    (auto simp: run_native_def QueryAll_native_def QueryAll_def bindE_Inr_iff split: if_splits dest: native_frame)

text \<open>Objects that never own a raw result.\<close>

lemma run_exec_owns_none:
  "run_exec api query args r res s = Inr (b, res', t) \<Longrightarrow> mysql_res res = None \<Longrightarrow> mysql_res res' = None"
  by (auto simp: run_exec_def Execute_def SetAffectedRows_def bindE_Inr_iff split: if_splits dest: args_frame noargs_frame)

lemma run_typed_owns_none:
  "run_typed fmt api Ts query args r res s = Inr (b, res', t) \<Longrightarrow> mysql_res res = None \<Longrightarrow> mysql_res res' = None"
  by (auto simp: run_typed_def QueryAll_typed_def QueryAll_def bindE_Inr_iff split: if_splits dest: typed_frame)

text \<open>The other operations. \<open>frame None s None t\<close>: nothing that was allocated is freed.\<close>

lemma TransactionHandle_destroy_grows [growing]: "TransactionHandle_destroy api h s = Inr t \<Longrightarrow> grows s t"
  by (auto simp: TransactionHandle_destroy_def bindE_Inr_iff split: option.splits
      dest!: Close_keeps ref_drop_keeps keeps_grows intro: grows_trans)

lemma drop_handle_grows [growing]: "drop_handle api hdl st = Inr st' \<Longrightarrow> grows (psys st) (psys st')"
  by (auto simp: drop_handle_def bindE_Inr_iff split: option.splits dest: growing)

lemma begin_tail_frame:
  assumes f: "frame p s (mysql_res res) (psys st)"
    and b: "bindE (if status_OK (ctx_status ctx) then bindE (drop_handle api hdl st) (\<lambda>st. Inr (Some (started r), None, st))
        else Inr (hdl, Some r, st)) (\<lambda>(hdl, executor, st).
      let (ctx, st) = RunFilters F CLIENT_POST_RPC_INVOKE ctx st
      in bindE (drop_ref api executor st) (\<lambda>st. bindE (drop_results api res st) (\<lambda>st. Inr (ctx, hdl, st)))) = Inr (ctx', hdl', st')"
  shows "frame p s None (psys st')"
proof -
  have "\<exists>x st2 w st3. grows (psys st) (psys st2) \<and> drop_ref api x (st2\<lparr>fw := w\<rparr>) = Inr st3 \<and> drop_results api res st3 = Inr st'"
    using b by (auto simp: RunFilters_def fw_call_def bindE_Inr_iff case_prod_unfold Let_def split: if_splits)
      (use drop_handle_grows grows_refl in blast)+
  then obtain x st2 w st3 where 2: "grows (psys st) (psys st2)" "drop_ref api x (st2\<lparr>fw := w\<rparr>) = Inr st3"
    "drop_results api res st3 = Inr st'" by blast
  have "grows (psys st) (psys st3)" using 2(1) drop_ref_grows [OF 2(2)] by (auto intro: grows_trans)
  then show ?thesis using frame_trans [OF frame_grows [OF f] drop_results_frame [OF 2(3)]] by blast
qed

lemma Begin_frame:
  assumes B: "Begin F api H ctx hdl st = Inr (ctx', hdl', st')"
  shows "frame None (psys st) None (psys st')"
proof -
  obtain c1 w1 where 1: "fw_do (fill_context F) ctx st = (c1, st\<lparr>fw := w1\<rparr>)" by (rule fw_do_eq)
  obtain reject c2 w2 where 2: "fw_call (message_filters F CLIENT_PRE_RPC_INVOKE) c1 (st\<lparr>fw := w1\<rparr>) = (reject, c2, st\<lparr>fw := w2\<rparr>)"
    by (rule fw_call_eq [of "message_filters F CLIENT_PRE_RPC_INVOKE" c1 "st\<lparr>fw := w1\<rparr>"]) simp
  obtain a w3 where 3: "begin_address F c2 (st\<lparr>fw := w2\<rparr>) = (a, st\<lparr>fw := w3\<rparr>)"
    by (rule begin_address_eq [of F c2 "st\<lparr>fw := w2\<rparr>"]) simp
  obtain c4 w4 where 4: "RunFilters F CLIENT_POST_RPC_INVOKE c2 (st\<lparr>fw := w2\<rparr>) = (c4, st\<lparr>fw := w4\<rparr>)"
    by (rule RunFilters_eq [of F CLIENT_POST_RPC_INVOKE c2 "st\<lparr>fw := w2\<rparr>"]) simp
  consider (stopped) "psys st' = psys st" | (goes) addr where "\<not> reject" "a = Inr addr"
    using B 1 2 3 4 by (cases reject; cases a) (auto simp: Begin_def)
  then show ?thesis
  proof cases
    case (goes addr)
    let ?res = "MysqlResults_new OnlyExec :: exec_results"
    obtain pool st1 r st2 b where 5: "Get_pool api H addr (st\<lparr>fw := w3\<rparr>) = Inr (pool, st1)"
      "on_pool pool (GetExecutor api) st1 = Inr (r, st2)" "IsConnected r (psys st2) = Inr b"
      using B 1 2 3 goes by (auto simp: Begin_def bindE_Inr_iff Let_def)
    have g: "grows (psys st) (psys st2)"
      using Get_pool_grows [OF 5(1)] GetExecutor_pool_grows [OF 5(2)] by (auto intro: grows_trans)
    obtain c res st3 where call: "(if \<not> b then bindE (connection_error F api r st2) (\<lambda>status. Inr (set_status status c2, ?res, st2))
        else UnaryInvoke F api H (run_exec api ''begin'' []) (Some r) c2 ?res st2) = Inr (c, res, st3)"
      using B 1 2 3 goes 5 by (auto simp: Begin_def bindE_Inr_iff Let_def)
    have new: "mysql_res ?res = None" by (simp add: MysqlResults_new_def)
    have "frame None (psys st2) (mysql_res res) (psys st3)"
      using call new by (auto simp: bindE_Inr_iff split: if_splits dest: exec_keeper.UnaryInvoke_frame)
    then show ?thesis
      using B 1 2 3 goes 5 call by (intro begin_tail_frame [OF grows_frame [OF g]]) (auto simp: Begin_def Let_def)
  qed simp
qed

lemma finish_frame:
  assumes f: "finish_transaction F api H q rb ctx hdl st = Inr (ctx', hdl', st')"
  shows "frame None (psys st) None (psys st')"
proof -
  obtain c h res st1 where 1: "Query_tx F api H (run_exec api q []) ctx hdl (MysqlResults_new OnlyExec :: exec_results) st =
      Inr (c, h, res, st1)" using f by (auto simp: finish_transaction_def proxy_Execute_tx_def bindE_Inr_iff)
  have 2: "frame None (psys st) (mysql_res res) (psys st1)"
    using exec_keeper.Query_tx_frame [OF 1] by (simp add: MysqlResults_new_def)
  have "\<exists>st2. grows (psys st1) (psys st2) \<and> drop_results api res st2 = Inr st'"
    using f 1 by (auto simp: finish_transaction_def proxy_Execute_tx_def bindE_Inr_iff split: if_splits)
      (use EndTransaction_grows grows_refl in blast)+
  then obtain st2 where 3: "grows (psys st1) (psys st2)" "drop_results api res st2 = Inr st'" by blast
  show ?thesis using frame_trans [OF frame_grows [OF 2 3(1)] drop_results_frame [OF 3(2)]] .
qed

lemma SetMysqlConfig_grows: "SetMysqlConfig F api H conf st = Inr st' \<Longrightarrow> grows (psys st) (psys st')"
  by (auto simp: SetMysqlConfig_def get_mgr_def psys_def InitManager_def InitThreadPool_def Let_def bindE_Inr_iff
      split: if_splits dest!: mgr_Stop_keeps mgr_Destroy_keeps keeps_grows intro: grows_trans)

section \<open>Views\<close>

text \<open>The results a call returns are those it was given, or what its run made of them.\<close>

lemma invoke_task_results:
  "invoke_task F api H run x ctx res st = Inr (ctx', res', st') \<Longrightarrow> res' = res \<or> (\<exists>r s b t. run r res s = Inr (b, res', t))"
  by (auto simp: invoke_task_def bindE_Inr_iff split: if_splits)

lemma UnaryInvoke_results:
  "UnaryInvoke F api H run x ctx res st = Inr (ctx', res', st') \<Longrightarrow> res' = res \<or> (\<exists>r s b t. run r res s = Inr (b, res', t))"
  by (auto simp: UnaryInvoke_def Let_def bindE_Inr_iff case_prod_unfold split: if_splits dest: invoke_task_results)

lemma Query_results:
  "Query F api H run ctx res st = Inr (ctx', res', st') \<Longrightarrow> res' = res \<or> (\<exists>r s b t. run r res s = Inr (b, res', t))"
  by (auto simp: Query_def Let_def bindE_Inr_iff case_prod_unfold split: if_splits dest: UnaryInvoke_results)

lemma Query_tx_results:
  "Query_tx F api H run ctx hdl res st = Inr (ctx', hdl', res', st') \<Longrightarrow> res' = res \<or> (\<exists>r s b t. run r res s = Inr (b, res', t))"
  by (auto simp: Query_tx_def Let_def bindE_Inr_iff case_prod_unfold split: if_splits dest: UnaryInvoke_results)

text \<open>Reading the characters of a view needs the memory it points into.\<close>

definition read_view :: "nat set \<Rightarrow> view \<Rightarrow> string result" where
  "read_view live v =
     (case view_of v of None \<Rightarrow> Inr (view_text v)
      | Some b \<Rightarrow> bindE (use_block live (Some b)) (\<lambda>_. Inr (view_text v)))"

text \<open>The views of a native result point into the raw result of their own object, and it has one name, one
  view and one null flag per cell.\<close>

definition table_ok :: "view list results \<Rightarrow> bool" where
  "table_ok res \<longleftrightarrow>
     (\<forall>row \<in> set (result_set res). length row = length (fields_name res) \<and>
        (\<forall>v \<in> set row. \<forall>b. view_of v = Some b \<longrightarrow> mysql_res res = Some b)) \<and>
     length (null_flags res) = length (result_set res) \<and> (\<forall>flags \<in> set (null_flags res). length flags = length (fields_name res))"

lemma run_native_table:
  assumes cells: "one_cell_per_field api" and r: "run_native fmt tfmt api query args conn res s = Inr (ok, res', t)"
  shows "table_ok res'"
proof -
  obtain res1 s1 where c: "Clear api res s = Inr (res1, s1)"
    using r by (auto simp: run_native_def QueryAll_native_def QueryAll_def QueryAllInternal_native_def bindE_Inr_iff)
  have empty: "result_set res1 = []" "null_flags res1 = []" "fields_name res1 = []"
    using c by (auto simp: Clear_def Let_def bindE_Inr_iff split: if_splits)
  obtain ok2 res2 where q: "QueryAllInternal_native fmt tfmt api conn res query args s = Inr (ok2, res2, t)"
    "result_set res' = result_set res2" "mysql_res res' = mysql_res res2" "fields_name res' = fields_name res2"
    "null_flags res' = null_flags res2"
    using r by (auto simp: run_native_def QueryAll_native_def QueryAll_def bindE_Inr_iff split: if_splits)
  consider "result_set res2 = []" "null_flags res2 = []"
    | b w res3 where "foldE (store_native_row b (length (c_fetch_fields api b w))) (c_rows api b w) res1 = Inr res3"
      "result_set res2 = result_set res3" "null_flags res2 = null_flags res3" "mysql_res res2 = Some b"
      "fields_name res2 = fields_name res3 @ map field_name (c_fetch_fields api b w)"
    using q(1) c empty
    by (auto simp: QueryAllInternal_native_def conn_fail_def set_error_def SetErrorNumber_def SetErrorMessage_def
        SetRawMysqlRes_def SetFieldsName_def bindE_Inr_iff use_block_Inr split: if_splits option.splits)
  then show ?thesis
  proof cases
    case 1
    then show ?thesis using q(2-5) by (simp add: table_ok_def)
  next
    case 2
    have "\<forall>row \<in> set (c_rows api b w). length row = length (c_fetch_fields api b w)"
      using cells by (simp add: one_cell_per_field_def)
    then show ?thesis using 2 q(2-5) empty store_native_rows [of "c_rows api b w" _ b res1]
      by (auto simp: table_ok_def native_view_def split: option.splits)
  qed
qed

lemma table_ok_new [simp]: "table_ok (MysqlResults_with m opt)"
  by (simp add: table_ok_def MysqlResults_with_def MysqlResults_new_def)

lemma table_ok_move:
  assumes "table_ok res"
  shows "table_ok (fst (MysqlResults_move res)) \<and> table_ok (snd (MysqlResults_move res))"
    and "table_ok (fst (MysqlResults_move_assign this res)) \<and> table_ok (snd (MysqlResults_move_assign this res))"
  using assms by (simp_all add: table_ok_def MysqlResults_move_def MysqlResults_move_assign_def moved_from_def)

lemma views_readable:
  assumes "table_ok res" and "results_wf s res" and "row \<in> set (ResultSet res)" and "v \<in> set row"
  shows "read_view (ress s) v = Inr (view_text v)"
  using assms by (auto simp: table_ok_def results_wf_def read_view_def use_block_def ResultSet_def split: option.splits)

end
