(* ===== verification/Example_Table.thy ===== *)
theory Example_Table
  imports Results_Frame
begin

text \<open>
  \<^verbatim>\<open>PrintResultTable\<close> and \<^verbatim>\<open>PrintResult\<close> of the example clients (\<^verbatim>\<open>examples/mysql/client\<close>): a result set
  written to \<^verbatim>\<open>std::cout\<close> as a table. The stream's formatting state (width, fill, adjustment) is part of
  the model, as it survives from one operation to the next.
\<close>

section \<open>Output streams\<close>

record ostream =
  os_text :: string
  os_width :: nat
  os_fill :: char
  os_left :: bool

definition new_line :: char where
  "new_line = char_of (10 :: nat)"

text \<open>\<^verbatim>\<open>std::setw\<close> takes an \<^verbatim>\<open>int\<close>; a negative width does not pad.\<close>

definition setw :: "nat \<Rightarrow> ostream \<Rightarrow> ostream" where
  "setw n os = os\<lparr>os_width := nat (sint (of_nat n :: 32 word))\<rparr>"

definition setfill :: "char \<Rightarrow> ostream \<Rightarrow> ostream" where
  "setfill c os = os\<lparr>os_fill := c\<rparr>"

definition std_left :: "ostream \<Rightarrow> ostream" where
  "std_left os = os\<lparr>os_left := True\<rparr>"

text \<open>A formatted output: padded to the width, which is then 0 again. \<^verbatim>\<open>std::endl\<close> is not formatted.\<close>

definition put_text :: "string \<Rightarrow> ostream \<Rightarrow> ostream" where
  "put_text s os =
     (let fill = replicate (os_width os - length s) (os_fill os)
      in os\<lparr>os_text := os_text os @ (if os_left os then s @ fill else fill @ s), os_width := 0\<rparr>)"

definition endl :: "ostream \<Rightarrow> ostream" where
  "endl os = os\<lparr>os_text := os_text os @ [new_line]\<rparr>"

text \<open>An \<^verbatim>\<open>int\<close> in decimal.\<close>

definition int_text :: "u32 \<Rightarrow> string" where
  "int_text v = fmt_int False 0 (sint v)"

section \<open>A table\<close>

definition widen_cell :: "nat \<times> view \<Rightarrow> nat list \<Rightarrow> nat list result" where
  "widen_cell = (\<lambda>(i, field) column_widths.
     bindE (nthE column_widths i) (\<lambda>n. Inr (column_widths[i := max n (length (view_text field))])))"

definition widen_row :: "string list \<Rightarrow> view list \<Rightarrow> bool \<times> nat list \<Rightarrow> (bool \<times> nat list) result" where
  "widen_row names row = (\<lambda>(flag, column_widths).
     let column_widths =
       (if flag then column_widths else map2 (\<lambda>n name. max n (length name)) (replicate (length names) 0) names)
     in bindE (foldE widen_cell (enumerate 0 row) column_widths) (\<lambda>column_widths. Inr (True, column_widths)))"

definition print_name :: "nat list \<Rightarrow> nat \<times> string \<Rightarrow> ostream \<Rightarrow> ostream result" where
  "print_name column_widths = (\<lambda>(i, name) os.
     bindE (nthE column_widths i) (\<lambda>n. Inr (put_text name (setw (n + 2) (std_left os)))))"

definition print_rule :: "nat list \<Rightarrow> nat \<Rightarrow> ostream \<Rightarrow> ostream result" where
  "print_rule column_widths i os =
     bindE (nthE column_widths i) (\<lambda>n. Inr (put_text [] (setfill CHR ''-'' (setw (n + 2) os))))"

definition print_cell ::
  "nat set \<Rightarrow> view list results \<Rightarrow> nat list \<Rightarrow> nat \<Rightarrow> nat \<Rightarrow> ostream \<Rightarrow> ostream result" where
  "print_cell live res column_widths i j os =
     bindE (nthE column_widths j) (\<lambda>n.
     bindE (IsValueNull i j res) (\<lambda>null.
     bindE (if null then Inr ''null''
            else bindE (nthE (ResultSet res) i) (\<lambda>row. bindE (nthE row j) (read_view live))) (\<lambda>s.
       Inr (put_text s (setw (n + 2) (std_left os))))))"

definition print_row ::
  "nat set \<Rightarrow> view list results \<Rightarrow> nat list \<Rightarrow> nat \<Rightarrow> ostream \<Rightarrow> ostream result" where
  "print_row live res column_widths i os =
     bindE (nthE (ResultSet res) i) (\<lambda>row.
     bindE (foldE (print_cell live res column_widths i) [0..<length row] os) (\<lambda>os. Inr (endl os)))"

text \<open>\<open>live\<close>: the results of the client library that are allocated.\<close>

definition PrintResultTable :: "nat set \<Rightarrow> view list results \<Rightarrow> ostream \<Rightarrow> ostream result" where
  "PrintResultTable live res os =
     (let names = GetFieldsName res; res_set = ResultSet res in
      bindE (foldE (widen_row names) res_set (False, [])) (\<lambda>(_, column_widths).
      bindE (foldE (print_name column_widths) (enumerate 0 names) os) (\<lambda>os.
      let os = endl os in
      bindE (foldE (print_rule column_widths) [0..<length names] os) (\<lambda>os.
      let os = setfill CHR '' '' (endl os) in
      foldE (print_row live res column_widths) [0..<length res_set] os))))"

text \<open>The future client has the same function, and one for typed rows of an \<^verbatim>\<open>int\<close> and a string.\<close>

definition future_PrintResultTable :: "nat set \<Rightarrow> view list results \<Rightarrow> ostream \<Rightarrow> ostream result" where
  "future_PrintResultTable live res os = PrintResultTable live res os"

fun show_value :: "out_value \<Rightarrow> string" where
  "show_value (VScalar (Int32 v)) = int_text v"
| "show_value (VString s) = s"
| "show_value _ = []"

definition print_tuple :: "out_value list \<Rightarrow> ostream \<Rightarrow> ostream result" where
  "print_tuple tuple os =
     bindE (nthE tuple 0) (\<lambda>id. bindE (nthE tuple 1) (\<lambda>username.
       Inr (endl (put_text (show_value username) (put_text '', Username: ''
              (put_text (show_value id) (put_text ''ID: '' os)))))))"

definition PrintResult :: "out_value list list \<Rightarrow> ostream \<Rightarrow> ostream result" where
  "PrintResult res_data os = foldE print_tuple res_data os"

section \<open>What a table looks like\<close>

text \<open>\<open>prints P f s\<close>: from a stream with \<open>P\<close>, \<open>f\<close> writes \<open>s\<close> and leaves \<open>P\<close>.\<close>

definition prints :: "(ostream \<Rightarrow> bool) \<Rightarrow> (ostream \<Rightarrow> ostream result) \<Rightarrow> string \<Rightarrow> bool" where
  "prints P f s \<longleftrightarrow> (\<forall>os. P os \<longrightarrow> (\<exists>os'. f os = Inr os' \<and> P os' \<and> os_text os' = os_text os @ s))"

lemma prints_foldE:
  assumes "\<And>x. x \<in> set xs \<Longrightarrow> prints P (f x) (g x)"
  shows "prints P (foldE f xs) (concat (map g xs))"
  using assms
proof (induction xs)
  case Nil
  then show ?case by (simp add: prints_def)
next
  case (Cons x xs)
  show ?case
    unfolding prints_def
  proof (intro allI impI)
    fix os assume P: "P os"
    obtain os1 where 1: "f x os = Inr os1" "P os1" "os_text os1 = os_text os @ g x"
      using Cons.prems [of x] P by (auto simp: prints_def)
    obtain os2 where "foldE f xs os1 = Inr os2" "P os2" "os_text os2 = os_text os1 @ concat (map g xs)"
      using Cons 1(2) by (auto simp: prints_def)
    with 1 show "\<exists>os'. foldE f (x # xs) os = Inr os' \<and> P os' \<and> os_text os' = os_text os @ concat (map g (x # xs))"
      by simp
  qed
qed

lemma printsE:
  assumes "prints P f s" and "P os"
  obtains os' where "f os = Inr os'" and "P os'" and "os_text os' = os_text os @ s"
  using assms by (auto simp: prints_def)

definition blank_fill :: "ostream \<Rightarrow> bool" where
  "blank_fill os \<longleftrightarrow> os_fill os = CHR '' ''"

definition pad_right :: "nat \<Rightarrow> string \<Rightarrow> string" where
  "pad_right n s = s @ replicate (n - length s) CHR '' ''"

text \<open>A line of cells, and the line under the names. The width of a column is that of its widest text.\<close>

definition table_line :: "nat list \<Rightarrow> string list \<Rightarrow> string" where
  "table_line ws cells = concat (map (\<lambda>i. pad_right (ws ! i + 2) (cells ! i)) [0..<length cells])"

definition table_rule :: "nat list \<Rightarrow> string" where
  "table_rule ws = concat (map (\<lambda>n. replicate (n + 2) CHR ''-'') ws)"

definition column_width :: "string list \<Rightarrow> view list list \<Rightarrow> nat \<Rightarrow> nat" where
  "column_width names rows j = Max (set (length (names ! j) # map (\<lambda>row. length (view_text (row ! j))) rows))"

definition cell_text :: "view list results \<Rightarrow> nat \<Rightarrow> nat \<Rightarrow> string" where
  "cell_text res i j = (if null_flags res ! i ! j then ''null'' else view_text (ResultSet res ! i ! j))"

lemma table_line_length:
  assumes "\<forall>i < length cells. length (cells ! i) \<le> ws ! i + 2"
  shows "length (table_line ws cells) = sum_list (map (\<lambda>i. ws ! i + 2) [0..<length cells])"
  using assms by (auto simp: table_line_def length_concat pad_right_def comp_def intro!: arg_cong [of _ _ sum_list])

lemma table_rule_length: "length (table_rule ws) = sum_list (map (\<lambda>i. ws ! i + 2) [0..<length ws])"
proof -
  have "map (\<lambda>n. n + 2) ws = map (\<lambda>i. ws ! i + 2) [0..<length ws]" by (simp add: map_equality_iff)
  then show ?thesis by (simp add: table_rule_def length_concat comp_def)
qed

text \<open>The widths.\<close>

abbreviation widen :: "nat list \<Rightarrow> view list \<Rightarrow> nat list" where
  "widen ws row \<equiv> map2 (\<lambda>n v. max n (length (view_text v))) ws row"

lemma widen_cells:
  "length row = length ws \<Longrightarrow> foldE widen_cell (enumerate (length p) row) (p @ ws) = Inr (p @ widen ws row)"
proof (induction row arbitrary: p ws)
  case Nil
  then show ?case by simp
next
  case (Cons v row)
  then obtain n ws' where ws: "ws = n # ws'" by (cases ws) auto
  then show ?case
    using Cons.IH [of ws' "p @ [max n (length (view_text v))]"] Cons.prems
    by (simp add: widen_cell_def nth_append list_update_append)
qed

lemma widen_rows:
  assumes "\<forall>row \<in> set rows. length row = length ws"
  shows "foldE (widen_row names) rows (True, ws) = Inr (True, fold (\<lambda>row ws. widen ws row) rows ws)"
  using assms
proof (induction rows arbitrary: ws)
  case Nil
  then show ?case by simp
next
  case (Cons row rows)
  then show ?case using widen_cells [of row ws "[]"] by (simp add: widen_row_def)
qed

lemma widen_rows_length: "\<forall>row \<in> set rows. length row = length ws \<Longrightarrow> length (fold (\<lambda>row ws. widen ws row) rows ws) = length ws"
  by (induction rows arbitrary: ws) simp_all

lemma widen_rows_nth:
  assumes "\<forall>row \<in> set rows. length row = length ws" and "j < length ws"
  shows "fold (\<lambda>row ws. widen ws row) rows ws ! j = Max (set (ws ! j # map (\<lambda>row. length (view_text (row ! j))) rows))"
proof -
  have "fold (\<lambda>row ws. widen ws row) rows ws ! j = fold max (map (\<lambda>row. length (view_text (row ! j))) rows) (ws ! j)"
    using assms by (induction rows arbitrary: ws) (simp_all add: max.commute)
  then show ?thesis by (simp only: Max.set_eq_fold)
qed

lemma table_widths:
  assumes "\<forall>row \<in> set rows. length row = length names" and "rows \<noteq> []"
  shows "foldE (widen_row names) rows (False, []) = Inr (True, map (column_width names rows) [0..<length names])"
proof -
  let ?ws = "map length names"
  have first: "map2 (\<lambda>n name. max n (length name)) (replicate (length names) 0) names = ?ws"
    by (rule nth_equalityI) simp_all
  obtain row rows' where rows: "rows = row # rows'" using assms(2) by (cases rows) auto
  have "foldE (widen_row names) rows (False, []) = foldE (widen_row names) rows (True, ?ws)"
    unfolding rows by (simp only: foldE.simps widen_row_def prod.case first if_True if_False simp_thms)
  also have "\<dots> = Inr (True, fold (\<lambda>row ws. widen ws row) rows ?ws)" by (rule widen_rows) (use assms(1) in simp)
  also have "fold (\<lambda>row ws. widen ws row) rows ?ws = map (column_width names rows) [0..<length names]"
    by (rule nth_equalityI)
      (use widen_rows_nth [of rows ?ws] widen_rows_length [of rows ?ws] assms(1) in \<open>simp_all add: column_width_def\<close>)
  finally show ?thesis .
qed

lemma setw_small [simp]: "n < 2 ^ 31 \<Longrightarrow> setw n os = os\<lparr>os_width := n\<rparr>"
  by (simp add: setw_def signed_of_nat signed_take_bit_int_eq_self)

lemma put_cell:
  assumes "blank_fill os" and "n + 2 < 2 ^ 31"
  shows "put_text s (setw (n + 2) (std_left os)) =
    os\<lparr>os_text := os_text os @ pad_right (n + 2) s, os_width := 0, os_left := True\<rparr>"
  unfolding setw_small [OF assms(2)] using assms(1) by (simp add: put_text_def std_left_def blank_fill_def pad_right_def)

lemma print_name_prints:
  assumes "i < length ws" and "ws ! i + 2 < 2 ^ 31"
  shows "prints blank_fill (print_name ws (i, name)) (pad_right (ws ! i + 2) name)"
  using assms put_cell [of _ "ws ! i"] by (simp add: prints_def print_name_def) (simp add: blank_fill_def)

lemma print_rule_prints:
  assumes "i < length ws" and "ws ! i + 2 < 2 ^ 31"
  shows "prints (\<lambda>_. True) (print_rule ws i) (replicate (ws ! i + 2) CHR ''-'')"
proof -
  have "setw (ws ! i + 2) os = os\<lparr>os_width := ws ! i + 2\<rparr>" for os by (rule setw_small [OF assms(2)])
  then show ?thesis using assms(1) by (simp add: prints_def print_rule_def put_text_def setfill_def Let_def)
qed

text \<open>\<open>printable live res\<close>: a result with one name, one view and one null flag per cell, whose views are alive.\<close>

definition printable :: "nat set \<Rightarrow> view list results \<Rightarrow> bool" where
  "printable live res \<longleftrightarrow>
     (\<forall>row \<in> set (ResultSet res). length row = length (fields_name res) \<and>
        (\<forall>v \<in> set row. \<forall>b. view_of v = Some b \<longrightarrow> b \<in> live)) \<and>
     length (null_flags res) = length (ResultSet res) \<and> (\<forall>flags \<in> set (null_flags res). length flags = length (fields_name res))"

lemma print_cell_prints:
  assumes p: "printable live res" and i: "i < length (ResultSet res)" and j: "j < length (fields_name res)"
    and ws: "length ws = length (fields_name res)" "ws ! j + 2 < 2 ^ 31"
  shows "prints blank_fill (print_cell live res ws i j) (pad_right (ws ! j + 2) (cell_text res i j))"
proof -
  have row: "ResultSet res ! i \<in> set (ResultSet res)" and len: "length (null_flags res) = length (ResultSet res)"
    using i p by (simp_all add: printable_def)
  then have j': "j < length (ResultSet res ! i)" "length (null_flags res ! i) = length (fields_name res)"
    "length (null_flags res ! 0) = length (fields_name res)"
    using p i j by (auto simp: printable_def intro!: nth_mem)
  have null: "IsValueNull i j res = Inr (null_flags res ! i ! j)"
    using i j len j' by (auto simp: IsValueNull_def)
  have "ResultSet res ! i ! j \<in> set (ResultSet res ! i)" using j'(1) by simp
  then have "read_view live (ResultSet res ! i ! j) = Inr (view_text (ResultSet res ! i ! j))"
    using p row by (auto simp: read_view_def printable_def split: option.split)
  then show ?thesis
    using i j j' ws null put_cell [of _ "ws ! j"]
    by (simp add: prints_def print_cell_def cell_text_def) (simp add: blank_fill_def)
qed

lemma print_row_prints:
  assumes p: "printable live res" and i: "i < length (ResultSet res)" and ws: "length ws = length (fields_name res)" "\<forall>n \<in> set ws. n + 2 < 2 ^ 31"
  shows "prints blank_fill (print_row live res ws i)
    (table_line ws (map (cell_text res i) [0..<length (fields_name res)]) @ [new_line])"
proof -
  have len: "length (ResultSet res ! i) = length (fields_name res)" using p i by (simp add: printable_def)
  have "prints blank_fill (foldE (print_cell live res ws i) [0..<length (fields_name res)])
      (concat (map (\<lambda>j. pad_right (ws ! j + 2) (cell_text res i j)) [0..<length (fields_name res)]))"
    by (rule prints_foldE) (use print_cell_prints [OF p i] ws in simp)
  moreover have "concat (map (\<lambda>j. pad_right (ws ! j + 2) (cell_text res i j)) [0..<length (fields_name res)]) =
      table_line ws (map (cell_text res i) [0..<length (fields_name res)])"
    unfolding table_line_def by (intro arg_cong [of _ _ concat] map_cong) simp_all
  ultimately show ?thesis
    using i len by (fastforce simp: prints_def print_row_def endl_def blank_fill_def)
qed

text \<open>The lines of a result.\<close>

definition table_lines :: "view list results \<Rightarrow> string list" where
  "table_lines res =
     (let names = fields_name res; ws = map (column_width names (ResultSet res)) [0..<length names]
      in [table_line ws names, table_rule ws] @
         map (\<lambda>i. table_line ws (map (cell_text res i) [0..<length names])) [0..<length (ResultSet res)])"

lemma PrintResultTable_prints:
  assumes p: "printable live res" and rows: "ResultSet res \<noteq> []"
    and small: "\<forall>j < length (fields_name res). column_width (fields_name res) (ResultSet res) j + 2 < 2 ^ 31"
  shows "prints blank_fill (PrintResultTable live res) (concat (map (\<lambda>line. line @ [new_line]) (table_lines res)))"
  unfolding prints_def
proof (intro allI impI)
  fix os :: ostream assume os: "blank_fill os"
  let ?names = "fields_name res" and ?rows = "ResultSet res"
  let ?ws = "map (column_width ?names ?rows) [0..<length ?names]"
  have ws: "length ?ws = length ?names" "\<forall>n \<in> set ?ws. n + 2 < 2 ^ 31" using small by auto
  have w: "foldE (widen_row ?names) ?rows (False, []) = Inr (True, ?ws)"
    by (rule table_widths) (use p rows in \<open>auto simp: printable_def\<close>)
  have "prints blank_fill (foldE (print_name ?ws) (enumerate 0 ?names))
      (concat (map (\<lambda>(i, name). pad_right (?ws ! i + 2) name) (enumerate 0 ?names)))"
    by (rule prints_foldE) (use print_name_prints [of _ ?ws] small in \<open>auto simp: in_set_enumerate_eq\<close>)
  then obtain os1 where 1: "foldE (print_name ?ws) (enumerate 0 ?names) os = Inr os1" "blank_fill os1"
    "os_text os1 = os_text os @ concat (map (\<lambda>(i, name). pad_right (?ws ! i + 2) name) (enumerate 0 ?names))"
    using os by (rule printsE)
  have "enumerate 0 ?names = map (\<lambda>i. (i, ?names ! i)) [0..<length ?names]"
    by (rule nth_equalityI) (simp_all add: nth_enumerate_eq)
  then have head: "os_text os1 = os_text os @ table_line ?ws ?names" using 1(3) by (simp add: table_line_def comp_def)
  have "prints (\<lambda>_. True) (foldE (print_rule ?ws) [0..<length ?names])
      (concat (map (\<lambda>i. replicate (?ws ! i + 2) CHR ''-'') [0..<length ?names]))"
    by (rule prints_foldE) (rule print_rule_prints, use small in simp_all)
  then obtain os2 where 2: "foldE (print_rule ?ws) [0..<length ?names] (endl os1) = Inr os2"
    "os_text os2 = os_text (endl os1) @ concat (map (\<lambda>i. replicate (?ws ! i + 2) CHR ''-'') [0..<length ?names])"
    by (rule printsE [where os = "endl os1"]) simp_all
  have rule: "concat (map (\<lambda>i. replicate (?ws ! i + 2) CHR ''-'') [0..<length ?names]) = table_rule ?ws"
    unfolding table_rule_def by (simp only: map_map comp_def) (intro arg_cong [of _ _ concat] map_cong, simp_all)
  have "prints blank_fill (foldE (print_row live res ?ws) [0..<length ?rows])
      (concat (map (\<lambda>i. table_line ?ws (map (cell_text res i) [0..<length ?names]) @ [new_line]) [0..<length ?rows]))"
    by (rule prints_foldE) (use print_row_prints [OF p _ ws] in simp)
  then obtain os3 where 3: "foldE (print_row live res ?ws) [0..<length ?rows] (setfill CHR '' '' (endl os2)) = Inr os3"
    "blank_fill os3" "os_text os3 = os_text (setfill CHR '' '' (endl os2)) @
      concat (map (\<lambda>i. table_line ?ws (map (cell_text res i) [0..<length ?names]) @ [new_line]) [0..<length ?rows])"
    by (rule printsE [where os = "setfill CHR '' '' (endl os2)"]) (simp_all add: blank_fill_def setfill_def)
  have "PrintResultTable live res os = Inr os3"
    using w 1(1) 2(1) 3(1) by (simp add: PrintResultTable_def GetFieldsName_def Let_def)
  moreover have "os_text os3 = os_text os @ concat (map (\<lambda>line. line @ [new_line]) (table_lines res))"
    using 3(3) 2(2) head rule by (simp add: table_lines_def Let_def endl_def setfill_def comp_def)
  ultimately show "\<exists>os'. PrintResultTable live res os = Inr os' \<and> blank_fill os' \<and>
      os_text os' = os_text os @ concat (map (\<lambda>line. line @ [new_line]) (table_lines res))"
    using 3(2) by blast
qed

lemma table_lines_length:
  assumes p: "printable live res" and nulls: "\<forall>i < length (ResultSet res). \<forall>j < length (fields_name res).
      null_flags res ! i ! j \<longrightarrow> 2 \<le> column_width (fields_name res) (ResultSet res) j"
    and l: "l \<in> set (table_lines res)"
  shows "length l = (\<Sum>j \<leftarrow> [0..<length (fields_name res)]. column_width (fields_name res) (ResultSet res) j + 2)"
proof -
  let ?n = "length (fields_name res)" and ?w = "column_width (fields_name res) (ResultSet res)"
  let ?ws = "map ?w [0..<?n]"
  have sum: "(\<Sum>j \<leftarrow> [0..<?n]. ?ws ! j + 2) = (\<Sum>j \<leftarrow> [0..<?n]. ?w j + 2)"
    by (rule arg_cong [of _ _ sum_list], rule map_cong) simp_all
  have line: "length (table_line ?ws cells) = (\<Sum>j \<leftarrow> [0..<?n]. ?w j + 2)"
    if "length cells = ?n" "\<forall>j < ?n. length (cells ! j) \<le> ?w j + 2" for cells
    using table_line_length [of cells ?ws] that unfolding sum [symmetric] by simp
  have name: "length (fields_name res ! j) \<le> ?w j" for j by (simp add: column_width_def)
  have view: "length (view_text (ResultSet res ! i ! j)) \<le> ?w j" if "i < length (ResultSet res)" for i j
    unfolding column_width_def by (rule Max_ge) (use that in auto)
  have cell: "length (cell_text res i j) \<le> ?w j + 2" if "i < length (ResultSet res)" "j < ?n" for i j
    using view [OF that(1), of j] nulls that by (auto simp: cell_text_def numeral_2_eq_2)
  from l consider "l = table_line ?ws (fields_name res)" | "l = table_rule ?ws"
    | i where "i < length (ResultSet res)" "l = table_line ?ws (map (cell_text res i) [0..<?n])"
    by (auto simp: table_lines_def Let_def)
  then show ?thesis
  proof cases
    case 1
    then show ?thesis using line [of "fields_name res"] name by (simp add: le_SucI trans_le_add1)
  next
    case 2
    then show ?thesis using table_rule_length [of ?ws] unfolding sum [symmetric] by simp
  next
    case (3 i)
    then show ?thesis using line [of "map (cell_text res i) [0..<?n]"] cell by simp
  qed
qed

text \<open>C39: \<^verbatim>\<open>PrintResultTable\<close> on a result with rows: it returns, and writes the names, a rule and one line
  per row, each cell padded to two more than the widest text of its column; the lines are of
  the same length unless a NULL is in a column narrower than two characters.\<close>

theorem table_is_printed:
  assumes p: "printable live res" and rows: "ResultSet res \<noteq> []" and os: "os_fill os = CHR '' ''"
    and small: "\<forall>j < length (GetFieldsName res). column_width (GetFieldsName res) (ResultSet res) j + 2 < 2 ^ 31"
  shows "\<exists>os'. PrintResultTable live res os = Inr os' \<and>
    os_text os' = os_text os @ concat (map (\<lambda>line. line @ [new_line]) (table_lines res)) \<and>
    ((\<forall>i < length (ResultSet res). \<forall>j < length (GetFieldsName res).
        null_flags res ! i ! j \<longrightarrow> 2 \<le> column_width (GetFieldsName res) (ResultSet res) j) \<longrightarrow>
      (\<forall>line \<in> set (table_lines res).
        length line = (\<Sum>j \<leftarrow> [0..<length (GetFieldsName res)]. column_width (GetFieldsName res) (ResultSet res) j + 2)))"
proof -
  have n: "GetFieldsName res = fields_name res" by (simp add: GetFieldsName_def)
  obtain os' where "PrintResultTable live res os = Inr os'"
    "os_text os' = os_text os @ concat (map (\<lambda>line. line @ [new_line]) (table_lines res))"
    by (rule printsE [OF PrintResultTable_prints [OF p rows], of os]) (use small os in \<open>simp_all add: n blank_fill_def\<close>)
  then show ?thesis unfolding n using table_lines_length [OF p] by blast
qed

definition demo_table_results :: "view list results" where
  "demo_table_results = (MysqlResults_new NativeString)
     \<lparr>fields_name := [''id'', ''name''], null_flags := [[False, False], [False, True]], mysql_res := Some 5,
      result_set := [[\<lparr>view_of = Some 5, view_text = ''7''\<rparr>, \<lparr>view_of = Some 5, view_text = ''alice''\<rparr>],
        [\<lparr>view_of = Some 5, view_text = ''12''\<rparr>, \<lparr>view_of = None, view_text = []\<rparr>]]\<rparr>"

definition demo_cout :: ostream where
  "demo_cout = \<lparr>os_text = [], os_width = 0, os_fill = CHR '' '', os_left = False\<rparr>"

theorem table_is_printed_witness:
  "\<exists>os'. PrintResultTable {5} demo_table_results demo_cout = Inr os' \<and>
    os_text os' = ''id  name   '' @ [new_line] @ ''-----------'' @ [new_line] @ ''7   alice  '' @ [new_line] @
      ''12  null   '' @ [new_line]"
proof -
  have "printable {5} demo_table_results" by (simp add: printable_def demo_table_results_def ResultSet_def)
  moreover have "ResultSet demo_table_results \<noteq> []" "os_fill demo_cout = CHR '' ''"
    by (simp_all add: demo_table_results_def ResultSet_def demo_cout_def)
  moreover have "\<forall>j < length (GetFieldsName demo_table_results).
      column_width (GetFieldsName demo_table_results) (ResultSet demo_table_results) j + 2 < 2 ^ 31"
    by (simp add: demo_table_results_def ResultSet_def GetFieldsName_def column_width_def less_Suc_eq)
  ultimately obtain os' where "PrintResultTable {5} demo_table_results demo_cout = Inr os'"
    "os_text os' = os_text demo_cout @ concat (map (\<lambda>line. line @ [new_line]) (table_lines demo_table_results))"
    using table_is_printed by blast
  moreover have "table_lines demo_table_results = [''id  name   '', ''-----------'', ''7   alice  '', ''12  null   '']"
    by code_simp
  ultimately show ?thesis by (simp add: demo_cout_def)
qed

text \<open>On a result without rows \<^verbatim>\<open>PrintResultTable\<close> reads out of range: the widths are only made when there
  is a first row, and the header uses them.\<close>

theorem empty_table_is_read_out_of_range:
  assumes "ResultSet res = []" and "GetFieldsName res \<noteq> []"
  shows "PrintResultTable live res os = Inl Out_of_range"
  using assms by (cases "GetFieldsName res") (simp_all add: PrintResultTable_def print_name_def)

theorem empty_table_is_read_out_of_range_witness:
  "PrintResultTable {} ((MysqlResults_new NativeString)\<lparr>fields_name := [''id'']\<rparr>) demo_cout = Inl Out_of_range"
  by (rule empty_table_is_read_out_of_range) (simp_all add: ResultSet_def GetFieldsName_def MysqlResults_new_def)

end
