(* ===== verification/Client_Owners.thy ===== *)
theory Client_Owners
  imports Client_Calls
begin

text \<open>
  Who owns which connection when a proxy has many clients: asynchronous statements cut at their
  hand-over to the thread pool, transactions numbered by who uses them, the invariant \<open>owners_ok\<close>, and that
  each operation keeps it.
\<close>

section \<open>An asynchronous statement in its steps\<close>

text \<open>\<open>Proxy_Async\<close> runs the task of a call at once. Here the call is cut at the hand-over to the thread
  pool: \<open>async_send\<close> is \<^verbatim>\<open>AsyncUnaryInvoke\<close> up to it, \<open>async_receive\<close> its continuation.\<close>

datatype submission = Refused string | Queued | Lost

definition async_send ::
  "'f framework \<Rightarrow> ('m, 'w, 'f) async_state \<Rightarrow> (submission \<times> ('m, 'w, 'f) async_state) result" where
  "async_send F a =
     (let (ctx, hdl, st) = a;
          (timeout, ctx, st) = fw_call (check_timeout F) ctx st in
      if timeout then Inr (Refused (status_msg (ctx_status ctx)), ctx, hdl, st)
      else
        let (filter_ret, ctx, st) = fw_call (run_filters F CLIENT_PRE_SEND_MSG) ctx st in
        if filter_ret \<noteq> 0 then
          let (ctx, st) = RunFilters F CLIENT_POST_RECV_MSG ctx st;
              (ctx, st) = RunFilters F CLIENT_POST_RPC_INVOKE ctx st
          in Inr (Refused (status_msg (ctx_status ctx)), ctx, hdl, st)
        else if thread_pool st = None then Inl Null_dereference
        else
          let (accepted, w) = add_task F (fw st)
          in Inr (if accepted then Queued else Lost, ctx, hdl, st\<lparr>fw := w\<rparr>))"

definition async_receive ::
  "'f framework \<Rightarrow> 'r results future \<Rightarrow> ('m, 'w, 'f) async_state \<Rightarrow>
   ('r results future \<times> ('m, 'w, 'f) async_state) result" where
  "async_receive F fut a =
     and_then fut
       (\<lambda>f a. let a = async_filters F CLIENT_POST_RECV_MSG a
              in case f of Inr msg \<Rightarrow> Inr (Failed msg, a)
                 | Inl res \<Rightarrow> Inr (Ready (fst (MysqlResults_move res)), a)) a"

lemma AsyncUnaryInvoke_steps:
  "AsyncUnaryInvoke F api H run m executor a =
     bindE (async_send F a) (\<lambda>(s, ctx, hdl, st).
       case s of
         Refused msg \<Rightarrow> Inr (Failed msg, ctx, hdl, st)
       | Lost \<Rightarrow> async_receive F Pending (ctx, hdl, st)
       | Queued \<Rightarrow> bindE (capture executor st) (\<lambda>st.
           bindE (run_task F api H run m executor ctx st) (\<lambda>(fut, ctx, st). async_receive F fut (ctx, hdl, st))))"
  by (simp add: AsyncUnaryInvoke_def async_send_def async_receive_def bindE_assoc split: prod.splits)

text \<open>\<^verbatim>\<open>AsyncQuery\<close> as a client sees it: what it does before it returns, and what happens when the task
  runs. \<open>Inl\<close>: the future is already completed, or never will be.\<close>

definition async_start ::
  "'f framework \<Rightarrow> call_context \<Rightarrow> ('m, 'w, 'f) proxy \<Rightarrow>
   (('r results future + unit) \<times> ('m, 'w, 'f) async_state) result" where
  "async_start F ctx st =
     (let (reject, ctx, st) = async_enter F ctx st in
      if reject
      then bindE (async_reject F (status_msg (ctx_status ctx)) ctx None st) (\<lambda>(fut, a). Inr (Inl fut, a))
      else
        bindE (async_send F (ctx, None, st)) (\<lambda>(s, a).
          case s of
            Refused msg \<Rightarrow> bindE (post_invoke F (Failed msg) a) (\<lambda>(fut, a). Inr (Inl fut, a))
          | Lost \<Rightarrow> Inr (Inl Pending, a)
          | Queued \<Rightarrow> Inr (Inr (), a)))"

definition async_finish ::
  "'f framework \<Rightarrow> 'w mysql_api \<Rightarrow> 'm hashmap_api \<Rightarrow> ('r, 'w) runner \<Rightarrow> MysqlResultsMode \<Rightarrow> call_context \<Rightarrow>
   ('m, 'w, 'f) proxy \<Rightarrow> ('r results future \<times> ('m, 'w, 'f) async_state) result" where
  "async_finish F api H run m ctx st =
     bindE (async_task F api H run m None ctx st) (\<lambda>(fut, ctx, st).
     bindE (async_receive F fut (ctx, None, st)) (\<lambda>(fut, a). post_invoke F fut a))"

lemma async_send_returns:
  assumes "thread_pool st \<noteq> None"
  obtains s ctx' w where "async_send F (ctx, hdl, st) = Inr (s, ctx', hdl, st\<lparr>fw := w\<rparr>)"
    and "takes_tasks F \<Longrightarrow> s \<noteq> Lost"
proof -
  obtain timeout c1 w1 where 1: "fw_call (check_timeout F) ctx st = (timeout, c1, st\<lparr>fw := w1\<rparr>)" by (rule fw_call_eq)
  obtain ret c2 w2 where 2: "fw_call (run_filters F CLIENT_PRE_SEND_MSG) c1 (st\<lparr>fw := w1\<rparr>) = (ret, c2, st\<lparr>fw := w2\<rparr>)"
    by (rule fw_call_eq [of "run_filters F CLIENT_PRE_SEND_MSG" c1 "st\<lparr>fw := w1\<rparr>"]) simp
  obtain c3 w3 where 3: "RunFilters F CLIENT_POST_RECV_MSG c2 (st\<lparr>fw := w2\<rparr>) = (c3, st\<lparr>fw := w3\<rparr>)"
    by (rule RunFilters_eq [of F CLIENT_POST_RECV_MSG c2 "st\<lparr>fw := w2\<rparr>"]) simp
  obtain c4 w4 where 4: "RunFilters F CLIENT_POST_RPC_INVOKE c3 (st\<lparr>fw := w3\<rparr>) = (c4, st\<lparr>fw := w4\<rparr>)"
    by (rule RunFilters_eq [of F CLIENT_POST_RPC_INVOKE c3 "st\<lparr>fw := w3\<rparr>"]) simp
  obtain ok w5 where 5: "add_task F w2 = (ok, w5)" by fastforce
  have taken: "takes_tasks F \<Longrightarrow> ok" using 5 by (auto simp: takes_tasks_def dest: spec [of _ w2])
  have "\<exists>s ctx' w. async_send F (ctx, hdl, st) = Inr (s, ctx', hdl, st\<lparr>fw := w\<rparr>) \<and> (takes_tasks F \<longrightarrow> s \<noteq> Lost)"
    using 1 2 3 4 5 taken assms by (auto simp: async_send_def)
  then show thesis using that by blast
qed

lemma AsyncQuery_steps:
  assumes up: "thread_pool st \<noteq> None"
  shows "AsyncQuery F api H run m ctx st =
     bindE (async_start F ctx st) (\<lambda>(s, ctx, hdl, st).
       case s of Inl fut \<Rightarrow> Inr (fut, ctx, hdl, st) | Inr _ \<Rightarrow> async_finish F api H run m ctx st)"
proof -
  obtain c1 w1 where 1: "fw_do (fill_context F) ctx st = (c1, st\<lparr>fw := w1\<rparr>)" by (rule fw_do_eq)
  obtain reject c2 w2 where 2: "fw_call (message_filters F CLIENT_PRE_RPC_INVOKE) c1 (st\<lparr>fw := w1\<rparr>) = (reject, c2, st\<lparr>fw := w2\<rparr>)"
    by (rule fw_call_eq [of "message_filters F CLIENT_PRE_RPC_INVOKE" c1 "st\<lparr>fw := w1\<rparr>"]) simp
  then have enter: "async_enter F ctx st = (reject, c2, st\<lparr>fw := w2\<rparr>)" using 1 by (simp add: async_enter_def)
  obtain s c3 w3 where send: "async_send F (c2, None, st\<lparr>fw := w2\<rparr>) = Inr (s, c3, None, st\<lparr>fw := w3\<rparr>)"
    by (rule async_send_returns [of "st\<lparr>fw := w2\<rparr>" F c2 None]) (use up in simp_all)
  show ?thesis
  proof (cases reject)
    case True
    then show ?thesis using enter by (simp add: AsyncQuery_def async_start_def async_reject_def split: prod.split)
  next
    case False
    then show ?thesis using enter send
      by (cases s; simp add: AsyncQuery_def async_start_def async_finish_def AsyncUnaryInvoke_steps bindE_assoc case_prod_unfold)
        (simp_all add: async_receive_def post_invoke_def and_then_def case_prod_unfold)
  qed
qed

lemma async_start_returns:
  assumes "thread_pool st \<noteq> None"
  obtains s ctx' w where "async_start F ctx st = Inr (s, ctx', None, st\<lparr>fw := w\<rparr>)"
    and "takes_tasks F \<Longrightarrow> s \<noteq> Inl Pending"
proof -
  obtain c1 w1 where 1: "fw_do (fill_context F) ctx st = (c1, st\<lparr>fw := w1\<rparr>)" by (rule fw_do_eq)
  obtain reject c2 w2 where 2: "fw_call (message_filters F CLIENT_PRE_RPC_INVOKE) c1 (st\<lparr>fw := w1\<rparr>) = (reject, c2, st\<lparr>fw := w2\<rparr>)"
    by (rule fw_call_eq [of "message_filters F CLIENT_PRE_RPC_INVOKE" c1 "st\<lparr>fw := w1\<rparr>"]) simp
  then have enter: "async_enter F ctx st = (reject, c2, st\<lparr>fw := w2\<rparr>)" using 1 by (simp add: async_enter_def)
  obtain b c3 w3 where 3: "fw_call (message_filters F CLIENT_POST_RPC_INVOKE) c2 (st\<lparr>fw := w2\<rparr>) = (b, c3, st\<lparr>fw := w3\<rparr>)"
    by (rule fw_call_eq [of "message_filters F CLIENT_POST_RPC_INVOKE" c2 "st\<lparr>fw := w2\<rparr>"]) simp
  obtain s c4 w4 where 4: "async_send F (c2, None, st\<lparr>fw := w2\<rparr>) = Inr (s, c4, None, st\<lparr>fw := w4\<rparr>)" "takes_tasks F \<Longrightarrow> s \<noteq> Lost"
    by (rule async_send_returns [of "st\<lparr>fw := w2\<rparr>" F c2 None]) (use assms in simp_all)
  obtain c5 w5 where 5: "RunFilters F CLIENT_POST_RPC_INVOKE c4 (st\<lparr>fw := w4\<rparr>) = (c5, st\<lparr>fw := w5\<rparr>)"
    by (rule RunFilters_eq [of F CLIENT_POST_RPC_INVOKE c4 "st\<lparr>fw := w4\<rparr>"]) simp
  note d = async_start_def async_reject_def post_invoke_def and_then_def async_filters_def
  show thesis
  proof (cases reject)
    case True
    then show thesis using enter 3 that [of "Inl (Failed (status_msg (ctx_status c2)))" c3 w3] by (simp add: d)
  next
    case False
    with enter 4 5 that [of _ c5 w5] that [of _ c4 w4] show thesis by (cases s) (auto simp: d)
  qed
qed

context connection_user begin

lemma async_task_settles:
  assumes H: "hashmap_laws H" and ok: "proxy_ok H U st" and oom: "no_oom api" and acc: "accepts api"
    and res: "suits (MysqlResults_new m)"
  obtains fut ctx' st' where "async_task F api H run m None ctx st = Inr (fut, ctx', st')" and "fut \<noteq> Pending"
    and "proxy_ok H U st'" and "same_on U (psys st) (psys st')"
proof -
  have wf: "results_wf (psys st) (MysqlResults_new m)" by (simp add: results_wf_def MysqlResults_new_def)
  obtain r s b res' t q m1 m2 where t: "run r (MysqlResults_new m) s = Inr (b, res', t)"
    "task_connection api H (ctx_addr ctx) None st = Inr ((Some q, r), st\<lparr>mgr := m1\<rparr>)" "msys m1 = s" "connected s r"
    "return_connection api (Some q) r (put_sys t (st\<lparr>mgr := m1\<rparr>)) = Inr (st\<lparr>mgr := m2\<rparr>)"
    and ok2: "proxy_ok H U (st\<lparr>mgr := m2\<rparr>)" "same_on U (psys st) (msys m2)" "results_wf (msys m2) res'"
    by (rule task_pool [OF H ok oom acc res wf, of "ctx_addr ctx"]) blast
  obtain c w where p: "fw_do (proxy_statistics F) ctx (st\<lparr>mgr := m2\<rparr>) = (c, (st\<lparr>mgr := m2\<rparr>)\<lparr>fw := w\<rparr>)" by (rule fw_do_eq)
  let ?st = "(st\<lparr>mgr := m2\<rparr>)\<lparr>fw := w\<rparr>"
  obtain st3 where d: "drop_results api res' ?st = Inr st3" "proxy_ok H U st3" "execs (psys st3) = execs (psys ?st)"
    by (rule drop_results_returns [of H U ?st res' api]) (use ok2 in simp_all)
  have "async_task F api H run m None ctx st =
      (if OK res' then Inr (Ready (fst (MysqlResults_move res')), c, ?st) else Inr (Failed (snd (results_error res')), c, st3))"
    using t(1,2,3,5) p d(1) IsConnected_known [OF connected_exists [OF t(4)]] t(4) by (simp add: async_task_def)
  with ok2 d(2,3) show thesis by (cases "OK res'") (auto simp: same_on_def intro: that)
qed

lemma async_finish_settles:
  assumes H: "hashmap_laws H" and ok: "proxy_ok H U st" and oom: "no_oom api" and acc: "accepts api"
    and res: "suits (MysqlResults_new m)"
  obtains fut ctx' st' where "async_finish F api H run m ctx st = Inr (fut, ctx', None, st')" and "fut \<noteq> Pending"
    and "proxy_ok H U st'" and "same_on U (psys st) (psys st')"
proof -
  obtain fut c1 st1 where t: "async_task F api H run m None ctx st = Inr (fut, c1, st1)" "fut \<noteq> Pending" "proxy_ok H U st1"
    "same_on U (psys st) (psys st1)"
    by (rule async_task_settles [OF H ok oom acc res])
  obtain c2 w2 where 2: "RunFilters F CLIENT_POST_RECV_MSG c1 st1 = (c2, st1\<lparr>fw := w2\<rparr>)" by (rule RunFilters_eq)
  obtain c3 w3 where 3: "RunFilters F CLIENT_POST_RPC_INVOKE c2 (st1\<lparr>fw := w2\<rparr>) = (c3, st1\<lparr>fw := w3\<rparr>)"
    by (rule RunFilters_eq [of F CLIENT_POST_RPC_INVOKE c2 "st1\<lparr>fw := w2\<rparr>"]) simp
  have "\<exists>fut'. async_finish F api H run m ctx st = Inr (fut', c3, None, st1\<lparr>fw := w3\<rparr>) \<and> fut' \<noteq> Pending"
    using t(1,2) 2 3
    by (cases fut) (simp_all add: async_finish_def async_receive_def post_invoke_def and_then_def async_filters_def)
  then show thesis using that t(3,4) by auto
qed

end

section \<open>Owners\<close>

text \<open>Transactions and asynchronous statements are numbered by who uses them. A statement handed over to the
  thread pool is running until its task ran.\<close>

datatype async_call = Running call_context string "input_arg list" | Completed "unit results future"

type_synonym ('m, 'w, 'f) owners = "(nat \<rightharpoonup> tx) \<times> (nat \<rightharpoonup> async_call) \<times> ('m, 'w, 'f) proxy"

text \<open>The executors transactions own, and the invariant.\<close>

definition owned :: "(nat \<rightharpoonup> tx) \<Rightarrow> nat set" where
  "owned T = (\<Union>h \<in> ran T. set_option (tx_executor h))"

definition one_owner :: "(nat \<rightharpoonup> tx) \<Rightarrow> bool" where
  "one_owner T \<longleftrightarrow> (\<forall>i j h k r. T i = Some h \<longrightarrow> T j = Some k \<longrightarrow> tx_executor h = Some r \<longrightarrow> tx_executor k = Some r \<longrightarrow> i = j)"

definition owners_ok :: "'w mysql_api \<Rightarrow> 'm hashmap_api \<Rightarrow> ('m, 'w, 'f) owners \<Rightarrow> bool" where
  "owners_ok api H = (\<lambda>(T, Q, st).
     proxy_ok H (owned T) st \<and> one_owner T \<and> (\<forall>h \<in> ran T. handle_ok (owned T) h st) \<and>
     (\<forall>i ctx sql_str args. Q i = Some (Running ctx sql_str args) \<longrightarrow> serves api args))"

lemma owned_others:
  assumes "one_owner T" and "T i = Some h"
  shows "owned (T(i := None)) = owned T - set_option (tx_executor h)"
proof
  show "owned (T(i := None)) \<subseteq> owned T - set_option (tx_executor h)"
    using assms unfolding owned_def one_owner_def ran_def by (auto split: if_splits)
  show "owned T - set_option (tx_executor h) \<subseteq> owned (T(i := None))"
    using assms(2) unfolding owned_def ran_def by (auto split: if_splits) (metis option.sel)
qed

lemma owned_upd: "owned (T(i := Some h)) = owned (T(i := None)) \<union> set_option (tx_executor h)"
  by (auto simp: owned_def ran_def split: if_splits)

lemma one_owner_upd:
  assumes "one_owner T" and "set_option (tx_executor h) \<inter> owned (T(i := None)) = {}"
  shows "one_owner (T(i := Some h))"
proof -
  have "tx_executor k \<noteq> Some r" if "T j = Some k" "j \<noteq> i" "tx_executor h = Some r" for j k r
    using assms(2) that by (fastforce simp: owned_def ran_def)
  with assms(1) show ?thesis unfolding one_owner_def by (metis fun_upd_apply option.inject)
qed

lemma one_owner_delete: "one_owner T \<Longrightarrow> one_owner (T(i := None))"
  by (auto simp: one_owner_def split: if_splits)

lemma owners_okD:
  assumes "owners_ok api H (T, Q, st)"
  shows "proxy_ok H (owned T) st" and "one_owner T" and "T i = Some h \<Longrightarrow> handle_ok (owned T) h st"
    and "Q i = Some (Running ctx sql_str args) \<Longrightarrow> serves api args"
  using assms by (auto simp: owners_ok_def ran_def)

lemma owned_handle: "T i = Some h \<Longrightarrow> set_option (tx_executor h) \<subseteq> owned T"
  by (auto simp: owned_def ran_def)

text \<open>What the steps change, for the invariant: nothing of the executors in use; a handle and its executor;
  a new handle; a handle less.\<close>

lemma owners_ok_same:
  assumes ok: "owners_ok api H (T, Q, st)" and "proxy_ok H (owned T) st'" and "same_on (owned T) (psys st) (psys st')"
  shows "owners_ok api H (T, Q, st')"
proof -
  have "handle_ok (owned T) h st'" if k: "h \<in> ran T" for h
  proof -
    obtain i where "T i = Some h" using k by (auto simp: ran_def)
    then show ?thesis using handle_ok_same [OF owners_okD(3) [OF ok] assms(3) owned_handle subset_refl] by blast
  qed
  with ok assms(2) show ?thesis by (simp add: owners_ok_def)
qed

lemma owners_ok_others:
  assumes ok: "owners_ok api H (T, Q, st)" and h: "T i = Some h" and proxy: "proxy_ok H (owned T - set_option (tx_executor h)) st'"
    and same: "same_on (owned T - set_option (tx_executor h)) (psys st) (psys st')"
  shows "owners_ok api H (T(i := None), Q, st')"
proof -
  let ?T = "T(i := None)"
  have o: "owned ?T = owned T - set_option (tx_executor h)" by (rule owned_others [OF owners_okD(2) [OF ok] h])
  have "handle_ok (owned ?T) k st'" if k: "k \<in> ran ?T" for k
  proof -
    obtain j where j: "?T j = Some k" using k by (auto simp: ran_def)
    then have "T j = Some k" by (simp split: if_splits)
    then have "handle_ok (owned T) k st" by (rule owners_okD(3) [OF ok])
    moreover have "same_on (owned ?T) (psys st) (psys st')" using same o by simp
    ultimately show ?thesis using owned_handle [of ?T j k, OF j] by (rule handle_ok_same) (simp add: o)
  qed
  with ok proxy show ?thesis by (simp add: owners_ok_def o one_owner_delete)
qed

lemma owners_ok_new:
  assumes ok: "owners_ok api H (T(i := None), Q, st)" and proxy: "proxy_ok H (owned (T(i := None)) \<union> set_option (tx_executor h)) st'"
    and disj: "set_option (tx_executor h) \<inter> owned (T(i := None)) = {}"
    and same: "same_on (owned (T(i := None))) (psys st) (psys st')"
    and h: "tx_state h = kStarted \<Longrightarrow> \<exists>r. tx_executor h = Some r \<and> connected (psys st') r"
  shows "owners_ok api H (T(i \<mapsto> h), Q, st')"
proof -
  let ?T = "T(i := None)"
  have o: "owned (T(i \<mapsto> h)) = owned ?T \<union> set_option (tx_executor h)" by (rule owned_upd)
  have "handle_ok (owned (T(i \<mapsto> h))) k st'" if k: "k \<in> ran (T(i \<mapsto> h))" for k
  proof (cases "k \<in> ran ?T")
    case True
    then obtain j where "?T j = Some k" by (auto simp: ran_def)
    then show ?thesis using handle_ok_same [OF owners_okD(3) [OF ok] same owned_handle] o by blast
  next
    case False
    then have "k = h" using k by (auto simp: ran_def split: if_splits)
    then show ?thesis using h o by (auto simp: handle_ok_def)
  qed
  moreover have "one_owner (T(i \<mapsto> h))" using one_owner_upd [of ?T h i] owners_okD(2) [OF ok] disj by simp
  ultimately show ?thesis using ok proxy o by (simp add: owners_ok_def)
qed

lemma owners_ok_handled:
  assumes ok: "owners_ok api H (T, Q, st)" and h: "T i = Some h" and d: "handled H (owned T) h h' st st'"
  shows "owners_ok api H (T(i \<mapsto> h'), Q, st')"
proof -
  let ?T = "T(i := None)"
  have o: "owned ?T = owned T - set_option (tx_executor h)" by (rule owned_others [OF owners_okD(2) [OF ok] h])
  have others: "handle_ok (owned ?T) k st" if j: "?T j = Some k" for j k
  proof -
    have "T j = Some k" using j by (simp split: if_splits)
    then show ?thesis using owners_okD(3) [OF ok] owned_handle [of ?T j k] j by (auto simp: handle_ok_def)
  qed
  have "handle_ok (owned (T(i \<mapsto> h'))) k st'" if k: "k \<in> ran (T(i \<mapsto> h'))" for k
  proof (cases "k \<in> ran ?T")
    case True
    then obtain j where j: "?T j = Some k" by (auto simp: ran_def)
    have same: "same_on (owned ?T) (psys st) (psys st')" using d o by (simp add: handled_def)
    show ?thesis using handle_ok_same [OF others [OF j] same owned_handle [of ?T j k, OF j]] owned_upd [of T i h'] by blast
  next
    case False
    then have "k = h'" using k by (auto simp: ran_def split: if_splits)
    then show ?thesis using d owned_upd [of T i h'] by (auto simp: handled_def handle_ok_def)
  qed
  moreover have "set_option (tx_executor h') \<inter> owned ?T = {}" using d o by (auto simp: handled_def)
  then have "one_owner (T(i \<mapsto> h'))"
    using one_owner_upd [of ?T h' i] one_owner_delete [OF owners_okD(2) [OF ok], of i] by simp
  moreover have "proxy_ok H (owned (T(i \<mapsto> h'))) st'" using d by (simp add: handled_def owned_upd [of T i h'] o)
  ultimately show ?thesis using ok by (simp add: owners_ok_def)
qed

lemma owners_ok_begun:
  assumes ok: "owners_ok api H (T, Q, st)" and i: "T i = None" and b: "begun H (owned T) hdl st st'"
  shows "owners_ok api H (T(i := hdl), Q, st')"
proof (cases hdl)
  case None
  have "T(i := None) = T" using i by auto
  moreover have "owners_ok api H (T, Q, st')" by (rule owners_ok_same [OF ok]) (use None b in \<open>simp_all add: begun_def\<close>)
  ultimately show ?thesis using None by simp
next
  case (Some h)
  have "T(i := None) = T" using i by auto
  with Some b owners_ok_new [of api H T i Q st h st'] ok show ?thesis by (auto simp: begun_def)
qed

lemma owners_ok_calls:
  assumes "owners_ok api H (T, Q, st)"
    and "\<And>ctx sql_str args. c = Running ctx sql_str args \<Longrightarrow> serves api args"
  shows "owners_ok api H (T, Q(i \<mapsto> c), st)"
  using assms by (auto simp: owners_ok_def)

lemma end_returns:
  assumes "hashmap_laws H" and "proxy_ok H U st" and "handle_ok U h st" and "takes_tasks F"
  shows "\<exists>ctx' h' st'. (if rollback then Rollback else Commit) F api H ctx (Some h) st = Inr (ctx', Some h', st') \<and>
    handled H U h h' st st'"
  using finish_returns [OF assms] by (cases rollback) (simp_all add: Commit_def Rollback_def)

text \<open>The environment of the clients: the hash map and the thread pool do what they document, allocation
  succeeds and the server accepts connections.\<close>

definition in_service :: "'f framework \<Rightarrow> 'w mysql_api \<Rightarrow> 'm hashmap_api \<Rightarrow> bool" where
  "in_service F api H \<longleftrightarrow> hashmap_laws H \<and> no_oom api \<and> accepts api \<and> takes_tasks F"

context connection_user begin

lemma query_keeps_owners:
  assumes ok: "owners_ok api H (T, Q, st)" and E: "in_service F api H" and res: "suits res" "results_wf (psys st) res"
    and q: "Query F api H run ctx res st = Inr (ctx', res', st')"
  shows "owners_ok api H (T, Q, st')"
proof -
  have "settled H (owned T) st st' res'"
    using query_settles [of H "owned T" st api F res ctx] owners_okD(1) [OF ok] E res q by (auto simp: in_service_def)
  then show ?thesis by (intro owners_ok_same [OF ok]) (simp_all add: settled_def)
qed

lemma statement_keeps_owners:
  assumes ok: "owners_ok api H (T, Q, st)" and E: "in_service F api H" and h: "T i = Some h"
    and res: "suits res" "results_wf (psys st) res"
    and q: "Query_tx F api H run ctx (Some h) res st = Inr (ctx', hdl, res', st')"
  shows "owners_ok api H (T(i := hdl), Q, st')"
proof -
  note D = owners_okD [OF ok]
  obtain h' where "hdl = Some h'" "handled H (owned T) h h' st st'"
    using Query_tx_returns [OF D(1) D(3) [OF h] res, of F api ctx] E q by (auto simp: in_service_def)
  then show ?thesis using owners_ok_handled [OF ok h] by simp
qed

lemma task_keeps_owners:
  assumes ok: "owners_ok api H (T, Q, st)" and E: "in_service F api H" and res: "suits (MysqlResults_new m)"
    and t: "async_finish F api H run m ctx st = Inr (fut, ctx', hdl, st')"
  shows "owners_ok api H (T, Q, st')"
proof -
  have e: "hashmap_laws H" "no_oom api" "accepts api" using E by (simp_all add: in_service_def)
  have "proxy_ok H (owned T) st' \<and> same_on (owned T) (psys st) (psys st')"
    by (rule async_finish_settles [OF e(1) owners_okD(1) [OF ok] e(2,3) res, of F ctx]) (use t in simp)
  then show ?thesis by (intro owners_ok_same [OF ok]) simp_all
qed

end

end
