(* ===== verification/Example_Fiber.thy ===== *)
theory Example_Fiber
  imports Example_Table Client_Owners
begin

text \<open>
  The example client \<^verbatim>\<open>examples/mysql/client/fiber/fiber_client.cc\<close>: a program over the proxy. Each test is the list
  of its statements, run in a scope that holds its local variables; a return leaves the list early, and the
  destructors of the locals run in any case. Only a \<^verbatim>\<open>MysqlResults\<close> of native rows and a
  transaction handle have destructors that do something.
\<close>

section \<open>The runtime and a scope\<close>

text \<open>\<open>rt_random\<close> is \<^verbatim>\<open>trpc::Random<uint8_t>(0, 255)\<close>, \<open>rt_set_timeout\<close> is \<^verbatim>\<open>ClientContext::SetTimeout\<close>, and
  \<open>rt_inline\<close> says that \<^verbatim>\<open>Then\<close> on a completed future runs the continuation in the fiber that calls it.\<close>

record ('m, 'w, 'f) runtime =
  rt_fw :: "'f framework"
  rt_api :: "'w mysql_api"
  rt_map :: "'m hashmap_api"
  rt_printf :: "string \<Rightarrow> printf_arg list \<Rightarrow> string"
  rt_random :: "'f \<Rightarrow> 8 word \<times> 'f"
  rt_set_timeout :: "nat \<Rightarrow> call_context \<Rightarrow> 'f \<Rightarrow> call_context \<times> 'f"
  rt_inline :: bool

text \<open>The locals of a test: its context, the last status, and its results objects, those of typed rows by
  the name of their variable. \<open>sc_log\<close> is what was logged.\<close>

record ('m, 'w, 'f) scope =
  sc_ctx :: call_context
  sc_status :: status
  sc_exec :: exec_results
  sc_typed :: "string \<Rightarrow> out_value list results"
  sc_native :: "view list results"
  sc_handle :: "tx option"
  sc_out :: ostream
  sc_log :: "string list"
  sc_proxy :: "('m, 'w, 'f) proxy"

type_synonym ('m, 'w, 'f) io = "ostream \<times> string list \<times> ('m, 'w, 'f) proxy"

text \<open>A statement says whether the test goes on.\<close>

type_synonym ('m, 'w, 'f) statement = "('m, 'w, 'f) scope \<Rightarrow> (bool \<times> ('m, 'w, 'f) scope) result"

fun run_block :: "('m, 'w, 'f) statement list \<Rightarrow> ('m, 'w, 'f) scope \<Rightarrow> ('m, 'w, 'f) scope result" where
  "run_block [] sc = Inr sc"
| "run_block (c # cs) sc = bindE (c sc) (\<lambda>(on, sc). if on then run_block cs sc else Inr sc)"

text \<open>Every test starts with \<^verbatim>\<open>MakeClientContext\<close>.\<close>

definition enter :: "('m, 'w, 'f) runtime \<Rightarrow> ('m, 'w, 'f) io \<Rightarrow> ('m, 'w, 'f) scope" where
  "enter rt = (\<lambda>(out, err, st).
     let (ctx, w) = new_context (rt_fw rt) (fw st)
     in \<lparr>sc_ctx = ctx, sc_status = status_ok, sc_exec = MysqlResults_new OnlyExec,
         sc_typed = (\<lambda>_. MysqlResults_new BindType), sc_native = MysqlResults_new NativeString,
         sc_handle = None, sc_out = out, sc_log = err, sc_proxy = st\<lparr>fw := w\<rparr>\<rparr>)"

definition drop_native :: "('m, 'w, 'f) runtime \<Rightarrow> ('m, 'w, 'f) scope \<Rightarrow> ('m, 'w, 'f) scope result" where
  "drop_native rt sc =
     bindE (drop_results (rt_api rt) (sc_native sc) (sc_proxy sc)) (\<lambda>st. Inr (sc\<lparr>sc_proxy := st\<rparr>))"

definition drop_tx :: "('m, 'w, 'f) runtime \<Rightarrow> ('m, 'w, 'f) scope \<Rightarrow> ('m, 'w, 'f) scope result" where
  "drop_tx rt sc =
     bindE (drop_handle (rt_api rt) (sc_handle sc) (sc_proxy sc)) (\<lambda>st. Inr (sc\<lparr>sc_proxy := st\<rparr>))"

definition in_scope ::
  "('m, 'w, 'f) runtime \<Rightarrow> (('m, 'w, 'f) scope \<Rightarrow> ('m, 'w, 'f) scope result) \<Rightarrow> ('m, 'w, 'f) statement list \<Rightarrow>
   ('m, 'w, 'f) io \<Rightarrow> ('m, 'w, 'f) io result" where
  "in_scope rt destroy body io =
     bindE (run_block body (enter rt io)) (\<lambda>sc.
     bindE (destroy sc) (\<lambda>sc. Inr (sc_out sc, sc_log sc, sc_proxy sc)))"

section \<open>Statements\<close>

definition say :: "string \<Rightarrow> ('m, 'w, 'f) statement" where
  "say s sc = Inr (True, sc\<lparr>sc_out := put_text s (sc_out sc)\<rparr>)"

definition say_line :: "string \<Rightarrow> ('m, 'w, 'f) statement" where
  "say_line s sc = Inr (True, sc\<lparr>sc_out := endl (put_text s (sc_out sc))\<rparr>)"

definition say_lines :: "string list \<Rightarrow> ('m, 'w, 'f) scope \<Rightarrow> ('m, 'w, 'f) scope" where
  "say_lines ss sc = sc\<lparr>sc_out := fold (\<lambda>s os. endl (put_text s os)) ss (sc_out sc)\<rparr>"

definition log_status :: "('m, 'w, 'f) runtime \<Rightarrow> string \<Rightarrow> ('m, 'w, 'f) scope \<Rightarrow> ('m, 'w, 'f) scope" where
  "log_status rt f sc =
     sc\<lparr>sc_log := sc_log sc @ [format_string (rt_fw rt) f [FText (status_to_string (rt_fw rt) (sc_status sc))]]\<rparr>"

text \<open>\<^verbatim>\<open>ERROR_CHECK\<close>, which logs and returns.\<close>

definition ERROR_CHECK :: "('m, 'w, 'f) runtime \<Rightarrow> ('m, 'w, 'f) statement" where
  "ERROR_CHECK rt sc =
     (if status_OK (sc_status sc) then Inr (True, sc) else Inr (False, log_status rt ''status: {}'' sc))"

text \<open>The same unless a condition holds as well.\<close>

definition check_also :: "('m, 'w, 'f) runtime \<Rightarrow> (('m, 'w, 'f) scope \<Rightarrow> bool) \<Rightarrow> ('m, 'w, 'f) statement" where
  "check_also rt P sc =
     (if status_OK (sc_status sc) \<and> P sc then Inr (True, sc) else Inr (False, log_status rt ''status: {}'' sc))"

definition TRPC_ASSERT :: "(('m, 'w, 'f) scope \<Rightarrow> bool result) \<Rightarrow> ('m, 'w, 'f) statement" where
  "TRPC_ASSERT P sc = bindE (P sc) (\<lambda>b. bindE (assertE b) (\<lambda>_. Inr (True, sc)))"

definition make_context :: "('m, 'w, 'f) runtime \<Rightarrow> ('m, 'w, 'f) statement" where
  "make_context rt sc =
     (let (ctx, w) = new_context (rt_fw rt) (fw (sc_proxy sc))
      in Inr (True, sc\<lparr>sc_ctx := ctx, sc_proxy := (sc_proxy sc)\<lparr>fw := w\<rparr>\<rparr>))"

text \<open>\<^verbatim>\<open>s = proxy->...\<close>: the calls of the proxy. The status a call returns is that of the context.\<close>

definition returned :: "call_context \<Rightarrow> ('m, 'w, 'f) proxy \<Rightarrow> ('m, 'w, 'f) scope \<Rightarrow> ('m, 'w, 'f) scope" where
  "returned ctx st sc = sc\<lparr>sc_ctx := ctx, sc_status := ctx_status ctx, sc_proxy := st\<rparr>"

definition run_rows :: "('m, 'w, 'f) runtime \<Rightarrow> string \<Rightarrow> input_arg list \<Rightarrow> (view list, 'w) runner" where
  "run_rows rt query args = run_native (format_string (rt_fw rt)) (rt_printf rt) (rt_api rt) query args"

definition run_tuples ::
  "('m, 'w, 'f) runtime \<Rightarrow> out_type list \<Rightarrow> string \<Rightarrow> input_arg list \<Rightarrow> (out_value list, 'w) runner" where
  "run_tuples rt Ts query args = run_typed (format_string (rt_fw rt)) (rt_api rt) Ts query args"

definition query_typed ::
  "('m, 'w, 'f) runtime \<Rightarrow> string \<Rightarrow> out_type list \<Rightarrow> string \<Rightarrow> input_arg list \<Rightarrow> ('m, 'w, 'f) statement" where
  "query_typed rt v Ts query args sc =
     bindE (Query (rt_fw rt) (rt_api rt) (rt_map rt) (run_tuples rt Ts query args) (sc_ctx sc) (sc_typed sc v) (sc_proxy sc))
       (\<lambda>(ctx, res, st). Inr (True, returned ctx st (sc\<lparr>sc_typed := (sc_typed sc)(v := res)\<rparr>)))"

definition execute_typed ::
  "('m, 'w, 'f) runtime \<Rightarrow> string \<Rightarrow> out_type list \<Rightarrow> string \<Rightarrow> input_arg list \<Rightarrow> ('m, 'w, 'f) statement" where
  "execute_typed rt v Ts query args sc =
     bindE (proxy_Execute (rt_fw rt) (rt_api rt) (rt_map rt) (run_tuples rt Ts query args) (sc_ctx sc) (sc_typed sc v) (sc_proxy sc))
       (\<lambda>(ctx, res, st). Inr (True, returned ctx st (sc\<lparr>sc_typed := (sc_typed sc)(v := res)\<rparr>)))"

definition query_native :: "('m, 'w, 'f) runtime \<Rightarrow> string \<Rightarrow> input_arg list \<Rightarrow> ('m, 'w, 'f) statement" where
  "query_native rt query args sc =
     bindE (Query (rt_fw rt) (rt_api rt) (rt_map rt) (run_rows rt query args) (sc_ctx sc) (sc_native sc) (sc_proxy sc))
       (\<lambda>(ctx, res, st). Inr (True, returned ctx st (sc\<lparr>sc_native := res\<rparr>)))"

definition execute :: "('m, 'w, 'f) runtime \<Rightarrow> string \<Rightarrow> input_arg list \<Rightarrow> ('m, 'w, 'f) statement" where
  "execute rt query args sc =
     bindE (proxy_Execute (rt_fw rt) (rt_api rt) (rt_map rt) (run_exec (rt_api rt) query args) (sc_ctx sc) (sc_exec sc) (sc_proxy sc))
       (\<lambda>(ctx, res, st). Inr (True, returned ctx st (sc\<lparr>sc_exec := res\<rparr>)))"

definition begin_tx :: "('m, 'w, 'f) runtime \<Rightarrow> ('m, 'w, 'f) statement" where
  "begin_tx rt sc =
     bindE (Begin (rt_fw rt) (rt_api rt) (rt_map rt) (sc_ctx sc) (sc_handle sc) (sc_proxy sc))
       (\<lambda>(ctx, hdl, st). Inr (True, returned ctx st (sc\<lparr>sc_handle := hdl\<rparr>)))"

definition execute_tx :: "('m, 'w, 'f) runtime \<Rightarrow> string \<Rightarrow> input_arg list \<Rightarrow> ('m, 'w, 'f) statement" where
  "execute_tx rt query args sc =
     bindE (proxy_Execute_tx (rt_fw rt) (rt_api rt) (rt_map rt) (run_exec (rt_api rt) query args)
              (sc_ctx sc) (sc_handle sc) (sc_exec sc) (sc_proxy sc))
       (\<lambda>(ctx, hdl, res, st). Inr (True, returned ctx st (sc\<lparr>sc_handle := hdl, sc_exec := res\<rparr>)))"

definition query_tx :: "('m, 'w, 'f) runtime \<Rightarrow> string \<Rightarrow> input_arg list \<Rightarrow> ('m, 'w, 'f) statement" where
  "query_tx rt query args sc =
     bindE (Query_tx (rt_fw rt) (rt_api rt) (rt_map rt) (run_rows rt query args)
              (sc_ctx sc) (sc_handle sc) (sc_native sc) (sc_proxy sc))
       (\<lambda>(ctx, hdl, res, st). Inr (True, returned ctx st (sc\<lparr>sc_handle := hdl, sc_native := res\<rparr>)))"

definition end_tx :: "('m, 'w, 'f) runtime \<Rightarrow> bool \<Rightarrow> ('m, 'w, 'f) statement" where
  "end_tx rt rollback sc =
     bindE ((if rollback then Rollback else Commit) (rt_fw rt) (rt_api rt) (rt_map rt) (sc_ctx sc) (sc_handle sc) (sc_proxy sc))
       (\<lambda>(ctx, hdl, st). Inr (True, returned ctx st (sc\<lparr>sc_handle := hdl\<rparr>)))"

definition print_table :: "('m, 'w, 'f) statement" where
  "print_table sc =
     bindE (PrintResultTable (ress (psys (sc_proxy sc))) (sc_native sc) (sc_out sc)) (\<lambda>out. Inr (True, sc\<lparr>sc_out := out\<rparr>))"

text \<open>\<^verbatim>\<open>std::get<j>(res.ResultSet()[0])\<close>.\<close>

definition first_row :: "string \<Rightarrow> nat \<Rightarrow> ('m, 'w, 'f) scope \<Rightarrow> out_value result" where
  "first_row v j sc = bindE (nthE (ResultSet (sc_typed sc v)) 0) (\<lambda>row. nthE row j)"

text \<open>\<^verbatim>\<open>res.ResultSet()[0][0]\<close> of native rows, and its characters.\<close>

definition first_view :: "('m, 'w, 'f) scope \<Rightarrow> view result" where
  "first_view sc = bindE (nthE (ResultSet (sc_native sc)) 0) (\<lambda>row. nthE row 0)"

definition view_string :: "view \<Rightarrow> ('m, 'w, 'f) scope \<Rightarrow> string result" where
  "view_string v sc = read_view (ress (psys (sc_proxy sc))) v"

text \<open>The types of a \<^verbatim>\<open>std::get\<close> are static.\<close>

fun the_time :: "out_value \<Rightarrow> MysqlTime" where
  "the_time (VTime t) = t"
| "the_time _ = MysqlTime_default"

fun the_blob :: "out_value \<Rightarrow> MysqlBlob" where
  "the_blob (VBlob b) = b"
| "the_blob _ = MysqlBlob_default"

fun the_string :: "out_value \<Rightarrow> string" where
  "the_string (VString s) = s"
| "the_string _ = []"

section \<open>The tests\<close>

fun random_bytes :: "('m, 'w, 'f) runtime \<Rightarrow> nat \<Rightarrow> 'f \<Rightarrow> string \<times> 'f" where
  "random_bytes rt 0 w = ([], w)"
| "random_bytes rt (Suc n) w =
     (let (b, w) = rt_random rt w; (bs, w) = random_bytes rt n w in (char_of (unat b) # bs, w))"

definition GenRandomBlob :: "('m, 'w, 'f) runtime \<Rightarrow> nat \<Rightarrow> ('m, 'w, 'f) proxy \<Rightarrow> MysqlBlob \<times> ('m, 'w, 'f) proxy" where
  "GenRandomBlob rt n st = (let (bs, w) = random_bytes rt n (fw st) in (MysqlBlob_of_string bs, st\<lparr>fw := w\<rparr>))"

definition say_user :: "string \<Rightarrow> ('m, 'w, 'f) statement" where
  "say_user v sc =
     bindE (first_row v 0 sc) (\<lambda>i. bindE (first_row v 1 sc) (\<lambda>username.
       say_line (''id: '' @ show_value i @ '', username: '' @ the_string username) sc))"

definition TestQuery :: "('m, 'w, 'f) runtime \<Rightarrow> ('m, 'w, 'f) io \<Rightarrow> ('m, 'w, 'f) io result" where
  "TestQuery rt = in_scope rt (drop_native rt)
     [say (''TestQuery'' @ [new_line]),
      query_typed rt ''res'' [OInt32, OString] ''select id, username from users where id = ? and username = ?''
        [InScalar (Int32 3), InString ''carol''],
      ERROR_CHECK rt,
      say_user ''res'',
      query_native rt ''select * from users'' [],
      ERROR_CHECK rt,
      say [new_line, new_line],
      print_table]"

definition insert_jack :: string where
  "insert_jack = ''insert into users (username, email, created_at)values (\"jack\", \"jack@abc.com\", ?)''"

definition example_day :: MysqlTime where
  "example_day = SetDay 10 (SetMonth 9 (SetYear 2024 MysqlTime_default))"

definition one_row_affected :: "('m, 'w, 'f) scope \<Rightarrow> bool" where
  "one_row_affected sc \<longleftrightarrow> GetAffectedRowNum (sc_exec sc) = 1"

definition say_email :: "('m, 'w, 'f) statement" where
  "say_email sc =
     bindE (first_row ''query_res'' 0 sc) (\<lambda>v. say_line (''jack's email: '' @ the_string v) sc)"

definition TestUpdate :: "('m, 'w, 'f) runtime \<Rightarrow> ('m, 'w, 'f) io \<Rightarrow> ('m, 'w, 'f) io result" where
  "TestUpdate rt = in_scope rt Inr
     [say ([new_line, new_line] @ ''TestUpdate'' @ [new_line]),
      execute rt insert_jack [InTime example_day],
      ERROR_CHECK rt,
      TRPC_ASSERT (\<lambda>sc. Inr (one_row_affected sc)),
      say (''Insert one'' @ [new_line]),
      make_context rt,
      execute_typed rt ''query_res'' [OString, OMysqlTime] ''select email, created_at from users where username = ?''
        [InString ''jack''],
      ERROR_CHECK rt,
      say_email,
      make_context rt,
      execute rt ''delete from users where username = \"jack\"'' [],
      ERROR_CHECK rt,
      TRPC_ASSERT (\<lambda>sc. Inr (one_row_affected sc)),
      say (''Delete one'' @ [new_line]),
      make_context rt,
      execute_typed rt ''query_res'' [OString, OMysqlTime] ''select email, created_at from users where username = ?''
        [InString ''jack''],
      ERROR_CHECK rt,
      (\<lambda>sc. if ResultSet (sc_typed sc ''query_res'') = [] then say_line ''No user \"jack\" in users'' sc else Inr (True, sc))]"

definition say_times :: "('m, 'w, 'f) runtime \<Rightarrow> ('m, 'w, 'f) statement" where
  "say_times rt sc =
     bindE (first_view sc) (\<lambda>str_time. bindE (first_row ''time_res'' 0 sc) (\<lambda>v.
       bindE (view_string str_time sc) (\<lambda>text.
         let my_time = the_time v
         in Inr (True, say_lines
              [''NativeString: '' @ text,
               ''MysqlTime: '' @ format_string (rt_fw rt) ''{}-{}-{} {}:{}:{}''
                 [FScalar (UInt32 (GetYear my_time)), FScalar (UInt32 (GetMonth my_time)),
                  FScalar (UInt32 (GetDay my_time)), FScalar (UInt32 (GetHour my_time)),
                  FScalar (UInt32 (GetMinute my_time)), FScalar (UInt32 (GetSecond my_time))],
               ''MysqlTime: '' @ ToString (rt_printf rt) my_time] sc))))"

definition TestTime :: "('m, 'w, 'f) runtime \<Rightarrow> ('m, 'w, 'f) io \<Rightarrow> ('m, 'w, 'f) io result" where
  "TestTime rt = in_scope rt (drop_native rt)
     [say ([new_line] @ ''TestTime'' @ [new_line]),
      query_native rt ''select created_at from users'' [],
      ERROR_CHECK rt,
      query_typed rt ''time_res'' [OMysqlTime] ''select created_at from users'' [],
      ERROR_CHECK rt,
      say_times rt,
      (\<lambda>sc. let new_time = SetHour 21 example_day;
                new_time_from_str = FromString (ToString (rt_printf rt) new_time) MysqlTime_default
            in Inr (True, say_lines [ToString (rt_printf rt) new_time, ToString (rt_printf rt) new_time_from_str] sc))]"

definition TestCommit :: "('m, 'w, 'f) runtime \<Rightarrow> ('m, 'w, 'f) io \<Rightarrow> ('m, 'w, 'f) io result" where
  "TestCommit rt = in_scope rt (\<lambda>sc. bindE (drop_tx rt sc) (drop_native rt))
     [say ([new_line] @ ''TestCommit'' @ [new_line]),
      query_native rt ''select * from users'' [],
      ERROR_CHECK rt,
      say (''Before transaction'' @ [new_line, new_line]),
      print_table,
      begin_tx rt,
      ERROR_CHECK rt,
      TRPC_ASSERT (\<lambda>sc. Inr (sc_handle sc \<noteq> None)),
      execute_tx rt insert_jack [InTime (FromString ''2024-09-10'' MysqlTime_default)],
      check_also rt one_row_affected,
      end_tx rt False,
      ERROR_CHECK rt,
      TRPC_ASSERT (\<lambda>sc. bindE (deref_handle (sc_handle sc)) (\<lambda>h. Inr (GetState h = kCommitted))),
      query_native rt ''select * from users'' [],
      ERROR_CHECK rt,
      say ([new_line, new_line] @ ''After commit'' @ [new_line, new_line]),
      print_table,
      execute rt ''delete from users where username = ?'' [InString ''jack''],
      ERROR_CHECK rt]"

definition TestRollback :: "('m, 'w, 'f) runtime \<Rightarrow> ('m, 'w, 'f) io \<Rightarrow> ('m, 'w, 'f) io result" where
  "TestRollback rt = in_scope rt (\<lambda>sc. bindE (drop_native rt sc) (drop_tx rt))
     [say ([new_line, new_line] @ ''TestRollback'' @ [new_line]),
      begin_tx rt,
      ERROR_CHECK rt,
      execute_tx rt insert_jack [InTime example_day],
      check_also rt one_row_affected,
      query_tx rt ''select * from users where username = ?'' [InString ''jack''],
      check_also rt (\<lambda>sc. length (ResultSet (sc_native sc)) = 1),
      end_tx rt True,
      ERROR_CHECK rt,
      TRPC_ASSERT (\<lambda>sc. bindE (deref_handle (sc_handle sc)) (\<lambda>h. Inr (GetState h = kRollBacked))),
      query_native rt ''select * from users where username = ?'' [InString ''jack''],
      ERROR_CHECK rt,
      (\<lambda>sc. if ResultSet (sc_native sc) = [] then Inr (True, sc)
            else Inr (False, sc\<lparr>sc_log := sc_log sc @ [''Unexpected.'']\<rparr>)),
      say_line ''Rollback transaction end.'']"

text \<open>\<^verbatim>\<open>TestError\<close> prints the status of a failed query and goes on.\<close>

definition say_error :: "('m, 'w, 'f) runtime \<Rightarrow> ('m, 'w, 'f) statement" where
  "say_error rt sc =
     (if status_OK (sc_status sc) then Inr (True, sc)
      else Inr (True, log_status rt ''Status:{}'' (say_lines [status_to_string (rt_fw rt) (sc_status sc)] sc)))"

definition set_timeout :: "('m, 'w, 'f) runtime \<Rightarrow> nat \<Rightarrow> ('m, 'w, 'f) statement" where
  "set_timeout rt n sc =
     (let (ctx, w) = rt_set_timeout rt n (sc_ctx sc) (fw (sc_proxy sc))
      in Inr (True, sc\<lparr>sc_ctx := ctx, sc_proxy := (sc_proxy sc)\<lparr>fw := w\<rparr>\<rparr>))"

definition TestError :: "('m, 'w, 'f) runtime \<Rightarrow> ('m, 'w, 'f) io \<Rightarrow> ('m, 'w, 'f) io result" where
  "TestError rt = in_scope rt Inr
     [say ([new_line] @ ''TestError'' @ [new_line]),
      set_timeout rt 0,
      query_typed rt ''res'' [OInt32] ''select id from users where username = ?'' [InString ''alice''],
      say_error rt,
      make_context rt,
      query_typed rt ''res'' [OInt32] ''select id from users where usernames = ?'' [InString ''alice''],
      say_error rt,
      make_context rt,
      query_typed rt ''invalid_template_res'' [OInt32] ''select email from users where username = ?'' [InString ''alice''],
      say_error rt,
      make_context rt,
      query_typed rt ''too_less_args_res'' [OInt32, OString] ''select id, email, username from users where username = ?''
        [InString ''alice''],
      say_error rt]"

text \<open>\<^verbatim>\<open>TestFiberAsync\<close>: the continuation waits for a latch that the test opens after \<^verbatim>\<open>Then\<close> has returned. If the
  statement was handed over, its task and the continuation run while the test waits for the future; if it was not,
  the future is completed already and a continuation that runs at once waits for good.\<close>

definition fiber_async_result ::
  "('m, 'w, 'f) runtime \<Rightarrow> view list results future \<Rightarrow> ('m, 'w, 'f) io \<Rightarrow> ('m, 'w, 'f) io result" where
  "fiber_async_result rt fut = (\<lambda>(out, err, st).
     case fut of
       Pending \<Rightarrow> Inl Diverges
     | Failed msg \<Rightarrow> Inr (out, err @ [msg, msg], st)
     | Ready value \<Rightarrow>
         let res = fst (MysqlResults_move value) in
         bindE (PrintResultTable (ress (psys st)) res out) (\<lambda>out.
         bindE (drop_results (rt_api rt) res st) (\<lambda>st. Inr (out, err, st))))"

definition TestFiberAsync :: "('m, 'w, 'f) runtime \<Rightarrow> ('m, 'w, 'f) io \<Rightarrow> ('m, 'w, 'f) io result" where
  "TestFiberAsync rt io =
     (let sc = enter rt io;
          out = put_text ([new_line] @ ''TestFiberAsync'' @ [new_line]) (sc_out sc) in
      bindE (async_start (rt_fw rt) (sc_ctx sc) (sc_proxy sc)) (\<lambda>(s, ctx, hdl, st).
        case s of
          Inl fut \<Rightarrow>
            if rt_inline rt \<and> fut \<noteq> Pending then Inl Diverges
            else fiber_async_result rt fut (put_text (''do something'' @ [new_line]) out, sc_log sc, st)
        | Inr _ \<Rightarrow>
            bindE (async_finish (rt_fw rt) (rt_api rt) (rt_map rt) (run_rows rt ''select * from users'' []) NativeString ctx st)
              (\<lambda>(fut, ctx, hdl, st).
                 fiber_async_result rt fut (put_text (''do something'' @ [new_line]) out, sc_log sc, st))))"

text \<open>The three ways to receive a blob.\<close>

definition insert_blob :: string where
  "insert_blob = ''insert into users (username, email, meta)values (\"jack\", \"jack@abc.com\", ?)''"

definition say_same :: "('m, 'w, 'f) statement" where
  "say_same = say (''same blob'' @ [new_line])"

definition blob_block :: "('m, 'w, 'f) runtime \<Rightarrow> MysqlBlob \<Rightarrow> ('m, 'w, 'f) statement list" where
  "blob_block rt blob =
     [execute rt insert_blob [InBlob blob],
      ERROR_CHECK rt,
      say (''blob inserted.'' @ [new_line]),
      query_typed rt ''bind_blob_res'' [OMysqlBlob] ''select meta from users where username = ?'' [InString ''jack''],
      ERROR_CHECK rt,
      (\<lambda>sc. bindE (first_row ''bind_blob_res'' 0 sc) (\<lambda>v.
        if MysqlBlob_eq (the_blob v) blob then say_same sc else Inr (True, sc))),
      query_typed rt ''bind_str_res'' [OString] ''select meta from users where username = ?'' [InString ''jack''],
      ERROR_CHECK rt,
      (\<lambda>sc. bindE (first_row ''bind_str_res'' 0 sc) (\<lambda>v.
        if the_string v = MysqlBlob_AsStringView blob then say_same sc else Inr (True, sc))),
      query_native rt ''select meta from users where username = ?'' [InString ''jack''],
      ERROR_CHECK rt,
      (\<lambda>sc. bindE (first_view sc) (\<lambda>str_view. bindE (view_string str_view sc) (\<lambda>s.
        if MysqlBlob_eq (MysqlBlob_of_string s) blob then say_same sc else Inr (True, sc)))),
      execute rt ''delete from users where username = ?'' [InString ''jack''],
      ERROR_CHECK rt]"

definition TestBlob :: "('m, 'w, 'f) runtime \<Rightarrow> ('m, 'w, 'f) io \<Rightarrow> ('m, 'w, 'f) io result" where
  "TestBlob rt = (\<lambda>(out, err, st).
     let out = put_text ([new_line] @ ''TestBlob'' @ [new_line]) out;
         (blob, st) = GenRandomBlob rt 1024 st
     in in_scope rt (drop_native rt) (blob_block rt blob) (out, err, st))"

text \<open>All of them, on a proxy the framework found.\<close>

definition Run :: "('m, 'w, 'f) runtime \<Rightarrow> ('m, 'w, 'f) io \<Rightarrow> (int \<times> ('m, 'w, 'f) io) result" where
  "Run rt io =
     bindE (foldE (\<lambda>test. test rt)
       [TestQuery, TestUpdate, TestCommit, TestRollback, TestError, TestFiberAsync, TestBlob, TestTime] io) (\<lambda>io. Inr (0, io))"

end
