(* ===== verification/Example_Future.thy ===== *)
theory Example_Future
  imports Example_Fiber
begin

text \<open>
  The example client \<^verbatim>\<open>examples/mysql/client/future/future_client.cc\<close>: queries and a transaction by futures and
  their continuations, in the schedule of \<open>Proxy_Async\<close>, where a task and its continuations run at once. A wait for
  a future that is never completed is \<open>Diverges\<close>.
\<close>

section \<open>A query\<close>

definition BlockingGet :: "'a future \<Rightarrow> ('a + string) result" where
  "BlockingGet fut = (case fut of Ready x \<Rightarrow> Inr (Inl x) | Failed msg \<Rightarrow> Inr (Inr msg) | Pending \<Rightarrow> Inl Diverges)"

text \<open>What both tests do with an exception: it is logged and printed.\<close>

definition log_twice :: "string \<Rightarrow> ('m, 'w, 'f) scope \<Rightarrow> ('m, 'w, 'f) scope" where
  "log_twice msg sc = sc\<lparr>sc_log := sc_log sc @ [msg, msg]\<rparr>"

definition print_tuples :: "out_value list results + string \<Rightarrow> ('m, 'w, 'f) scope \<Rightarrow> (unit future \<times> ('m, 'w, 'f) scope) result" where
  "print_tuples f sc =
     (case f of
        Inr msg \<Rightarrow> Inr (Failed msg, sc)
      | Inl value \<Rightarrow>
          bindE (PrintResult (ResultSet (fst (MysqlResults_move value))) (sc_out sc)) (\<lambda>out. Inr (Ready (), sc\<lparr>sc_out := out\<rparr>)))"

definition TestAsyncQuery :: "('m, 'w, 'f) runtime \<Rightarrow> ('m, 'w, 'f) io \<Rightarrow> ('m, 'w, 'f) io result" where
  "TestAsyncQuery rt = in_scope rt Inr
     [\<lambda>sc. bindE (AsyncQuery (rt_fw rt) (rt_api rt) (rt_map rt)
                   (run_tuples rt [OInt32, OString] ''select id, username from users where id = ?'' [InScalar (Int32 3)])
                   BindType (sc_ctx sc) (sc_proxy sc)) (\<lambda>(fut, ctx, hdl, st).
           bindE (and_then fut print_tuples (sc\<lparr>sc_ctx := ctx, sc_proxy := st\<rparr>)) (\<lambda>(fut, sc).
           bindE (say (''do something'' @ [new_line]) sc) (\<lambda>(_, sc).
           bindE (BlockingGet fut) (\<lambda>f.
             case f of Inl _ \<Rightarrow> Inr (True, sc) | Inr msg \<Rightarrow> Inr (False, log_twice msg sc)))))]"

section \<open>A transaction\<close>

definition async_rows ::
  "('m, 'w, 'f) runtime \<Rightarrow> string \<Rightarrow> input_arg list \<Rightarrow> ('m, 'w, 'f) scope \<Rightarrow>
   (view list results future \<times> ('m, 'w, 'f) scope) result" where
  "async_rows rt query args sc =
     bindE (AsyncQuery_tx (rt_fw rt) (rt_api rt) (rt_map rt) (run_rows rt query args) NativeString
              (sc_ctx sc) (sc_handle sc) (sc_proxy sc)) (\<lambda>(fut, ctx, hdl, st).
       Inr (fut, sc\<lparr>sc_ctx := ctx, sc_handle := hdl, sc_proxy := st\<rparr>))"

definition async_exec ::
  "('m, 'w, 'f) runtime \<Rightarrow> string \<Rightarrow> input_arg list \<Rightarrow> ('m, 'w, 'f) scope \<Rightarrow>
   (exec_results future \<times> ('m, 'w, 'f) scope) result" where
  "async_exec rt query args sc =
     bindE (AsyncExecute_tx (rt_fw rt) (rt_api rt) (rt_map rt) (run_exec (rt_api rt) query args) OnlyExec
              (sc_ctx sc) (sc_handle sc) (sc_proxy sc)) (\<lambda>(fut, ctx, hdl, st).
       Inr (fut, sc\<lparr>sc_ctx := ctx, sc_handle := hdl, sc_proxy := st\<rparr>))"

text \<open>A continuation prints the table of the results it takes out of the future, goes on, and destroys them.\<close>

definition with_table ::
  "('m, 'w, 'f) runtime \<Rightarrow> string \<Rightarrow> string \<Rightarrow>
   (('m, 'w, 'f) scope \<Rightarrow> ('a future \<times> ('m, 'w, 'f) scope) result) \<Rightarrow>
   view list results + string \<Rightarrow> ('m, 'w, 'f) scope \<Rightarrow> ('a future \<times> ('m, 'w, 'f) scope) result" where
  "with_table rt before after k f sc =
     (case f of
        Inr msg \<Rightarrow> Inr (Failed msg, sc)
      | Inl value \<Rightarrow>
          let res = fst (MysqlResults_move value) in
          bindE (PrintResultTable (ress (psys (sc_proxy sc))) res (put_text before (sc_out sc))) (\<lambda>out.
          bindE (k (sc\<lparr>sc_out := (if after = [] then out else put_text after out)\<rparr>)) (\<lambda>(fut, sc).
          bindE (drop_results (rt_api rt) res (sc_proxy sc)) (\<lambda>st. Inr (fut, sc\<lparr>sc_proxy := st\<rparr>)))))"

definition affected_text :: "exec_results \<Rightarrow> string" where
  "affected_text res = ''affected rows: '' @ dec_digits (unat (GetAffectedRowNum res)) @ [new_line]"

text \<open>The continuations of the chain, in order.\<close>

definition after_insert ::
  "('m, 'w, 'f) runtime \<Rightarrow> exec_results + string \<Rightarrow> ('m, 'w, 'f) scope \<Rightarrow> (exec_results future \<times> ('m, 'w, 'f) scope) result" where
  "after_insert rt f sc =
     (case f of
        Inr msg \<Rightarrow> Inr (Failed msg, sc)
      | Inl res \<Rightarrow>
          async_exec rt ''update users set email = ? where username = ? '' [InString ''jack@gmail.com'', InString ''jack'']
            (sc\<lparr>sc_out := put_text ([new_line] @ ''>>> insert into users (username, email, created_at)'' @ [new_line] @
               ''values (\"jack\", \"jack@abc.com\", \"2024-9-10\")'' @ [new_line, new_line] @ affected_text res) (sc_out sc)\<rparr>))"

definition after_update ::
  "('m, 'w, 'f) runtime \<Rightarrow> exec_results + string \<Rightarrow> ('m, 'w, 'f) scope \<Rightarrow> (view list results future \<times> ('m, 'w, 'f) scope) result" where
  "after_update rt f sc =
     (case f of
        Inr msg \<Rightarrow> Inr (Failed msg, sc)
      | Inl res \<Rightarrow>
          async_rows rt ''select * from users'' []
            (sc\<lparr>sc_out := put_text ([new_line] @ ''>>> update users set email = \"jack@gmail.com\" where username = \"jack\"'' @
               [new_line, new_line] @ affected_text res) (sc_out sc)\<rparr>))"

definition after_select ::
  "('m, 'w, 'f) runtime \<Rightarrow> view list results + string \<Rightarrow> ('m, 'w, 'f) scope \<Rightarrow> (exec_results future \<times> ('m, 'w, 'f) scope) result" where
  "after_select rt = with_table rt ([new_line] @ ''>>> select * from users'' @ [new_line]) [new_line, new_line]
     (async_exec rt ''update unknown_table set email = ? where username = ? '' [InString ''jack@gmail.com'', InString ''jack''])"

definition after_error ::
  "('m, 'w, 'f) runtime \<Rightarrow> exec_results + string \<Rightarrow> ('m, 'w, 'f) scope \<Rightarrow> (unit future \<times> ('m, 'w, 'f) scope) result" where
  "after_error rt f sc =
     (case f of
        Inl _ \<Rightarrow> Inr (Ready (), sc)
      | Inr msg \<Rightarrow>
          bindE (AsyncRollback (rt_fw rt) (rt_api rt) (rt_map rt) (sc_ctx sc) (sc_handle sc) (sc_proxy sc)) (\<lambda>(fut, ctx, hdl, st).
            Inr (fut, sc\<lparr>sc_log := sc_log sc @ [msg], sc_ctx := ctx, sc_handle := hdl, sc_proxy := st\<rparr>)))"

definition after_rollback ::
  "('m, 'w, 'f) runtime \<Rightarrow> unit + string \<Rightarrow> ('m, 'w, 'f) scope \<Rightarrow> (unit future \<times> ('m, 'w, 'f) scope) result" where
  "after_rollback rt f sc =
     (case f of
        Inr msg \<Rightarrow> Inr (Failed msg, sc)
      | Inl _ \<Rightarrow>
          let out = put_text ([new_line] @ ''>>> rollback'' @ [new_line] @ ''transaction end'' @ [new_line] @
                [new_line] @ ''>>> select * from users'' @ [new_line]) (sc_out sc) in
          bindE (Query (rt_fw rt) (rt_api rt) (rt_map rt) (run_rows rt ''select * from users'' []) (sc_ctx sc)
                   (MysqlResults_new NativeString) (sc_proxy sc)) (\<lambda>(ctx, res, st).
          bindE (PrintResultTable (ress (psys st)) res out) (\<lambda>out.
          bindE (drop_results (rt_api rt) res st) (\<lambda>st.
            Inr (Ready (), sc\<lparr>sc_ctx := ctx, sc_out := out, sc_proxy := st\<rparr>)))))"

text \<open>The handle is what the continuation of \<^verbatim>\<open>AsyncBegin\<close> stores, and stays null if that failed.\<close>

definition async_begin :: "('m, 'w, 'f) runtime \<Rightarrow> ('m, 'w, 'f) statement" where
  "async_begin rt sc =
     bindE (AsyncBegin (rt_fw rt) (rt_api rt) (rt_map rt) (sc_ctx sc) (sc_proxy sc)) (\<lambda>(fut, ctx, _, st).
     bindE (BlockingGet fut) (\<lambda>f.
       Inr (True, sc\<lparr>sc_ctx := ctx, sc_proxy := st,
                     sc_handle := (case f of Inl h \<Rightarrow> Some h | Inr _ \<Rightarrow> sc_handle sc)\<rparr>)))"

definition async_alice :: "('m, 'w, 'f) runtime \<Rightarrow> ('m, 'w, 'f) statement" where
  "async_alice rt sc =
     bindE (async_rows rt ''select username from users where username = ?'' [InString ''alice''] sc) (\<lambda>(fut, sc).
     bindE (and_then fut (with_table rt
              ([new_line] @ ''>>> select username from users where username = alice'' @ [new_line]) [] (\<lambda>sc. Inr (Ready (), sc))) sc)
       (\<lambda>(fut, sc).
     bindE (BlockingGet fut) (\<lambda>f.
       case f of Inl _ \<Rightarrow> Inr (True, sc) | Inr msg \<Rightarrow> Inr (False, log_twice msg sc))))"

definition async_chain :: "('m, 'w, 'f) runtime \<Rightarrow> ('m, 'w, 'f) statement" where
  "async_chain rt sc =
     bindE (async_exec rt insert_jack [InTime example_day] sc) (\<lambda>(fut, sc).
     bindE (and_then fut (after_insert rt) sc) (\<lambda>(fut, sc).
     bindE (and_then fut (after_update rt) sc) (\<lambda>(fut, sc).
     bindE (and_then fut (after_select rt) sc) (\<lambda>(fut, sc).
     bindE (and_then fut (after_error rt) sc) (\<lambda>(fut, sc).
     bindE (and_then fut (after_rollback rt) sc) (\<lambda>(fut, sc).
     bindE (BlockingGet fut) (\<lambda>_. Inr (True, sc))))))))"

definition TestAsyncTx :: "('m, 'w, 'f) runtime \<Rightarrow> ('m, 'w, 'f) io \<Rightarrow> ('m, 'w, 'f) io result" where
  "TestAsyncTx rt = in_scope rt (\<lambda>sc. bindE (drop_tx rt sc) (drop_native rt))
     [query_native rt ''select * from users'' [],
      async_begin rt,
      async_alice rt,
      async_chain rt]"

definition future_Run :: "('m, 'w, 'f) runtime \<Rightarrow> ('m, 'w, 'f) io \<Rightarrow> (int \<times> ('m, 'w, 'f) io) result" where
  "future_Run rt io = bindE (foldE (\<lambda>test. test rt) [TestAsyncQuery, TestAsyncTx] io) (\<lambda>io. Inr (0, io))"

end
