(* ===== verification/Client_System.thy ===== *)
theory Client_System
  imports Client_Owners Results_Frame
begin

text \<open>
  The proxy with all its clients: queries, asynchronous statements whose tasks the thread pool runs at any
  later time, transactions that run side by side, handles that are dropped, results objects that are
  filled, moved and destroyed, and reconfiguration, in any order. The invariant says who owns which connection and
  which raw result; every operation keeps it, and the calls of a client return.
\<close>

section \<open>The clients\<close>

text \<open>Transactions, asynchronous statements and the results objects of native queries are numbered by who
  uses them. Only a \<^verbatim>\<open>MysqlResults\<close> of native rows ever owns a raw result (\<open>run_exec_owns_none\<close>,
  \<open>run_typed_owns_none\<close>), so the others need not be kept.\<close>

type_synonym ('m, 'w, 'f) clients =
  "(nat \<rightharpoonup> tx) \<times> (nat \<rightharpoonup> async_call) \<times> (nat \<rightharpoonup> view list results) \<times> ('m, 'w, 'f) proxy"

text \<open>The steps of the clients. Statements have as many arguments as \<open>serves\<close> asks for, and the
  configuration changes when no asynchronous statement is running, as \<^verbatim>\<open>SetMysqlConfig\<close> joins the thread pool first.\<close>

inductive client_step ::
  "'f framework \<Rightarrow> 'w mysql_api \<Rightarrow> 'm hashmap_api \<Rightarrow> ('m, 'w, 'f) clients \<Rightarrow> ('m, 'w, 'f) clients \<Rightarrow> bool"
  for F :: "'f framework" and api :: "'w mysql_api" and H :: "'m hashmap_api" where
  client_query: "serves api args \<Longrightarrow> mysql_res res = None \<Longrightarrow>
    Query F api H (run_exec api sql_str args) ctx (res :: unit results) st = Inr (ctx', res', st') \<Longrightarrow>
    client_step F api H (T, Q, R, st) (T, Q, R, st')"
| client_native: "one_cell_per_field api \<Longrightarrow> R i = Some nres \<Longrightarrow> mode nres \<noteq> OnlyExec \<Longrightarrow>
    Query F api H (run_native fmt tfmt api sql_str args) ctx nres st = Inr (ctx', nres', st') \<Longrightarrow>
    client_step F api H (T, Q, R, st) (T, Q, R(i \<mapsto> nres'), st')"
| client_typed: "mode tres \<noteq> OnlyExec \<Longrightarrow> answers_typed fmt api Ts (res_option tres) (length args) \<Longrightarrow> mysql_res tres = None \<Longrightarrow>
    Query F api H (run_typed fmt api Ts sql_str args) ctx tres st = Inr (ctx', tres', st') \<Longrightarrow>
    client_step F api H (T, Q, R, st) (T, Q, R, st')"
| client_async: "serves api args \<Longrightarrow> Q i = None \<Longrightarrow> async_start F ctx st = Inr (s, ctx', hdl, st') \<Longrightarrow>
    client_step F api H (T, Q, R, st)
      (T, Q(i \<mapsto> (case s of Inl fut \<Rightarrow> Completed fut | Inr _ \<Rightarrow> Running ctx' sql_str args)), R, st')"
| client_task: "Q i = Some (Running ctx sql_str args) \<Longrightarrow>
    async_finish F api H (run_exec api sql_str args) OnlyExec ctx st = Inr (fut, ctx', hdl, st') \<Longrightarrow>
    client_step F api H (T, Q, R, st) (T, Q(i \<mapsto> Completed fut), R, st')"
| client_begin: "T i = None \<Longrightarrow> Begin F api H ctx None st = Inr (ctx', hdl, st') \<Longrightarrow>
    client_step F api H (T, Q, R, st) (T(i := hdl), Q, R, st')"
| client_statement: "T i = Some h \<Longrightarrow> serves api args \<Longrightarrow> mysql_res res = None \<Longrightarrow>
    Query_tx F api H (run_exec api sql_str args) ctx (Some h) (res :: unit results) st = Inr (ctx', hdl, res', st') \<Longrightarrow>
    client_step F api H (T, Q, R, st) (T(i := hdl), Q, R, st')"
| client_native_statement: "T i = Some h \<Longrightarrow> one_cell_per_field api \<Longrightarrow> R k = Some nres \<Longrightarrow> mode nres \<noteq> OnlyExec \<Longrightarrow>
    Query_tx F api H (run_native fmt tfmt api sql_str args) ctx (Some h) nres st = Inr (ctx', hdl, nres', st') \<Longrightarrow>
    client_step F api H (T, Q, R, st) (T(i := hdl), Q, R(k \<mapsto> nres'), st')"
| client_typed_statement: "T i = Some h \<Longrightarrow> mode tres \<noteq> OnlyExec \<Longrightarrow> answers_typed fmt api Ts (res_option tres) (length args) \<Longrightarrow>
    mysql_res tres = None \<Longrightarrow>
    Query_tx F api H (run_typed fmt api Ts sql_str args) ctx (Some h) tres st = Inr (ctx', hdl, tres', st') \<Longrightarrow>
    client_step F api H (T, Q, R, st) (T(i := hdl), Q, R, st')"
| client_finish: "T i = Some h \<Longrightarrow> (if rollback then Rollback else Commit) F api H ctx (Some h) st = Inr (ctx', hdl, st') \<Longrightarrow>
    client_step F api H (T, Q, R, st) (T(i := hdl), Q, R, st')"
| client_drop: "T i = Some h \<Longrightarrow> TransactionHandle_destroy api h (psys st) = Inr s \<Longrightarrow>
    client_step F api H (T, Q, R, st) (T(i := None), Q, R, put_sys s st)"
| client_configure: "(\<forall>i ctx sql_str args. Q i \<noteq> Some (Running ctx sql_str args)) \<Longrightarrow> cf_num_shard_group conf \<noteq> 0 \<Longrightarrow>
    SetMysqlConfig F api H conf st = Inr st' \<Longrightarrow> client_step F api H (T, Q, R, st) (T, Q, R, st')"
| client_results: "R i = None \<Longrightarrow> client_step F api H (T, Q, R, st) (T, Q, R(i \<mapsto> MysqlResults_with NativeString opt), st)"
| client_drop_results: "R i = Some nres \<Longrightarrow> drop_results api nres st = Inr st' \<Longrightarrow>
    client_step F api H (T, Q, R, st) (T, Q, R(i := None), st')"
| client_move: "R i = Some nres \<Longrightarrow> R k = None \<Longrightarrow> MysqlResults_move nres = (new, old) \<Longrightarrow>
    client_step F api H (T, Q, R, st) (T, Q, R(i \<mapsto> old, k \<mapsto> new), st)"
| client_move_assign: "R i = Some nres \<Longrightarrow> R k = Some this \<Longrightarrow> i \<noteq> k \<Longrightarrow> MysqlResults_move_assign this nres = (new, old) \<Longrightarrow>
    client_step F api H (T, Q, R, st) (T, Q, R(i \<mapsto> old, k \<mapsto> new), st)"

section \<open>The raw results\<close>

text \<open>Every results object owns its raw result, alone, and its views point into that.\<close>

definition results_ok :: "(nat \<rightharpoonup> view list results) \<Rightarrow> 'w sys \<Rightarrow> bool" where
  "results_ok R s \<longleftrightarrow>
     (\<forall>i res. R i = Some res \<longrightarrow> results_wf s res \<and> table_ok res) \<and>
     (\<forall>i j res res' b. R i = Some res \<longrightarrow> R j = Some res' \<longrightarrow> mysql_res res = Some b \<longrightarrow> mysql_res res' = Some b \<longrightarrow> i = j)"

lemma results_okD:
  assumes "results_ok R s" and "R i = Some res"
  shows "results_wf s res" and "table_ok res"
  using assms by (auto simp: results_ok_def)

lemma results_ok_others:
  assumes ok: "results_ok R s" and old: "\<forall>b \<in> ress s. b < next_block s" and f: "frame None s q t"
  shows "results_ok R t"
proof -
  have "results_wf t res" if "R i = Some res" for i res
    using results_okD(1) [OF ok that] old f by (auto simp: results_wf_def frame_def)
  with ok show ?thesis by (auto simp: results_ok_def)
qed

lemma results_ok_upd:
  assumes ok: "results_ok R s" and old: "\<forall>b \<in> ress s. b < next_block s" and i: "R i = Some res"
    and f: "frame (mysql_res res) s (mysql_res res') t" and new: "results_wf t res'" "table_ok res'"
  shows "results_ok (R(i \<mapsto> res')) t"
proof -
  have kept: "b \<in> ress t \<and> mysql_res res' \<noteq> Some b" if "R j = Some r" "j \<noteq> i" "mysql_res r = Some b" for j r b
  proof -
    have "b \<in> ress s" using results_okD(1) [OF ok that(1)] that(3) by (simp add: results_wf_def)
    moreover have "mysql_res res \<noteq> Some b" using ok i that unfolding results_ok_def by blast
    ultimately show ?thesis using f old by (fastforce simp: frame_def)
  qed
  have "results_wf t r \<and> table_ok r" if "(R(i \<mapsto> res')) j = Some r" for j r
    using that kept [of j r] results_okD(2) [OF ok, of j r] new by (auto simp: results_wf_def split: if_splits)
  moreover have "j = k" if "(R(i \<mapsto> res')) j = Some r" "(R(i \<mapsto> res')) k = Some r'" "mysql_res r = Some b" "mysql_res r' = Some b"
    for j k r r' b
    using that kept [of j r] kept [of k r'] ok unfolding results_ok_def by (auto split: if_splits)
  ultimately show ?thesis unfolding results_ok_def by blast
qed

lemma results_ok_del: "results_ok R s \<Longrightarrow> results_ok (R(i := None)) s"
  by (auto simp: results_ok_def split: if_splits)

lemma results_ok_new: "results_ok R s \<Longrightarrow> results_wf s res \<Longrightarrow> table_ok res \<Longrightarrow> mysql_res res = None \<Longrightarrow> results_ok (R(i \<mapsto> res)) s"
  by (auto simp: results_ok_def split: if_splits)

text \<open>A raw result changes hands.\<close>

lemma results_ok_move:
  assumes ok: "results_ok R s" and i: "R i = Some res" "i \<noteq> k"
    and new: "mysql_res new = mysql_res res" "mysql_res old = None" "table_ok new" "table_ok old"
  shows "results_ok (R(i \<mapsto> old, k \<mapsto> new)) s"
proof -
  have alone: "j = i" if "R j = Some r" "mysql_res r = Some b" "mysql_res res = Some b" for j r b
    using ok i(1) that unfolding results_ok_def by blast
  have "results_wf s res" by (rule results_okD(1) [OF ok i(1)])
  with ok new i(2) alone show ?thesis unfolding results_ok_def results_wf_def
    by (auto split: if_splits)
qed

text \<open>The raw results after a call: those of the other objects are as they were.\<close>

lemma frame_none: "frame p s q t \<Longrightarrow> p = None \<Longrightarrow> frame None s None t"
  by (auto simp: frame_def)

context result_keeper begin

lemma Query_others:
  "Query F api H run ctx res st = Inr (ctx', res', st') \<Longrightarrow> mysql_res res = None \<Longrightarrow> frame None (psys st) None (psys st')"
  by (rule frame_none [OF Query_frame])

lemma Query_tx_others:
  "Query_tx F api H run ctx hdl res st = Inr (ctx', hdl', res', st') \<Longrightarrow> mysql_res res = None \<Longrightarrow> frame None (psys st) None (psys st')"
  by (rule frame_none [OF Query_tx_frame])

lemma async_finish_frame:
  assumes f: "async_finish F api H run m ctx st = Inr (fut, ctx', hdl, st')"
  shows "frame None (psys st) None (psys st')"
proof -
  obtain fut1 c1 st1 where t: "async_task F api H run m None ctx st = Inr (fut1, c1, st1)"
    using f by (auto simp: async_finish_def bindE_Inr_iff)
  obtain c2 w2 where 2: "RunFilters F CLIENT_POST_RECV_MSG c1 st1 = (c2, st1\<lparr>fw := w2\<rparr>)" by (rule RunFilters_eq)
  obtain c3 w3 where 3: "RunFilters F CLIENT_POST_RPC_INVOKE c2 (st1\<lparr>fw := w2\<rparr>) = (c3, st1\<lparr>fw := w3\<rparr>)"
    by (rule RunFilters_eq [of F CLIENT_POST_RPC_INVOKE c2 "st1\<lparr>fw := w2\<rparr>"]) simp
  have "psys st' = psys st1"
    using f t 2 3
    by (cases fut1) (auto simp: async_finish_def async_receive_def post_invoke_def and_then_def async_filters_def)
  with frame_none [OF async_task_frame [OF t]] show ?thesis by simp
qed

end

context connection_user begin

lemma query_keeps_wf:
  assumes ok: "owners_ok api H (T, Q, st)" and E: "in_service F api H" and res: "suits res" "results_wf (psys st) res"
    and q: "Query F api H run ctx res st = Inr (ctx', res', st')"
  shows "results_wf (psys st') res'"
  using query_settles [of H "owned T" st api F res ctx] owners_okD(1) [OF ok] E res q by (auto simp: in_service_def settled_def)

lemma statement_keeps_wf:
  assumes ok: "owners_ok api H (T, Q, st)" and E: "in_service F api H" and h: "T i = Some h"
    and res: "suits res" "results_wf (psys st) res"
    and q: "Query_tx F api H run ctx (Some h) res st = Inr (ctx', hdl, res', st')"
  shows "results_wf (psys st') res'"
  using Query_tx_returns [OF owners_okD(1) [OF ok] owners_okD(3) [OF ok h] res, of F api ctx] E q
  by (auto simp: in_service_def)

end

section \<open>The invariant\<close>

definition clients_ok :: "'w mysql_api \<Rightarrow> 'm hashmap_api \<Rightarrow> ('m, 'w, 'f) clients \<Rightarrow> bool" where
  "clients_ok api H = (\<lambda>(T, Q, R, st). owners_ok api H (T, Q, st) \<and> results_ok R (psys st))"

lemma results_wf_none: "mysql_res res = None \<Longrightarrow> results_wf s res"
  by (simp add: results_wf_def)

lemma results_with_none [simp]: "mysql_res (MysqlResults_with m opt) = None"
  by (simp add: MysqlResults_with_def MysqlResults_new_def)

lemma client_step_owners:
  assumes ok: "owners_ok api H (T, Q, st)" and E: "in_service F api H" and step: "client_step F api H (T, Q, R, st) (T', Q', R', st')"
    and held: "results_ok R (psys st)"
  shows "owners_ok api H (T', Q', st')"
proof -
  note D = owners_okD [OF ok]
  have e: "hashmap_laws H" "no_oom api" "accepts api" "takes_tasks F" using E by (simp_all add: in_service_def)
  have up: "thread_pool st \<noteq> None" using D(1) by (simp add: proxy_ok_def)
  from step show ?thesis
  proof (cases rule: client_step.cases)
    case (client_async args i ctx s ctx' hdl sql_str)
    obtain w where "st' = st\<lparr>fw := w\<rparr>" using async_start_returns [OF up, of F ctx] client_async by (metis Pair_inject sum.inject(2))
    then have "owners_ok api H (T, Q, st')" by (intro owners_ok_same [OF ok]) (use D(1) in \<open>simp_all add: same_on_def\<close>)
    with client_async show ?thesis by (auto intro!: owners_ok_calls split: sum.splits)
  next
    case (client_task i ctx sql_str args fut ctx' hdl)
    with exec_call.task_keeps_owners [OF ok E _ client_task(5)] D(4) show ?thesis by (auto intro: owners_ok_calls)
  next
    case (client_begin i ctx ctx' hdl)
    with owners_ok_begun [OF ok] Begin_begun [OF e(1) D(1) e(2-4)] show ?thesis by blast
  next
    case (client_finish i h rollback ctx ctx' hdl)
    obtain c h' u where "(if rollback then Rollback else Commit) F api H ctx (Some h) st = Inr (c, Some h', u)"
      "handled H (owned T) h h' st u"
      using end_returns [OF e(1) D(1) D(3) [of i h] e(4)] client_finish(4) by blast
    with client_finish owners_ok_handled [OF ok, of i h] show ?thesis by auto
  next
    case (client_drop i h s)
    obtain u where "TransactionHandle_destroy api h (psys st) = Inr u"
      "proxy_ok H (owned T - set_option (tx_executor h)) (put_sys u st)" "same_on (owned T - set_option (tx_executor h)) (psys st) u"
      using TransactionHandle_destroy_returns [OF D(1) owned_handle [of T i h]] client_drop by blast
    with client_drop owners_ok_others [OF ok, of i h "put_sys u st"] show ?thesis by auto
  next
    case (client_configure conf)
    then have "proxy_ok H (owned T) st'" "same_on (owned T) (psys st) (psys st')"
      using SetMysqlConfig_restarts [OF e(1) D(1), of conf F api] by auto
    with client_configure owners_ok_same [OF ok] show ?thesis by blast
  next
    case (client_drop_results i nres)
    obtain u where "drop_results api nres st = Inr u" "proxy_ok H (owned T) u" "execs (psys u) = execs (psys st)"
      by (rule drop_results_returns [OF D(1) results_okD(1) [OF held client_drop_results(4)]])
    with client_drop_results owners_ok_same [OF ok, of u] show ?thesis by (simp add: same_on_def)
  qed (use ok in \<open>auto intro: results_wf_none results_okD(1) [OF held] exec_call.query_keeps_owners [OF ok E] native_call.query_keeps_owners [OF ok E]
      typed_call.query_keeps_owners [OF ok E] exec_call.statement_keeps_owners [OF ok E]
      native_call.statement_keeps_owners [OF ok E] typed_call.statement_keeps_owners [OF ok E]\<close>)
qed

lemma client_step_results:
  assumes ok: "owners_ok api H (T, Q, st)" and E: "in_service F api H" and step: "client_step F api H (T, Q, R, st) (T', Q', R', st')"
    and held: "results_ok R (psys st)"
  shows "results_ok R' (psys st')"
proof -
  note D = owners_okD [OF ok]
  have old: "\<forall>b \<in> ress (psys st). b < next_block (psys st)"
    using D(1) manager_okD(5) unfolding proxy_ok_def psys_def by blast
  have up: "thread_pool st \<noteq> None" using D(1) by (simp add: proxy_ok_def)
  note others = results_ok_others [OF held old] and upd = results_ok_upd [OF held old]
  from step show ?thesis
  proof (cases rule: client_step.cases)
    case (client_native i nres fmt tfmt sql_str args ctx ctx' nres')
    have "table_ok nres'" using Query_results [OF client_native(7)] results_okD(2) [OF held client_native(5)] run_native_table [OF client_native(4)] by blast
    then show ?thesis
      using client_native upd [OF _ native_keeper.Query_frame] native_call.query_keeps_wf [OF ok E _ _ client_native(7)]
        results_okD(1) [OF held] by simp
  next
    case (client_async args i ctx s ctx' hdl sql_str)
    obtain w where "st' = st\<lparr>fw := w\<rparr>" using async_start_returns [OF up, of F ctx] client_async by (metis Pair_inject sum.inject(2))
    with client_async held show ?thesis by simp
  next
    case (client_native_statement i h k nres fmt tfmt sql_str args ctx ctx' hdl nres')
    have "table_ok nres'"
      using Query_tx_results [OF client_native_statement(8)] results_okD(2) [OF held client_native_statement(6)] run_native_table [OF client_native_statement(5)] by blast
    then show ?thesis
      using client_native_statement upd [OF _ native_keeper.Query_tx_frame]
        native_call.statement_keeps_wf [OF ok E _ _ _ client_native_statement(8)] results_okD(1) [OF held] by simp
  next
    case (client_results i opt)
    then show ?thesis using results_ok_new [OF held results_wf_none table_ok_new] by simp
  next
    case (client_drop_results i nres)
    let ?moved = "moved_from nres"
    have "results_ok (R(i \<mapsto> ?moved)) (psys st')"
      by (rule upd [OF client_drop_results(4)])
        (use drop_results_frame [OF client_drop_results(5)] in \<open>simp_all add: results_wf_def table_ok_def moved_from_def\<close>)
    then show ?thesis using results_ok_del [of "R(i \<mapsto> ?moved)" "psys st'" i] client_drop_results(3) by simp
  next
    case (client_move i nres k new old)
    then have "i \<noteq> k" by auto
    with client_move show ?thesis
      using results_ok_move [OF held, of i nres k new old] table_ok_move(1) [OF results_okD(2) [OF held client_move(5)]]
      by (auto simp: MysqlResults_move_def moved_from_def)
  next
    case (client_move_assign i nres k this new old)
    then show ?thesis
      using results_ok_move [OF held, of i nres k new old] table_ok_move(2) [OF results_okD(2) [OF held client_move_assign(5)], of this]
      by (auto simp: MysqlResults_move_assign_def moved_from_def)
  qed (auto simp: Commit_def Rollback_def split: if_splits
      dest: exec_keeper.Query_others typed_keeper.Query_others exec_keeper.Query_tx_others typed_keeper.Query_tx_others
        exec_keeper.async_finish_frame Begin_frame finish_frame
      intro: others others [OF frame_of_grows [OF TransactionHandle_destroy_grows]] others [OF frame_of_grows [OF SetMysqlConfig_grows]])
qed

lemma client_step_ok: "clients_ok api H c \<Longrightarrow> in_service F api H \<Longrightarrow> client_step F api H c d \<Longrightarrow> clients_ok api H d"
  by (cases c; cases d) (auto simp: clients_ok_def intro: client_step_owners client_step_results)

definition clients_start :: "'m hashmap_api \<Rightarrow> ('m, 'w, 'f) clients \<Rightarrow> bool" where
  "clients_start H = (\<lambda>(T, Q, R, st). T = Map.empty \<and> Q = Map.empty \<and> R = Map.empty \<and> proxy_ok H {} st)"

interpretation client_runs: invariant_system "clients_start H"
  "\<lambda>c d. in_service F api H \<and> client_step F api H c d" "clients_ok api H" for F api H
proof unfold_locales
  show "clients_ok api H c" if "clients_start H c" for c
    using that by (auto simp: clients_start_def clients_ok_def owners_ok_def owned_def one_owner_def results_ok_def)
  show "clients_ok api H d" if "clients_ok api H c" "in_service F api H \<and> client_step F api H c d" for c d
    using that client_step_ok by blast
qed

lemma client_runs_ok:
  assumes "in_service F api H" and "reach (clients_start H) (client_step F api H) c"
  shows "clients_ok api H c"
proof (rule client_runs.inv_reach)
  show "reach (clients_start H) (\<lambda>c d. in_service F api H \<and> client_step F api H c d) c"
    using assms(2) by (rule reach_weaken) (simp add: assms(1))
qed

lemma clients_owners:
  assumes "in_service F api H" and "reach (clients_start H) (client_step F api H) (T, Q, R, st)"
  shows "owners_ok api H (T, Q, st)" and "results_ok R (psys st)"
  using client_runs_ok [OF assms] by (simp_all add: clients_ok_def)

text \<open>C2: In every state the clients of a proxy can reach, no two transactions own the same connection and
  no pool holds one a transaction owns; a started transaction has a live connection.\<close>

theorem clients_never_share_a_connection:
  assumes "in_service F api H" and "reach (clients_start H) (client_step F api H) (T, Q, R, st)"
  shows "(\<forall>i j h k r. T i = Some h \<longrightarrow> T j = Some k \<longrightarrow> tx_executor h = Some r \<longrightarrow> tx_executor k = Some r \<longrightarrow> i = j) \<and>
    (\<forall>i h r q. T i = Some h \<longrightarrow> tx_executor h = Some r \<longrightarrow> r \<notin> pooled_at (mgr st) q) \<and>
    (\<forall>i h. T i = Some h \<longrightarrow> GetState h = kStarted \<longrightarrow> (\<exists>r. tx_executor h = Some r \<and> connected (psys st) r))"
proof -
  note D = owners_okD [OF clients_owners(1) [OF assms]]
  have "owned T \<inter> pooled_at (mgr st) q = {}" for q
    using D(1) mgr_ok_disjoint manager_okD(1) unfolding proxy_ok_def by blast
  moreover have "handle_ok (owned T) h st" if "T i = Some h" for i h using D(3) [OF that] .
  ultimately show ?thesis using D(2) unfolding one_owner_def handle_ok_def GetState_def by fastforce
qed

text \<open>C3: In every state the clients of a proxy can reach, every view in a results object a client holds can be
  read, whatever the other clients did since its query; no raw result is owned by two objects, so each
  is freed at most once.\<close>

theorem clients_views_stay_valid:
  assumes "in_service F api H" and "reach (clients_start H) (client_step F api H) (T, Q, R, st)"
  shows "(\<forall>i res row v. R i = Some res \<longrightarrow> row \<in> set (ResultSet res) \<longrightarrow> v \<in> set row \<longrightarrow>
      read_view (ress (psys st)) v = Inr (view_text v)) \<and>
    (\<forall>i j res res' b. R i = Some res \<longrightarrow> R j = Some res' \<longrightarrow> mysql_res res = Some b \<longrightarrow> mysql_res res' = Some b \<longrightarrow> i = j)"
proof -
  note ok = clients_owners(2) [OF assms]
  show ?thesis using ok views_readable [OF results_okD(2,1) [OF ok]] unfolding results_ok_def by blast
qed

text \<open>\<open>returns_for\<close>: a query with this results object returns, on the pools and in every transaction of a client, where it
  leaves the connections of all others as they were.\<close>

definition returns_for ::
  "'f framework \<Rightarrow> 'w mysql_api \<Rightarrow> 'm hashmap_api \<Rightarrow> (nat \<rightharpoonup> tx) \<Rightarrow> ('m, 'w, 'f) proxy \<Rightarrow> ('r, 'w) runner \<Rightarrow> 'r results \<Rightarrow> bool" where
  "returns_for F api H T st run res \<longleftrightarrow>
     (\<forall>ctx. \<exists>ctx' res' st'. Query F api H run ctx res st = Inr (ctx', res', st')) \<and>
     (\<forall>i h ctx. T i = Some h \<longrightarrow>
       (\<exists>ctx' h' res' st'. Query_tx F api H run ctx (Some h) res st = Inr (ctx', Some h', res', st') \<and>
          same_on (owned (T(i := None))) (psys st) (psys st')))"

context connection_user begin

lemma query_returns_for:
  assumes ok: "owners_ok api H (T, Q, st)" and E: "in_service F api H" and res: "suits res" "results_wf (psys st) res"
  shows "returns_for F api H T st run res"
proof -
  note D = owners_okD [OF ok]
  have E: "hashmap_laws H" "no_oom api" "accepts api" "takes_tasks F" using E by (simp_all add: in_service_def)
  show ?thesis
    unfolding returns_for_def
  proof (intro conjI allI impI)
    show "\<exists>ctx' res' st'. Query F api H run ctx res st = Inr (ctx', res', st')" for ctx
      using query_settles [OF E(1) D(1) E(2-4) res, where ctx = ctx] by blast
    show "\<exists>ctx' h' res' st'. Query_tx F api H run ctx (Some h) res st = Inr (ctx', Some h', res', st') \<and>
        same_on (owned (T(i := None))) (psys st) (psys st')" if "T i = Some h" for i h ctx
      using Query_tx_returns [OF D(1) D(3) [OF that] res E(4), where api = api and ctx = ctx]
      unfolding owned_others [OF D(2) that] handled_def by blast
  qed
qed

end


text \<open>A proxy in service with no pool yet, and one transaction begun on it.\<close>

definition fresh_proxy :: "((string \<times> nat) list, demo_world, unit) proxy" where
  "fresh_proxy = demo_proxy\<lparr>mgr := (mgr demo_proxy)\<lparr>msys := (demo_sys True True)\<lparr>execs := Map.empty, mysqls := {}\<rparr>\<rparr>\<rparr>"

lemma fresh_proxy_ok: "proxy_ok demo_map {} fresh_proxy"
  by (auto simp: proxy_ok_def fresh_proxy_def demo_proxy_def manager_ok_def mgr_ok_def pooled_at_def others_def held_def
      wf_on_def single_refs_def demo_option_def map_of_mgr_def demo_map_def demo_sys_def)

lemma demo_in_service: "in_service demo_framework eager_api demo_map"
  using demo_passes by (simp add: in_service_def demo_map_laws eager_api_laws passes_def takes_tasks_def)

lemma fresh_clients: "reach (clients_start demo_map) (client_step demo_framework eager_api demo_map) (Map.empty, Map.empty, Map.empty, fresh_proxy)"
  by (rule reach_start) (simp add: clients_start_def fresh_proxy_ok)

text \<open>Two clients: one begins a transaction, then the other does.\<close>

lemma demo_clients:
  obtains h k st where "reach (clients_start demo_map) (client_step demo_framework eager_api demo_map) ([0 \<mapsto> h, 1 \<mapsto> k], Map.empty, Map.empty, st)"
    and "GetState h = kStarted" and "GetState k = kStarted"
proof -
  have C: "na_ip (ctx_addr demo_context) \<noteq> []" "status_OK (ctx_status demo_context)"
    "\<And>h w. fst (c_real_query eager_api h ''begin'' w) = 0"
    by (simp_all add: demo_context_def demo_addr_def status_OK_def status_ok_def eager_api_laws)
  note B = Begin_starts [OF demo_passes demo_map_laws _ eager_api_laws(2,1) C]
  obtain r st where 1: "Begin demo_framework eager_api demo_map demo_context None fresh_proxy =
      Inr (demo_context, Some \<lparr>tx_executor = Some r, tx_state = kStarted\<rparr>, st)" "proxy_ok demo_map {r} st"
    using B [OF fresh_proxy_ok] by auto
  obtain q st' where 2: "Begin demo_framework eager_api demo_map demo_context None st =
      Inr (demo_context, Some \<lparr>tx_executor = Some q, tx_state = kStarted\<rparr>, st')"
    using B [OF 1(2)] by auto
  have "reach (clients_start demo_map) (client_step demo_framework eager_api demo_map)
      (Map.empty(0 := Some \<lparr>tx_executor = Some r, tx_state = kStarted\<rparr>), Map.empty, Map.empty, st)"
    by (rule reach_step [OF fresh_clients client_begin [OF _ 1(1)]]) simp
  then have "reach (clients_start demo_map) (client_step demo_framework eager_api demo_map)
      ((Map.empty(0 := Some \<lparr>tx_executor = Some r, tx_state = kStarted\<rparr>))(1 := Some \<lparr>tx_executor = Some q, tx_state = kStarted\<rparr>),
        Map.empty, Map.empty, st')"
    by (rule reach_step) (rule client_begin [OF _ 2], simp)
  then show thesis using that by (auto simp: GetState_def)
qed

theorem clients_never_share_a_connection_witness:
  "\<exists>T Q R st h k r q. reach (clients_start demo_map) (client_step demo_framework eager_api demo_map) (T, Q, R, st) \<and>
    T 0 = Some h \<and> T 1 = Some k \<and> tx_executor h = Some r \<and> tx_executor k = Some q \<and> r \<noteq> q \<and> connected (psys st) r"
proof -
  obtain h k st where c: "reach (clients_start demo_map) (client_step demo_framework eager_api demo_map) ([0 \<mapsto> h, 1 \<mapsto> k], Map.empty, Map.empty, st)"
    "GetState h = kStarted" "GetState k = kStarted"
    by (rule demo_clients)
  note N = clients_never_share_a_connection [OF demo_in_service c(1)]
  note started = conjunct2 [OF conjunct2 [OF N], rule_format]
  obtain r where r: "tx_executor h = Some r" "connected (psys st) r" using started [of 0 h] c(2) by auto
  obtain q where q: "tx_executor k = Some q" using started [of 1 k] c(3) by auto
  have "r \<noteq> q" using conjunct1 [OF N, rule_format, of 0 h 1 k r] r q by auto
  with c(1) r q show ?thesis
    by (intro exI [of _ "[0 \<mapsto> h, 1 \<mapsto> k]"] exI [of _ Map.empty] exI [of _ Map.empty] exI [of _ st] exI [of _ h] exI [of _ k] exI [of _ r] exI [of _ q]) simp
qed


text \<open>A server that stores every result: a client's native query fills its results object, and another
  client's query runs after it.\<close>

definition table_server :: "demo_world mysql_api" where
  "table_server = eager_api\<lparr>c_store_result := \<lambda>_ _ w. (True, w)\<rparr>"

lemma table_server_laws: "accepts table_server" "no_oom table_server" "one_cell_per_field table_server"
  "fst (c_real_query table_server h q w) = 0" "c_store_result table_server h b w = (True, w)"
  "c_rows table_server b w = [[Some ''7''], [None]]"
  "c_fetch_fields table_server b w = [\<lparr>field_name = ''id'', field_type = MYSQL_TYPE_LONG\<rparr>]" "serves table_server []"
  by (simp_all add: accepts_def no_oom_def one_cell_per_field_def serves_def frees_def table_server_def eager_api_def open_api_def demo_api_def)

lemma table_server_in_service: "in_service demo_framework table_server demo_map"
  using demo_in_service by (simp add: in_service_def table_server_laws)

lemma demo_table_client:
  obtains res st where
    "reach (clients_start demo_map) (client_step demo_framework table_server demo_map) (Map.empty, Map.empty, [0 \<mapsto> res], st)"
    and "map (map view_text) (ResultSet res) = [[''7''], [[]]]"
proof -
  let ?start = "clients_start demo_map" and ?step = "client_step demo_framework table_server demo_map"
  let ?res = "MysqlResults_with NativeString MysqlResultsOption_default :: view list results"
  let ?run = "run_native demo_formatter (\<lambda>_ _. []) table_server ''select id from t'' []"
  have e: "passes demo_framework" "hashmap_laws demo_map" by (rule demo_passes, rule demo_map_laws)
  have res: "mode ?res \<noteq> OnlyExec" "results_wf s ?res" for s :: "demo_world sys"
    by (simp_all add: MysqlResults_with_def MysqlResults_new_def results_wf_def)
  have 0: "reach ?start ?step (Map.empty, Map.empty, Map.empty, fresh_proxy)"
    by (rule reach_start) (simp add: clients_start_def fresh_proxy_ok)
  have 1: "reach ?start ?step (Map.empty, Map.empty, [0 \<mapsto> ?res], fresh_proxy)"
    by (rule reach_step [OF 0 client_results]) simp
  obtain r h s b res' t st where q: "query_start r h ?res s" "?run r ?res s = Inr (b, res', t)"
    "Query demo_framework table_server demo_map ?run demo_context ?res fresh_proxy = Inr (final_context demo_context res', res', st)"
    "settled demo_map {} fresh_proxy st res'"
    using native_call.Query_delivers [OF e fresh_proxy_ok table_server_laws(2,1) _ res(2), where ctx = demo_context
        and query = "''select id from t''" and args = "[]" and fmt = demo_formatter and tfmt = "\<lambda>_ _. []"]
      res(1) table_server_laws(3) by blast
  have 2: "reach ?start ?step (Map.empty, Map.empty, [0 \<mapsto> res'], st)"
    by (rule reach_step [OF 1]) (use client_native [OF table_server_laws(3) _ res(1) q(3), of "[0 \<mapsto> ?res]" 0] in simp)
  obtain w where w: "c_real_query table_server h (FormatQuery demo_formatter (\<lambda>_ _. []) ''select id from t'' [])
      (cleared_world table_server ?res s) = (0, w)"
    using table_server_laws(4) by (metis prod.collapse)
  have "map (map view_text) (ResultSet res') = [[''7''], [[]]]"
    using native_query_spec [OF q(1) res(1) w table_server_laws(5)] q(2)
    by (auto simp: run_native_def table_server_laws native_view_def ResultSet_def)
  with 2 show thesis by (rule that)
qed

theorem clients_views_stay_valid_witness:
  "\<exists>T Q R st res row v. reach (clients_start demo_map) (client_step demo_framework table_server demo_map) (T, Q, R, st) \<and>
    R 0 = Some res \<and> row \<in> set (ResultSet res) \<and> v \<in> set row \<and> view_text v = ''7'' \<and> read_view (ress (psys st)) v = Inr ''7''"
proof -
  obtain res st where c: "reach (clients_start demo_map) (client_step demo_framework table_server demo_map)
      (Map.empty, Map.empty, [0 \<mapsto> res], st)" "map (map view_text) (ResultSet res) = [[''7''], [[]]]"
    by (rule demo_table_client)
  obtain v row' where v: "ResultSet res = [[v], row']" "view_text v = ''7''" using c(2) by (auto simp: Cons_eq_map_conv)
  have "read_view (ress (psys st)) v = Inr (view_text v)"
    using conjunct1 [OF clients_views_stay_valid [OF table_server_in_service c(1)], rule_format, of 0 res "[v]" v] v by simp
  with c v show ?thesis
    by (intro exI [of _ Map.empty] exI [of _ "[0 \<mapsto> res]"] exI [of _ st] exI [of _ res] exI [of _ "[v]"] exI [of _ v]) simp
qed

end
