(* ===== verification/Example_Properties.thy ===== *)
theory Example_Properties
  imports Example_Future Client_System
begin

text \<open>
  What the example clients show of the proxy: each of their statements is a step of a client, so a test whose
  \<^verbatim>\<open>Begin\<close> succeeds leaves every connection with its owner; and where the examples read rows that need
  not be there.
\<close>

section \<open>A test as a client\<close>

definition clients_of :: "('m, 'w, 'f) scope \<Rightarrow> ('m, 'w, 'f) clients" where
  "clients_of sc = (Map.empty(0 := sc_handle sc), Map.empty, [0 \<mapsto> sc_native sc], sc_proxy sc)"

definition scope_ok :: "('m, 'w, 'f) runtime \<Rightarrow> ('m, 'w, 'f) scope \<Rightarrow> bool" where
  "scope_ok rt sc \<longleftrightarrow>
     clients_ok (rt_api rt) (rt_map rt) (clients_of sc) \<and> mode (sc_native sc) = NativeString \<and> mysql_res (sc_exec sc) = None"

text \<open>The environment: the framework lets calls through, the server takes connections and starts transactions,
  and what it sends has one cell per field.\<close>

definition works :: "('m, 'w, 'f) runtime \<Rightarrow> bool" where
  "works rt \<longleftrightarrow> passes (rt_fw rt) \<and> in_service (rt_fw rt) (rt_api rt) (rt_map rt) \<and> one_cell_per_field (rt_api rt) \<and>
     (\<forall>h w. fst (c_real_query (rt_api rt) h ''begin'' w) = 0) \<and> serves (rt_api rt) [InString []] \<and>
     (\<forall>w. na_ip (ctx_addr (fst (new_context (rt_fw rt) w))) \<noteq> [] \<and> status_OK (ctx_status (fst (new_context (rt_fw rt) w)))) \<and>
     frame_ret (unknown_error (rt_fw rt)) \<noteq> 0"

lemma worksD:
  assumes "works rt"
  shows "passes (rt_fw rt)" "hashmap_laws (rt_map rt)" "no_oom (rt_api rt)" "accepts (rt_api rt)" "takes_tasks (rt_fw rt)"
    "in_service (rt_fw rt) (rt_api rt) (rt_map rt)" "one_cell_per_field (rt_api rt)"
    "\<And>h w. fst (c_real_query (rt_api rt) h ''begin'' w) = 0" "serves (rt_api rt) [a]" "serves (rt_api rt) []"
    "frame_ret (unknown_error (rt_fw rt)) \<noteq> 0"
  using assms by (auto simp: works_def in_service_def serves_def)

lemma scope_okD:
  assumes "scope_ok rt sc"
  shows "owners_ok (rt_api rt) (rt_map rt) (Map.empty(0 := sc_handle sc), Map.empty, sc_proxy sc)"
    and "results_wf (psys (sc_proxy sc)) (sc_native sc)" and "mode (sc_native sc) \<noteq> OnlyExec" and "mysql_res (sc_exec sc) = None"
    and "clients_ok (rt_api rt) (rt_map rt) (clients_of sc)"
proof -
  have "results_ok [0 \<mapsto> sc_native sc] (psys (sc_proxy sc))" using assms by (simp add: scope_ok_def clients_ok_def clients_of_def)
  then show "results_wf (psys (sc_proxy sc)) (sc_native sc)" by (rule results_okD(1)) simp
qed (use assms in \<open>simp_all add: scope_ok_def clients_ok_def clients_of_def\<close>)

text \<open>A step of the clients is a step of the test.\<close>

lemma scope_ok_step:
  assumes "works rt" and "scope_ok rt sc" and "client_step (rt_fw rt) (rt_api rt) (rt_map rt) (clients_of sc) (clients_of sc')"
    and "mode (sc_native sc') = NativeString" and "mysql_res (sc_exec sc') = None"
  shows "scope_ok rt sc'"
  using client_step_ok [OF scope_okD(5) [OF assms(2)] worksD(6) [OF assms(1)] assms(3)] assms(4,5) by (simp add: scope_ok_def)

text \<open>\<open>does rt P c Q\<close>: from a scope in order with \<open>P\<close> the statement \<open>c\<close> returns, leaves a scope in order, and \<open>Q\<close>
  holds if the test goes on. \<open>ends\<close> is the same for what is left of the test.\<close>

definition does ::
  "('m, 'w, 'f) runtime \<Rightarrow> (('m, 'w, 'f) scope \<Rightarrow> bool) \<Rightarrow> ('m, 'w, 'f) statement \<Rightarrow> (('m, 'w, 'f) scope \<Rightarrow> bool) \<Rightarrow> bool" where
  "does rt P c Q \<longleftrightarrow>
     (\<forall>sc. scope_ok rt sc \<longrightarrow> P sc \<longrightarrow> (\<exists>on sc'. c sc = Inr (on, sc') \<and> scope_ok rt sc' \<and> (on \<longrightarrow> Q sc')))"

definition ends :: "('m, 'w, 'f) runtime \<Rightarrow> (('m, 'w, 'f) scope \<Rightarrow> bool) \<Rightarrow> ('m, 'w, 'f) statement list \<Rightarrow> bool" where
  "ends rt P cs \<longleftrightarrow> (\<forall>sc. scope_ok rt sc \<longrightarrow> P sc \<longrightarrow> (\<exists>sc'. run_block cs sc = Inr sc' \<and> scope_ok rt sc'))"

lemma ends_Nil: "ends rt P []"
  by (simp add: ends_def)

lemma ends_Cons: "does rt P c Q \<Longrightarrow> ends rt Q cs \<Longrightarrow> ends rt P (c # cs)"
  by (fastforce simp: does_def ends_def)

lemma doesI:
  "(\<And>sc. scope_ok rt sc \<Longrightarrow> P sc \<Longrightarrow> \<exists>on sc'. c sc = Inr (on, sc') \<and> scope_ok rt sc' \<and> (on \<longrightarrow> Q sc')) \<Longrightarrow> does rt P c Q"
  by (simp add: does_def)

lemma goes_onI:
  "(\<And>sc. scope_ok rt sc \<Longrightarrow> P sc \<Longrightarrow> \<exists>sc'. c sc = Inr (True, sc') \<and> scope_ok rt sc' \<and> Q sc') \<Longrightarrow> does rt P c Q"
  by (fastforce simp: does_def)

lemma does_weaken: "does rt P c Q \<Longrightarrow> (\<And>sc. P' sc \<Longrightarrow> P sc) \<Longrightarrow> (\<And>sc. Q sc \<Longrightarrow> Q' sc) \<Longrightarrow> does rt P' c Q'"
  by (fastforce simp: does_def)

section \<open>The statements\<close>

lemma scope_ok_out [simp]:
  "scope_ok rt (sc\<lparr>sc_out := out\<rparr>) = scope_ok rt sc" "scope_ok rt (sc\<lparr>sc_log := err\<rparr>) = scope_ok rt sc"
  by (simp_all add: scope_ok_def clients_of_def)

lemma does_say:
  assumes "\<And>sc out. P sc \<Longrightarrow> P (sc\<lparr>sc_out := out\<rparr>)"
  shows "does rt P (say s) P" and "does rt P (say_line s) P"
  using assms by (auto intro!: goes_onI simp: say_def say_line_def)

lemma does_ERROR_CHECK: "does rt (\<lambda>sc. status_OK (sc_status sc) \<longrightarrow> P sc) (ERROR_CHECK rt) P"
  by (auto intro!: doesI simp: ERROR_CHECK_def log_status_def)

lemma does_check_also: "does rt P (check_also rt A) P"
  by (auto intro!: doesI simp: check_also_def log_status_def)

lemma store_rows_mode: "foldE (store_native_row b n) rows res = Inr res' \<Longrightarrow> mode res' = mode res"
proof (induction rows arbitrary: res)
  case (Cons row rows)
  then obtain res1 where "store_native_row b n row res = Inr res1" "foldE (store_native_row b n) rows res1 = Inr res'"
    by (auto simp: bindE_Inr_iff)
  moreover have "mode res1 = mode res" using calculation(1) by (auto simp: store_native_row_def bindE_Inr_iff)
  ultimately show ?case using Cons.IH by simp
qed simp

lemma run_native_mode:
  assumes "run_native fmt tfmt api query args conn res s = Inr (ok, res', t)"
  shows "mode res' = mode res"
  using assms
  by (auto simp: run_native_def QueryAll_native_def QueryAll_def QueryAllInternal_native_def conn_fail_def set_error_def
      SetErrorNumber_def SetErrorMessage_def SetRawMysqlRes_def SetFieldsName_def Clear_def Let_def bindE_Inr_iff
      split: if_splits option.splits dest!: store_rows_mode)

lemma does_begin:
  assumes "works rt"
  shows "does rt (\<lambda>sc. sc_handle sc = None \<and> na_ip (ctx_addr (sc_ctx sc)) \<noteq> [] \<and> status_OK (ctx_status (sc_ctx sc)))
    (begin_tx rt) (\<lambda>sc. sc_handle sc \<noteq> None)"
proof (rule goes_onI)
  fix sc :: "('a, 'b, 'c) scope"
  assume ok: "scope_ok rt sc" and pre: "sc_handle sc = None \<and> na_ip (ctx_addr (sc_ctx sc)) \<noteq> [] \<and> status_OK (ctx_status (sc_ctx sc))"
  note W = worksD [OF assms] and D = owners_okD [OF scope_okD(1) [OF ok]]
  obtain h st where b: "Begin (rt_fw rt) (rt_api rt) (rt_map rt) (sc_ctx sc) None (sc_proxy sc) = Inr (sc_ctx sc, Some h, st)"
    using Begin_starts [OF W(1,2) D(1) W(3,4), of "sc_ctx sc"] pre W(8) by blast
  let ?sc = "returned (sc_ctx sc) st (sc\<lparr>sc_handle := Some h\<rparr>)"
  have "client_step (rt_fw rt) (rt_api rt) (rt_map rt) (clients_of sc) (clients_of ?sc)"
    using client_begin [OF _ b, of Map.empty 0] pre by (simp add: clients_of_def returned_def)
  then have "scope_ok rt ?sc" by (rule scope_ok_step [OF assms ok]) (use ok in \<open>simp_all add: scope_ok_def returned_def\<close>)
  moreover have "begin_tx rt sc = Inr (True, ?sc)" using b pre by (simp add: begin_tx_def)
  ultimately show "\<exists>sc'. begin_tx rt sc = Inr (True, sc') \<and> scope_ok rt sc' \<and> sc_handle sc' \<noteq> None"
    by (simp add: returned_def)
qed

lemma does_execute_tx:
  assumes "works rt"
  shows "does rt (\<lambda>sc. sc_handle sc \<noteq> None) (execute_tx rt query [a]) (\<lambda>sc. sc_handle sc \<noteq> None)"
proof (rule goes_onI)
  fix sc :: "('a, 'b, 'c) scope"
  assume ok: "scope_ok rt sc" and pre: "sc_handle sc \<noteq> None"
  then obtain h where h: "sc_handle sc = Some h" by blast
  note W = worksD [OF assms] and D = owners_okD [OF scope_okD(1) [OF ok]] and none = scope_okD(4) [OF ok]
  obtain ctx h' res st where q: "Query_tx (rt_fw rt) (rt_api rt) (rt_map rt) (run_exec (rt_api rt) query [a]) (sc_ctx sc) (Some h)
      (sc_exec sc) (sc_proxy sc) = Inr (ctx, Some h', res, st)"
    using exec_call.Query_tx_returns [OF D(1) D(3) W(9) results_wf_none [OF none] W(5), of 0 h, where query = query] h by fastforce
  let ?sc = "returned ctx st (sc\<lparr>sc_handle := Some h', sc_exec := res\<rparr>)"
  have "mysql_res res = None"
    using Query_tx_results [OF q] run_exec_owns_none none by blast
  moreover have "client_step (rt_fw rt) (rt_api rt) (rt_map rt) (clients_of sc) (clients_of ?sc)"
    using client_statement [OF _ W(9) none q, of "Map.empty(0 \<mapsto> h)" 0] h by (simp add: clients_of_def returned_def)
  ultimately have "scope_ok rt ?sc"
    by (intro scope_ok_step [OF assms ok]) (use ok in \<open>simp_all add: scope_ok_def returned_def\<close>)
  moreover have "execute_tx rt query [a] sc = Inr (True, ?sc)" using q h by (simp add: execute_tx_def proxy_Execute_tx_def)
  ultimately show "\<exists>sc'. execute_tx rt query [a] sc = Inr (True, sc') \<and> scope_ok rt sc' \<and> sc_handle sc' \<noteq> None"
    by (simp add: returned_def)
qed

lemma does_query_tx:
  assumes "works rt"
  shows "does rt (\<lambda>sc. sc_handle sc \<noteq> None) (query_tx rt query args) (\<lambda>sc. sc_handle sc \<noteq> None)"
proof (rule goes_onI)
  fix sc :: "('a, 'b, 'c) scope"
  assume ok: "scope_ok rt sc" and pre: "sc_handle sc \<noteq> None"
  then obtain h where h: "sc_handle sc = Some h" by blast
  note W = worksD [OF assms] and S = scope_okD [OF ok] and D = owners_okD [OF scope_okD(1) [OF ok]]
  obtain ctx h' res st where q: "Query_tx (rt_fw rt) (rt_api rt) (rt_map rt) (run_rows rt query args) (sc_ctx sc) (Some h)
      (sc_native sc) (sc_proxy sc) = Inr (ctx, Some h', res, st)"
    using native_call.Query_tx_returns [OF D(1) D(3) _ S(2) W(5), of 0 h, where query = query and args = args] h S(3) W(7)
    unfolding run_rows_def by fastforce
  let ?sc = "returned ctx st (sc\<lparr>sc_handle := Some h', sc_native := res\<rparr>)"
  have "mode res = mode (sc_native sc)" using Query_tx_results [OF q] run_native_mode unfolding run_rows_def by blast
  moreover have "client_step (rt_fw rt) (rt_api rt) (rt_map rt) (clients_of sc) (clients_of ?sc)"
    using client_native_statement [OF _ W(7) _ S(3) q [unfolded run_rows_def], of "Map.empty(0 \<mapsto> h)" 0 "[0 \<mapsto> sc_native sc]" 0] h
    by (simp add: clients_of_def returned_def)
  ultimately have "scope_ok rt ?sc"
    by (intro scope_ok_step [OF assms ok]) (use ok in \<open>simp_all add: scope_ok_def returned_def\<close>)
  moreover have "query_tx rt query args sc = Inr (True, ?sc)" using q h by (simp add: query_tx_def)
  ultimately show "\<exists>sc'. query_tx rt query args sc = Inr (True, sc') \<and> scope_ok rt sc' \<and> sc_handle sc' \<noteq> None"
    by (simp add: returned_def)
qed

lemma does_query_native:
  assumes "works rt"
  shows "does rt (\<lambda>sc. P (sc_handle sc)) (query_native rt query args) (\<lambda>sc. P (sc_handle sc))"
proof (rule goes_onI)
  fix sc :: "('a, 'b, 'c) scope"
  assume ok: "scope_ok rt sc" and pre: "P (sc_handle sc)"
  note W = worksD [OF assms] and S = scope_okD [OF ok] and D = owners_okD [OF scope_okD(1) [OF ok]]
  obtain ctx res st where q: "Query (rt_fw rt) (rt_api rt) (rt_map rt) (run_rows rt query args) (sc_ctx sc)
      (sc_native sc) (sc_proxy sc) = Inr (ctx, res, st)"
    using native_call.query_settles [OF W(2) D(1) W(3-5) _ S(2), where query = query and args = args] S(3) W(7)
    unfolding run_rows_def by blast
  let ?sc = "returned ctx st (sc\<lparr>sc_native := res\<rparr>)"
  have "mode res = mode (sc_native sc)" using Query_results [OF q] run_native_mode unfolding run_rows_def by blast
  moreover have "client_step (rt_fw rt) (rt_api rt) (rt_map rt) (clients_of sc) (clients_of ?sc)"
    using client_native [OF W(7) _ S(3) q [unfolded run_rows_def], of "[0 \<mapsto> sc_native sc]" 0]
    by (simp add: clients_of_def returned_def)
  ultimately have "scope_ok rt ?sc"
    by (intro scope_ok_step [OF assms ok]) (use ok in \<open>simp_all add: scope_ok_def returned_def\<close>)
  moreover have "query_native rt query args sc = Inr (True, ?sc)" using q by (simp add: query_native_def)
  ultimately show "\<exists>sc'. query_native rt query args sc = Inr (True, sc') \<and> scope_ok rt sc' \<and> P (sc_handle sc')"
    using pre by (simp add: returned_def)
qed

text \<open>A transaction whose end reports success is in its final state.\<close>

lemma finish_state:
  assumes f: "finish_transaction F api H q rb ctx (Some h) st = Inr (ctx', hdl, st')" and bad: "frame_ret (unknown_error F) \<noteq> 0"
    and good: "status_OK (ctx_status ctx')"
  shows "\<exists>h'. hdl = Some h' \<and> GetState h' = (if rb then kRollBacked else kCommitted)"
proof -
  obtain c k res st1 where 1: "Query_tx F api H (run_exec api q []) ctx (Some h) (MysqlResults_new OnlyExec :: exec_results) st =
      Inr (c, k, res, st1)" using f by (auto simp: finish_transaction_def proxy_Execute_tx_def bindE_Inr_iff)
  show ?thesis
  proof (cases "OK res")
    case False
    with f 1 bad good show ?thesis
      by (auto simp: finish_transaction_def proxy_Execute_tx_def bindE_Inr_iff set_status_def status_OK_def)
  next
    case True
    with f 1 obtain b st2 where "EndTransaction api H rb k st1 = Inr (b, hdl, st2)"
      by (auto simp: finish_transaction_def proxy_Execute_tx_def bindE_Inr_iff)
    then show ?thesis
      by (auto simp: EndTransaction_def bindE_Inr_iff Let_def GetState_def SetState_def TransferExecutor_def split: option.splits)
  qed
qed

lemma does_end_tx:
  assumes "works rt"
  shows "does rt (\<lambda>sc. sc_handle sc \<noteq> None) (end_tx rt rollback)
    (\<lambda>sc. status_OK (sc_status sc) \<longrightarrow> (\<exists>h. sc_handle sc = Some h \<and> GetState h = (if rollback then kRollBacked else kCommitted)))"
proof (rule goes_onI)
  fix sc :: "('a, 'b, 'c) scope"
  assume ok: "scope_ok rt sc" and pre: "sc_handle sc \<noteq> None"
  then obtain h where h: "sc_handle sc = Some h" by blast
  note W = worksD [OF assms] and D = owners_okD [OF scope_okD(1) [OF ok]]
  let ?finish = "if rollback then Rollback else Commit"
  obtain ctx h' st where q: "?finish (rt_fw rt) (rt_api rt) (rt_map rt) (sc_ctx sc) (Some h) (sc_proxy sc) = Inr (ctx, Some h', st)"
    using end_returns [OF W(2) D(1) D(3) W(5), of 0 h rollback "rt_api rt" "sc_ctx sc"] h by fastforce
  let ?sc = "returned ctx st (sc\<lparr>sc_handle := Some h'\<rparr>)"
  have "client_step (rt_fw rt) (rt_api rt) (rt_map rt) (clients_of sc) (clients_of ?sc)"
    using client_finish [OF _ q, of "Map.empty(0 \<mapsto> h)" 0] h by (simp add: clients_of_def returned_def)
  then have "scope_ok rt ?sc"
    by (rule scope_ok_step [OF assms ok]) (use ok in \<open>simp_all add: scope_ok_def returned_def\<close>)
  moreover have "GetState h' = (if rollback then kRollBacked else kCommitted)" if "status_OK (ctx_status ctx)"
  proof -
    obtain sql_str where "finish_transaction (rt_fw rt) (rt_api rt) (rt_map rt) sql_str rollback (sc_ctx sc) (Some h) (sc_proxy sc) =
        Inr (ctx, Some h', st)" using q by (cases rollback) (auto simp: Rollback_def Commit_def)
    from finish_state [OF this W(11) that] show ?thesis by simp
  qed
  moreover have "end_tx rt rollback sc = Inr (True, ?sc)" using q h by (simp add: end_tx_def del: if_split)
  ultimately show "\<exists>sc'. end_tx rt rollback sc = Inr (True, sc') \<and> scope_ok rt sc' \<and> (status_OK (sc_status sc') \<longrightarrow>
      (\<exists>h. sc_handle sc' = Some h \<and> GetState h = (if rollback then kRollBacked else kCommitted)))"
    by (auto simp: returned_def)
qed

section \<open>The rollback example\<close>

lemma enter_ok:
  assumes "works rt" and "proxy_ok (rt_map rt) {} st"
  shows "scope_ok rt (enter rt (out, err, st))" and "sc_handle (enter rt (out, err, st)) = None"
    and "na_ip (ctx_addr (sc_ctx (enter rt (out, err, st)))) \<noteq> []" and "status_OK (ctx_status (sc_ctx (enter rt (out, err, st))))"
proof -
  obtain ctx w where n: "new_context (rt_fw rt) (fw st) = (ctx, w)" by fastforce
  have "fst (new_context (rt_fw rt) (fw st)) = ctx" using n by simp
  then have "na_ip (ctx_addr ctx) \<noteq> [] \<and> status_OK (ctx_status ctx)" using assms(1) unfolding works_def by blast
  then show "na_ip (ctx_addr (sc_ctx (enter rt (out, err, st)))) \<noteq> []" "status_OK (ctx_status (sc_ctx (enter rt (out, err, st))))"
    using n by (simp_all add: enter_def)
  show "sc_handle (enter rt (out, err, st)) = None" using n by (simp add: enter_def)
  have "results_ok Map.empty (psys st)" by (simp add: results_ok_def)
  then have "results_ok [0 \<mapsto> MysqlResults_new NativeString] (psys st)"
    by (rule results_ok_new) (simp_all add: results_wf_def table_ok_def MysqlResults_new_def)
  then show "scope_ok rt (enter rt (out, err, st))"
    using n assms(2) by (auto simp: enter_def scope_ok_def clients_ok_def clients_of_def owners_ok_def owned_def one_owner_def
        MysqlResults_new_def)
qed

text \<open>The destructors at the end.\<close>

lemma drop_native_returns:
  assumes "works rt" and "scope_ok rt sc"
  obtains sc' where "drop_native rt sc = Inr sc'" and "sc_handle sc' = sc_handle sc"
    and "owners_ok (rt_api rt) (rt_map rt) (Map.empty(0 := sc_handle sc), Map.empty, sc_proxy sc')"
proof -
  note S = scope_okD [OF assms(2)]
  obtain st where d: "drop_results (rt_api rt) (sc_native sc) (sc_proxy sc) = Inr st"
    by (rule drop_results_returns [OF owners_okD(1) [OF S(1)] S(2)])
  have "client_step (rt_fw rt) (rt_api rt) (rt_map rt) (clients_of sc)
      (Map.empty(0 := sc_handle sc), Map.empty, [0 \<mapsto> sc_native sc](0 := None), st)"
    unfolding clients_of_def by (rule client_drop_results [OF _ d]) simp
  from client_step_ok [OF S(5) worksD(6) [OF assms(1)] this]
  have "owners_ok (rt_api rt) (rt_map rt) (Map.empty(0 := sc_handle sc), Map.empty, st)" by (simp add: clients_ok_def)
  with d that [of "sc\<lparr>sc_proxy := st\<rparr>"] show thesis by (simp add: drop_native_def)
qed

lemma drop_tx_returns:
  assumes "owners_ok (rt_api rt) (rt_map rt) (Map.empty(0 := sc_handle sc), Map.empty, sc_proxy sc)"
  obtains sc' where "drop_tx rt sc = Inr sc'" and "proxy_ok (rt_map rt) {} (sc_proxy sc')"
proof (cases "sc_handle sc")
  case None
  then show thesis using that [of "sc\<lparr>sc_proxy := sc_proxy sc\<rparr>"] owners_okD(1) [OF assms]
    by (simp add: drop_tx_def drop_handle_def owned_def)
next
  case (Some h)
  have "owned (Map.empty(0 := sc_handle sc)) = set_option (tx_executor h)" using Some by (simp add: owned_def)
  then obtain s where "TransactionHandle_destroy (rt_api rt) h (psys (sc_proxy sc)) = Inr s"
    "proxy_ok (rt_map rt) {} (put_sys s (sc_proxy sc))"
    using TransactionHandle_destroy_returns [OF owners_okD(1) [OF assms], of h "rt_api rt"] by auto
  with Some that [of "sc\<lparr>sc_proxy := put_sys s (sc_proxy sc)\<rparr>"] show thesis by (simp add: drop_tx_def drop_handle_def)
qed

lemma rollback_scope_returns:
  assumes "works rt" and "proxy_ok (rt_map rt) {} st"
    and "ends rt (\<lambda>sc. sc_handle sc = None \<and> na_ip (ctx_addr (sc_ctx sc)) \<noteq> [] \<and> status_OK (ctx_status (sc_ctx sc))) body"
  shows "\<exists>out' err' st'. in_scope rt (\<lambda>sc. bindE (drop_native rt sc) (drop_tx rt)) body (out, err, st) = Inr (out', err', st') \<and>
    proxy_ok (rt_map rt) {} st'"
proof -
  obtain sc where 1: "run_block body (enter rt (out, err, st)) = Inr sc" "scope_ok rt sc"
    using assms(3) enter_ok [OF assms(1,2), of out err] unfolding ends_def by blast
  obtain sc2 where 2: "drop_native rt sc = Inr sc2" "sc_handle sc2 = sc_handle sc"
    "owners_ok (rt_api rt) (rt_map rt) (Map.empty(0 := sc_handle sc), Map.empty, sc_proxy sc2)"
    by (rule drop_native_returns [OF assms(1) 1(2)])
  obtain sc3 where "drop_tx rt sc2 = Inr sc3" "proxy_ok (rt_map rt) {} (sc_proxy sc3)"
    by (rule drop_tx_returns [of rt sc2]) (use 2 in simp)
  with 1 2 show ?thesis by (simp add: in_scope_def)
qed


text \<open>A working runtime, with the proxy of the clients.\<close>

definition demo_runtime :: "((string \<times> nat) list, demo_world, unit) runtime" where
  "demo_runtime = \<lparr>rt_fw = demo_framework, rt_api = table_server, rt_map = demo_map, rt_printf = (\<lambda>_ _. []),
     rt_random = (\<lambda>w. (7, w)), rt_set_timeout = (\<lambda>_ ctx w. (ctx, w)), rt_inline = True\<rparr>"

lemma demo_runtime_works: "works demo_runtime"
proof -
  have "passes demo_framework" "in_service demo_framework table_server demo_map" "one_cell_per_field table_server"
    by (rule demo_passes, rule table_server_in_service, rule table_server_laws)
  moreover have "serves table_server [InString []]"
    by (simp add: serves_def frees_def table_server_def eager_api_def open_api_def demo_api_def)
  moreover have "na_ip (ctx_addr (fst (new_context demo_framework w))) \<noteq> []" "status_OK (ctx_status (fst (new_context demo_framework w)))"
    "frame_ret (unknown_error demo_framework) \<noteq> 0" for w
    by (simp_all add: demo_framework_def demo_addr_def status_OK_def status_ok_def)
  ultimately show ?thesis using table_server_laws(4) by (simp add: works_def demo_runtime_def)
qed


section \<open>Where the examples go wrong\<close>

text \<open>The query example takes the first row of its result without asking whether there is one: when no
  user matches, it reads out of range.\<close>

theorem missing_user_reads_out_of_range:
  assumes F: "passes (rt_fw rt)" and H: "hashmap_laws (rt_map rt)" and ok: "proxy_ok (rt_map rt) U st"
    and oom: "no_oom (rt_api rt)" and acc: "accepts (rt_api rt)"
    and fine: "\<And>w. status_OK (ctx_status (fst (new_context (rt_fw rt) w)))"
    and sv: "stmt_succeeds (rt_api rt) fm 2" "columns_valid [OInt32, OString] fm"
    and none: "\<And>b w. \<exists>w'. fetches (rt_api rt) b (snd (s_store_result (rt_api rt) b w)) [] w'"
  shows "TestQuery rt (out, err, st) = Inl Out_of_range"
proof -
  obtain ctx w where n: "new_context (rt_fw rt) (fw st) = (ctx, w)" by fastforce
  then have good: "status_OK (ctx_status ctx)" using fine [of "fw st"] by simp
  let ?res = "MysqlResults_new BindType :: out_value list results"
  have "\<exists>res' st'. Query (rt_fw rt) (rt_api rt) (rt_map rt)
      (run_tuples rt [OInt32, OString] ''select id, username from users where id = ? and username = ?''
        [InScalar (Int32 3), InString ''carol'']) ctx ?res (st\<lparr>fw := w\<rparr>) = Inr (ctx, res', st') \<and> ResultSet res' = []"
    unfolding run_tuples_def
    using typed_rows_arrive [OF F H _ oom acc, of U "st\<lparr>fw := w\<rparr>" ?res fm "[InScalar (Int32 3), InString ''carol'']" "[OInt32, OString]" "[]"
        "format_string (rt_fw rt)" "''select id, username from users where id = ? and username = ?''" ctx] ok sv none
    by (fastforce simp: MysqlResults_new_def results_wf_def rows_fit_def numeral_2_eq_2)
  then show ?thesis using n good
    by (auto simp: TestQuery_def in_scope_def enter_def say_def query_typed_def returned_def ERROR_CHECK_def say_user_def
        first_row_def nthE_def)
qed

definition no_users :: "demo_world mysql_api" where
  "no_users = open_api
     \<lparr>s_prepare := (\<lambda>_ _ w. (0, w)), s_execute := (\<lambda>_ w. (0, w)), s_field_count := (\<lambda>_ _. 2), s_fetch := (\<lambda>_ w. (No_data, w)),
      c_fetch_fields := (\<lambda>_ _. [\<lparr>field_name = ''id'', field_type = MYSQL_TYPE_LONG\<rparr>,
        \<lparr>field_name = ''username'', field_type = MYSQL_TYPE_VAR_STRING\<rparr>])\<rparr>"

theorem missing_user_reads_out_of_range_witness:
  "TestQuery (demo_runtime\<lparr>rt_api := no_users\<rparr>) (demo_cout, [], fresh_proxy) = Inl Out_of_range"
proof -
  let ?fm = "[\<lparr>field_name = ''id'', field_type = MYSQL_TYPE_LONG\<rparr>, \<lparr>field_name = ''username'', field_type = MYSQL_TYPE_VAR_STRING\<rparr>]"
  let ?rt = "demo_runtime\<lparr>rt_api := no_users\<rparr>"
  have sel: "rt_fw ?rt = demo_framework" "rt_map ?rt = demo_map" "rt_api ?rt = no_users" by (simp_all add: demo_runtime_def)
  have "stmt_succeeds no_users ?fm 2"
    by (simp add: stmt_succeeds_def no_users_def open_api_def demo_api_def frees_def)
  moreover have "columns_valid [OInt32, OString] ?fm"
    by (simp add: columns_valid_def less_Suc_eq OutputTypeValid_def)
  moreover have "no_oom no_users" "accepts no_users"
    by (simp_all add: no_oom_def accepts_def no_users_def open_api_def demo_api_def)
  moreover have "status_OK (ctx_status (fst (new_context demo_framework w)))" for w
    by (simp add: demo_framework_def status_OK_def status_ok_def)
  moreover have "\<exists>w'. fetches no_users b (snd (s_store_result no_users b w)) [] w'" for b w by (simp add: no_users_def)
  ultimately show ?thesis
    using missing_user_reads_out_of_range [of ?rt "{}" fresh_proxy ?fm demo_cout "[]"] demo_passes demo_map_laws fresh_proxy_ok
    unfolding sel by blast
qed

text \<open>The asynchronous example of the fibers opens the latch its continuation waits for only after \<^verbatim>\<open>Then\<close>
  has returned. When the call is rejected by a filter the future has failed before \<^verbatim>\<open>Then\<close> is called, so a
  continuation that runs at once waits for good.\<close>

theorem rejected_async_example_hangs:
  assumes "rt_inline rt" and "\<And>ctx w. fst (message_filters (rt_fw rt) CLIENT_PRE_RPC_INVOKE ctx w)"
  shows "TestFiberAsync rt io = Inl Diverges"
proof -
  let ?sc = "enter rt io"
  have "fst (async_enter (rt_fw rt) (sc_ctx ?sc) (sc_proxy ?sc))"
    using assms(2) by (simp add: async_enter_def fw_call_def fw_do_def case_prod_unfold Let_def)
  then obtain m a where "async_start (rt_fw rt) (sc_ctx ?sc) (sc_proxy ?sc) =
      Inr (Inl (Failed m :: view list results future), a)"
    by (auto simp: async_start_def async_reject_def case_prod_unfold Let_def)
  then show ?thesis using assms(1) by (cases a) (simp add: TestFiberAsync_def Let_def)
qed

theorem rejected_async_example_hangs_witness:
  "TestFiberAsync (demo_runtime\<lparr>rt_fw := demo_framework\<lparr>message_filters := \<lambda>_ ctx w. (True, ctx, w)\<rparr>\<rparr>) (demo_cout, [], fresh_proxy) =
    Inl Diverges"
  by (rule rejected_async_example_hangs) (simp_all add: demo_runtime_def)

lemma null_handle_query:
  "async_enter F ctx st = (False, ctx, st') \<Longrightarrow> AsyncQuery_tx F api H run m ctx None st = Inl Null_dereference"
  by (simp add: AsyncQuery_tx_def deref_handle_def)

text \<open>The transaction of the future client ignores that \<^verbatim>\<open>AsyncBegin\<close> failed: when no node is found for it the
  handle is still null, and the next statement dereferences it.\<close>

theorem failed_async_begin_uses_null_handle:
  assumes F: "passes (rt_fw rt)" and E: "in_service (rt_fw rt) (rt_api rt) (rt_map rt)" and cells: "one_cell_per_field (rt_api rt)"
    and ok: "proxy_ok (rt_map rt) U st"
    and no_addr: "\<And>w. na_ip (ctx_addr (fst (new_context (rt_fw rt) w))) = []"
    and not_found: "\<And>ctx w. \<not> fst (select_target (rt_fw rt) ctx w)"
  shows "TestAsyncTx rt (out, err, st) = Inl Null_dereference"
proof -
  let ?sc = "enter rt (out, err, st)"
  have e: "hashmap_laws (rt_map rt)" "no_oom (rt_api rt)" "accepts (rt_api rt)" using E by (simp_all add: in_service_def)
  have enter: "na_ip (ctx_addr (sc_ctx ?sc)) = []" "proxy_ok (rt_map rt) U (sc_proxy ?sc)" "sc_handle ?sc = None"
    "sc_native ?sc = MysqlResults_new NativeString"
    using no_addr [of "fw st"] ok by (simp_all add: enter_def case_prod_unfold Let_def)
  obtain res st2 where q: "Query (rt_fw rt) (rt_api rt) (rt_map rt) (run_rows rt ''select * from users'' []) (sc_ctx ?sc) (sc_native ?sc)
      (sc_proxy ?sc) = Inr (final_context (sc_ctx ?sc) res, res, st2)"
    using native_call.Query_delivers [OF F e(1) enter(2) e(2,3), where query = "''select * from users''" and args = "[]"
        and ctx = "sc_ctx ?sc" and res = "sc_native ?sc"] cells enter(4)
    unfolding run_rows_def by (simp add: MysqlResults_new_def results_wf_def) metis
  let ?ctx = "final_context (sc_ctx ?sc) res"
  have addr: "na_ip (ctx_addr ?ctx) = []" using enter(1) by (simp add: final_context_def set_status_def)
  have go: "\<exists>w. async_enter (rt_fw rt) ctx st = (False, ctx, st\<lparr>fw := w\<rparr>)" for ctx st
  proof -
    obtain w1 where 1: "fw_do (fill_context (rt_fw rt)) ctx st = (ctx, st\<lparr>fw := w1\<rparr>)" using passes_fill [OF F] by blast
    obtain w2 where "fw_call (message_filters (rt_fw rt) CLIENT_PRE_RPC_INVOKE) ctx (st\<lparr>fw := w1\<rparr>) = (False, ctx, st\<lparr>fw := w1, fw := w2\<rparr>)"
      using passes_filters [OF F, of CLIENT_PRE_RPC_INVOKE ctx "st\<lparr>fw := w1\<rparr>"] by blast
    with 1 show ?thesis by (auto simp: async_enter_def)
  qed
  obtain w where w: "async_enter (rt_fw rt) ?ctx st2 = (False, ?ctx, st2\<lparr>fw := w\<rparr>)" using go by blast
  have "\<exists>s u. begin_address (rt_fw rt) ?ctx (st2\<lparr>fw := w\<rparr>) = (Inl s, u)"
    using addr not_found by (auto simp: begin_address_def fw_call_def fw_do_def case_prod_unfold Let_def)
  then obtain m c u where b: "AsyncBegin (rt_fw rt) (rt_api rt) (rt_map rt) ?ctx st2 = Inr (Failed m, c, None, u)"
    using w by (auto simp: AsyncBegin_def)
  obtain w' where "async_enter (rt_fw rt) c u = (False, c, u\<lparr>fw := w'\<rparr>)" using go by blast
  note null = null_handle_query [OF this]
  show ?thesis using q b enter(3)
    by (simp add: null TestAsyncTx_def in_scope_def query_native_def async_begin_def async_alice_def async_rows_def returned_def BlockingGet_def)
qed

definition lost_node :: "unit framework" where
  "lost_node = demo_framework
     \<lparr>new_context := (\<lambda>w. (\<lparr>ctx_status = status_ok, ctx_addr = \<lparr>na_ip = [], na_port = 0\<rparr>\<rparr>, w)),
      select_target := (\<lambda>ctx w. (False, ctx, w))\<rparr>"

theorem failed_async_begin_uses_null_handle_witness:
  "TestAsyncTx (demo_runtime\<lparr>rt_fw := lost_node\<rparr>) (demo_cout, [], fresh_proxy) = Inl Null_dereference"
proof -
  have "passes lost_node" by (simp add: passes_def takes_tasks_def lost_node_def demo_framework_def)
  moreover have "in_service lost_node table_server demo_map"
    using calculation table_server_in_service by (simp add: in_service_def passes_def)
  ultimately show ?thesis
    using failed_async_begin_uses_null_handle [of "demo_runtime\<lparr>rt_fw := lost_node\<rparr>" "{}" fresh_proxy demo_cout "[]"]
      table_server_laws(3) fresh_proxy_ok
    by (simp add: demo_runtime_def lost_node_def)
qed

end
