(* ===== verification/Tx_Async.thy ===== *)
theory Tx_Async
  imports Client_Owners
begin

text \<open>
  The asynchronous calls of a transaction cut at the hand-over of their task to the thread pool: what the call
  does before it returns, and what happens when the task runs, at any later time. The task holds a reference to
  the connection of the transaction.
\<close>

section \<open>The calls in their steps\<close>

text \<open>\<^verbatim>\<open>AsyncQuery\<close> with a handle. \<open>Inl\<close>: the future is already completed, or never will be; \<open>Inr r\<close>: the task waits,
  with a reference to the executor \<open>r\<close>.\<close>

definition tx_done ::
  "('r results future \<times> ('m, 'w, 'f) async_state) result \<Rightarrow> (('r results future + nat) \<times> ('m, 'w, 'f) async_state) result" where
  "tx_done x = bindE x (\<lambda>(fut, a). Inr (Inl fut, a))"


definition async_tx_start ::
  "'f framework \<Rightarrow> 'w mysql_api \<Rightarrow> call_context \<Rightarrow> tx option \<Rightarrow> ('m, 'w, 'f) proxy \<Rightarrow>
   (('r results future + nat) \<times> ('m, 'w, 'f) async_state) result" where
  "async_tx_start F api ctx hdl st =
     (let (reject, ctx, st) = async_enter F ctx st in
      if reject then tx_done (async_reject F (status_msg (ctx_status ctx)) ctx hdl st)
      else
        bindE (deref_handle hdl) (\<lambda>h.
          if GetState h \<noteq> kStarted then
            tx_done (async_reject F ''Invalid handle.''
              (set_status \<lparr>frame_ret = TRPC_MYSQL_INVALID_HANDLE, status_msg = ''Invalid handle.''\<rparr> ctx) hdl st)
          else
            bindE (deref (GetExecutor_of h)) (\<lambda>r.
            bindE (CheckAlive api r (psys st)) (\<lambda>(alive, s).
              let st = put_sys s st in
              if \<not> alive then
                tx_done (async_reject F ''Connect error. Rollback.'' (set_status (lost_status F) ctx)
                  (Some (SetState kRollBacked h)) st)
              else
                bindE (async_send F (ctx, hdl, st)) (\<lambda>(s, ctx, hdl, st).
                  case s of
                    Refused msg \<Rightarrow> tx_done (post_invoke F (Failed msg) (ctx, hdl, st))
                  | Lost \<Rightarrow> Inr (Inl Pending, ctx, hdl, st)
                  | Queued \<Rightarrow> bindE (capture (Some r) st) (\<lambda>st. Inr (Inr r, ctx, hdl, st)))))))"

definition async_tx_finish ::
  "'f framework \<Rightarrow> 'w mysql_api \<Rightarrow> 'm hashmap_api \<Rightarrow> ('r, 'w) runner \<Rightarrow> MysqlResultsMode \<Rightarrow> nat \<Rightarrow>
   ('m, 'w, 'f) async_state \<Rightarrow> ('r results future \<times> ('m, 'w, 'f) async_state) result" where
  "async_tx_finish F api H run m r a =
     (case a of (ctx, hdl, st) \<Rightarrow>
        bindE (run_task F api H run m (Some r) ctx st) (\<lambda>(fut, ctx, st).
        bindE (async_receive F fut (ctx, hdl, st)) (\<lambda>(fut, a). post_invoke F fut a)))"

lemma tx_done_bind [simp]: "bindE (tx_done x) (\<lambda>(s, a). case s of Inl fut \<Rightarrow> Inr (fut, a) | Inr r \<Rightarrow> f r a) = x"
  by (cases x) (auto simp: tx_done_def)

lemma tx_done_queued [simp]: "tx_done x \<noteq> Inr (Inr r, a)"
  by (auto simp: tx_done_def bindE_Inr_iff)

lemma receive_pending [simp]: "async_receive F Pending a = Inr (Pending, a)"
  by (simp add: async_receive_def and_then_def)

lemma post_pending [simp]: "post_invoke F Pending a = Inr (Pending, a)"
  by (simp add: post_invoke_def and_then_def)

text \<open>The steps, one right after the other, are the call.\<close>

lemma AsyncQuery_tx_steps:
  "AsyncQuery_tx F api H run m ctx hdl st =
     bindE (async_tx_start F api ctx hdl st) (\<lambda>(s, a).
       case s of Inl fut \<Rightarrow> Inr (fut, a) | Inr r \<Rightarrow> async_tx_finish F api H run m r a)"
proof -
  have tail: "bindE (AsyncUnaryInvoke F api H run m (Some r) (ctx, hdl, st)) (\<lambda>(fut, a). post_invoke F fut a) =
      bindE (bindE (async_send F (ctx, hdl, st)) (\<lambda>(s, ctx, hdl, st).
          case s of
            Refused msg \<Rightarrow> tx_done (post_invoke F (Failed msg) (ctx, hdl, st))
          | Lost \<Rightarrow> Inr (Inl Pending, ctx, hdl, st)
          | Queued \<Rightarrow> bindE (capture (Some r) st) (\<lambda>st. Inr (Inr r, ctx, hdl, st))))
        (\<lambda>(s, a). case s of Inl fut \<Rightarrow> Inr (fut, a) | Inr r \<Rightarrow> async_tx_finish F api H run m r a)" for r ctx hdl st
    by (auto simp: AsyncUnaryInvoke_steps bindE_assoc async_tx_finish_def
        intro!: bindE_cong split: submission.splits)
  show ?thesis
    by (auto simp: AsyncQuery_tx_def async_tx_start_def tail bindE_assoc Let_def intro!: bindE_cong split: prod.splits)
qed

text \<open>\<^verbatim>\<open>AsyncCommit\<close> and \<^verbatim>\<open>AsyncRollback\<close> are the same steps with a continuation of their own.\<close>

lemma tx_steps_then:
  "bindE (bindE m (\<lambda>(s, a). case s of Inl fut \<Rightarrow> Inr (fut, a) | Inr r \<Rightarrow> f r a)) (\<lambda>(fut, a). g fut a) =
   bindE m (\<lambda>(s, a). case s of Inl fut \<Rightarrow> g fut a | Inr r \<Rightarrow> bindE (f r a) (\<lambda>(fut, a). g fut a))"
  by (auto simp: bindE_assoc intro!: bindE_cong split: sum.splits)

lemma AsyncCommit_steps:
  fixes api :: "'w mysql_api"
  shows "AsyncCommit F api H ctx hdl st =
     bindE (async_tx_start F api ctx hdl st) (\<lambda>(s, a).
       case s of Inl fut \<Rightarrow> commit_then api H fut a
       | Inr r \<Rightarrow> bindE (async_tx_finish F api H (run_exec api ''commit'' [] :: (unit, 'w) runner) OnlyExec r a)
           (\<lambda>(fut, a). commit_then api H fut a))"
  by (simp add: AsyncCommit_def AsyncQuery_tx_steps tx_steps_then)

lemma AsyncRollback_steps:
  fixes api :: "'w mysql_api"
  shows "AsyncRollback F api H ctx hdl st =
     bindE (async_tx_start F api ctx hdl st) (\<lambda>(s, a).
       case s of Inl fut \<Rightarrow> rollback_then F api H fut a
       | Inr r \<Rightarrow> bindE (async_tx_finish F api H (run_exec api ''rollback'' [] :: (unit, 'w) runner) OnlyExec r a)
           (\<lambda>(fut, a). rollback_then F api H fut a))"
  by (simp add: AsyncRollback_def AsyncQuery_tx_steps tx_steps_then)

section \<open>A statement that waits\<close>

lemma CheckAlive_True:
  assumes "CheckAlive api r s = Inr (True, t)"
  obtains e d w where "execs s r = Some e" and "is_connected e" and "mysql e = Some d" and "d \<in> mysqls s" and "t = s\<lparr>lib := w\<rparr>"
  using assms
  by (auto simp: CheckAlive_def mysql_call_def on_block_Inr bindE_Inr_iff get_exec_Inr split: if_splits prod.splits)

lemma capture_live [simp]:
  "execs (psys st) r = Some e \<Longrightarrow> capture (Some r) st = Inr (put_sys (put_exec r (e\<lparr>refcount := Suc (refcount e)\<rparr>) (psys st)) st)"
  by (simp add: capture_def ref_copy_eq)

lemma async_enter_fw: "async_enter F ctx st = (b, ctx', st') \<Longrightarrow> \<exists>w. st' = st\<lparr>fw := w\<rparr>"
  by (auto simp: async_enter_def fw_do_def fw_call_def Let_def split: prod.splits)

lemma async_send_state:
  assumes "async_send F (ctx, hdl, st) = Inr (x, ctx', hdl', st')"
  shows "hdl' = hdl \<and> (\<exists>w. st' = st\<lparr>fw := w\<rparr>)"
proof (cases "thread_pool st = None")
  case True
  with assms show ?thesis by (auto simp: async_send_def fw_call_def RunFilters_def Let_def split: prod.splits if_splits)
next
  case False
  with assms show ?thesis by (metis async_send_returns Inr_inject Pair_inject)
qed

text \<open>A statement that was queued left the handle as it was and pinged the connection, which is the handle's and alive;
  the executor has one reference more.\<close>

lemma async_tx_start_queued:
  assumes "async_tx_start F api ctx hdl st = Inr (Inr r, ctx1, hdl1, st1)"
  obtains h e d w v where "hdl = Some h" and "hdl1 = hdl" and "GetState h = kStarted" and "tx_executor h = Some r"
    and "execs (psys st) r = Some e" and "is_connected e" and "mysql e = Some d" and "d \<in> mysqls (psys st)"
    and "st1 = (put_sys (put_exec r (e\<lparr>refcount := Suc (refcount e)\<rparr>) ((psys st)\<lparr>lib := w\<rparr>)) st)\<lparr>fw := v\<rparr>"
proof -
  obtain reject ctx2 st2 where 2: "async_enter F ctx st = (reject, ctx2, st2)" by (cases "async_enter F ctx st") auto
  obtain v2 where v2: "st2 = st\<lparr>fw := v2\<rparr>" using async_enter_fw [OF 2] by blast
  obtain h s ctx3 hdl3 st3 where 3: "\<not> reject" "hdl = Some h" "GetState h = kStarted" "tx_executor h = Some r"
    "CheckAlive api r (psys st) = Inr (True, s)" "async_send F (ctx2, hdl, put_sys s st2) = Inr (Queued, ctx3, hdl3, st3)"
    "capture (Some r) st3 = Inr st1" "hdl1 = hdl3"
    using assms 2 v2
    by (auto simp: async_tx_start_def bindE_Inr_iff deref_handle_def deref_def GetExecutor_of_def Let_def
        split: if_splits option.splits submission.splits)
  obtain e d w where e: "execs (psys st) r = Some e" "is_connected e" "mysql e = Some d" "d \<in> mysqls (psys st)" "s = (psys st)\<lparr>lib := w\<rparr>"
    by (rule CheckAlive_True [OF 3(5)])
  obtain v where v: "hdl3 = hdl" "st3 = (put_sys s st2)\<lparr>fw := v\<rparr>" using async_send_state [OF 3(6)] by blast
  have "st1 = (put_sys (put_exec r (e\<lparr>refcount := Suc (refcount e)\<rparr>) ((psys st)\<lparr>lib := w\<rparr>)) st)\<lparr>fw := v\<rparr>"
    using 3(7) capture_live [of st3 r e] e(1,5) v(2) v2 by simp
  with 3 v(1) e that show thesis by metis
qed

text \<open>Statements and results are older than what will be allocated.\<close>

definition blocks_old :: "'w sys \<Rightarrow> bool" where
  "blocks_old s \<longleftrightarrow> (\<forall>b \<in> stmts s \<union> ress s. b < next_block s)"

lemma blocks_old_simps [simp]:
  "blocks_old (put_exec r e s) = blocks_old s" "blocks_old (s\<lparr>lib := w\<rparr>) = blocks_old s"
  by (simp_all add: blocks_old_def)

text \<open>\<open>undisturbed r s t\<close>: what others did from \<open>s\<close> to \<open>t\<close> left the executor and its connection alone.\<close>

definition undisturbed :: "nat \<Rightarrow> 'w sys \<Rightarrow> 'w sys \<Rightarrow> bool" where
  "undisturbed r s t \<longleftrightarrow> execs t r = execs s r \<and>
     (\<forall>e d. execs s r = Some e \<longrightarrow> mysql e = Some d \<longrightarrow> d \<in> mysqls s \<longrightarrow> d \<in> mysqls t) \<and> blocks_old t"

text \<open>The continuations pass a future that is not ready, or ready with good results, on.\<close>

lemma continuations_pass:
  assumes "fut \<noteq> Pending"
  shows "\<exists>fut' ctx' w. bindE (async_receive F fut (ctx, hdl, st)) (\<lambda>(fut, a). post_invoke F fut a) = Inr (fut', ctx', hdl, st\<lparr>fw := w\<rparr>) \<and>
    fut' \<noteq> Pending \<and> (\<forall>m. fut = Failed m \<longrightarrow> fut' = Failed m)"
proof -
  obtain c2 w2 where 2: "RunFilters F CLIENT_POST_RECV_MSG ctx st = (c2, st\<lparr>fw := w2\<rparr>)" by (rule RunFilters_eq)
  obtain c3 w3 where 3: "RunFilters F CLIENT_POST_RPC_INVOKE c2 (st\<lparr>fw := w2\<rparr>) = (c3, st\<lparr>fw := w3\<rparr>)"
    by (rule RunFilters_eq [of F CLIENT_POST_RPC_INVOKE c2 "st\<lparr>fw := w2\<rparr>"]) simp
  show ?thesis
    using assms 2 3 by (cases fut) (auto simp: async_receive_def post_invoke_def and_then_def async_filters_def)
qed

context connection_user begin

lemma queued_task_returns:
  assumes e: "execs (psys st) r = Some e" "is_connected e" "mysql e = Some d" "d \<in> mysqls (psys st)" "1 < refcount e"
    and old: "blocks_old (psys st)" and new: "suits (MysqlResults_new m)"
  shows "\<exists>fut ctx' st'. run_task F api H run m (Some r) ctx st = Inr (fut, ctx', st') \<and> fut \<noteq> Pending \<and>
    execs (psys st') = (execs (psys st))(r \<mapsto> e\<lparr>refcount := refcount e - 1\<rparr>) \<and> mysqls (psys st') = mysqls (psys st) \<and>
    stmts (psys st') = stmts (psys st) \<and> pools (mgr st') = pools (mgr st) \<and> blocks_old (psys st')"
proof -
  have "query_start r d (MysqlResults_new m) (psys st)"
    using e old by (auto simp: query_start_def results_wf_def MysqlResults_new_def blocks_old_def)
  then obtain b res t where t: "run r (MysqlResults_new m) (psys st) = Inr (b, res, t)" "uses_connection (psys st) t" "results_wf t res"
    using run_returns [OF new] by blast
  have conn: "IsConnected r (psys st) = Inr True" using e(1,2) by (simp add: IsConnected_def)
  obtain c w where p: "fw_do (proxy_statistics F) ctx (put_sys t st) = (c, (put_sys t st)\<lparr>fw := w\<rparr>)" by (rule fw_do_eq)
  let ?u = "(put_sys t st)\<lparr>fw := w\<rparr>"
  obtain s3 where d: "drop_results api res ?u = Inr (put_sys s3 ?u)" "execs s3 = execs t" "mysqls s3 = mysqls t" "stmts s3 = stmts t"
    "ress s3 \<subseteq> ress t" "next_block s3 = next_block t"
    using t(3) by (cases "mysql_res res") (auto simp: drop_results_def MysqlResults_destroy_def mysql_free_result_def results_wf_def)
  have run: "async_task F api H run m (Some r) ctx st =
      (if OK res then Inr (Ready (fst (MysqlResults_move res)), c, ?u) else Inr (Failed (snd (results_error res)), c, put_sys s3 ?u))"
    using conn t(1) p d(1) by (simp add: async_task_def task_connection_def return_connection_def)
  have drop: "drop_ref api (Some r) v = Inr (put_sys (put_exec r (e\<lparr>refcount := refcount e - 1\<rparr>) (psys v)) v)"
    if "execs (psys v) = execs (psys st)" for v :: "('a, 'w, 'c) proxy"
    using ref_drop_shared [of "psys v" r e api] e(1,5) that by (simp add: drop_ref_def)
  have u: "execs t = execs (psys st)" "mysqls t = mysqls (psys st)" "stmts t = stmts (psys st)"
    using t(2) by (simp_all add: uses_connection_def)
  have n: "next_block (psys st) \<le> next_block t" "\<forall>b \<in> ress t. b \<in> ress (psys st) \<or> b < next_block t"
    using t(2) by (simp_all add: uses_connection_def)
  have "blocks_old t" using old n unfolding blocks_old_def u(3) by (meson UnE UnI1 UnI2 less_le_trans)
  moreover from this have "blocks_old s3" using d(4-6) by (auto simp: blocks_old_def)
  ultimately show ?thesis
    using u d(2-4) drop [of ?u] drop [of "put_sys s3 ?u"] by (cases "OK res") (simp_all add: run_task_def run)
qed

lemma queued_statement_completes:
  assumes start: "async_tx_start F api ctx (Some h) st = Inr (Inr r, ctx1, hdl, st1)" and others: "undisturbed r (psys st1) (psys st2)"
    and own: "execs (psys st) r = Some e" "0 < refcount e" and new: "suits (MysqlResults_new m)"
  shows "\<exists>fut ctx' st'. async_tx_finish F api H run m r (ctx1, hdl, st2) = Inr (fut, ctx', Some h, st') \<and> fut \<noteq> Pending \<and>
    execs (psys st') = (execs (psys st2))(r \<mapsto> e) \<and> mysqls (psys st') = mysqls (psys st2) \<and>
    stmts (psys st') = stmts (psys st2) \<and> pools (mgr st') = pools (mgr st2)"
proof -
  obtain d w v where 1: "hdl = Some h" "is_connected e" "mysql e = Some d" "d \<in> mysqls (psys st)"
    "st1 = (put_sys (put_exec r (e\<lparr>refcount := Suc (refcount e)\<rparr>) ((psys st)\<lparr>lib := w\<rparr>)) st)\<lparr>fw := v\<rparr>"
    by (rule async_tx_start_queued [OF start]) (use own(1) in auto)
  let ?e = "e\<lparr>refcount := Suc (refcount e)\<rparr>"
  have 2: "execs (psys st2) r = Some ?e" "d \<in> mysqls (psys st2)" "blocks_old (psys st2)"
    using others 1(3-5) by (simp_all add: undisturbed_def)
  obtain fut c st3 where 3: "run_task F api H run m (Some r) ctx1 st2 = Inr (fut, c, st3)" "fut \<noteq> Pending"
    "execs (psys st3) = (execs (psys st2))(r \<mapsto> e)" "mysqls (psys st3) = mysqls (psys st2)"
    "stmts (psys st3) = stmts (psys st2)" "pools (mgr st3) = pools (mgr st2)"
    using queued_task_returns [OF 2(1) _ _ 2(2) _ 2(3) new, where F = F and api = api and H = H and ctx = ctx1] 1(2,3) own(2) by auto
  obtain fut' c' w' where "bindE (async_receive F fut (c, Some h, st3)) (\<lambda>(fut, a). post_invoke F fut a) =
      Inr (fut', c', Some h, st3\<lparr>fw := w'\<rparr>)" "fut' \<noteq> Pending"
    using continuations_pass [OF 3(2), of F c "Some h" st3] by auto
  then have "async_tx_finish F api H run m r (ctx1, hdl, st2) = Inr (fut', c', Some h, st3\<lparr>fw := w'\<rparr>)"
    using 1(1) 3(1) by (simp add: async_tx_finish_def)
  with 3(3-6) \<open>fut' \<noteq> Pending\<close> show ?thesis by (intro exI [of _ fut'] exI [of _ c'] exI [of _ "st3\<lparr>fw := w'\<rparr>"]) simp
qed

end


text \<open>The demo: the statement of a handle on executor 0 waits, and others have used the library before its task runs.\<close>

definition demo_handle :: tx where
  "demo_handle = \<lparr>tx_executor = Some 0, tx_state = kStarted\<rparr>"

definition demo_waiting :: "((string \<times> nat) list, demo_world, unit) proxy" where
  "demo_waiting = put_sys (put_exec 0 ((demo_exec True)\<lparr>refcount := 2\<rparr>) (demo_sys True True)) demo_proxy"

lemma demo_queued:
  "async_tx_start demo_framework demo_api demo_context (Some demo_handle) demo_proxy =
    (Inr (Inr 0, demo_context, Some demo_handle, demo_waiting) :: ((unit results future + nat) \<times> _) result)"
proof -
  have "execs (demo_sys True True) 0 = Some (demo_exec True)" "is_connected (demo_exec True)" "mysql (demo_exec True) = Some 1"
    "1 \<in> mysqls (demo_sys True True)" by (simp_all add: demo_exec_def)
  from CheckAlive_live [OF this, of demo_api]
  have alive: "CheckAlive demo_api 0 (demo_sys True True) = Inr (True, demo_sys True True)"
    by (simp add: demo_api_def demo_sys_def)
  have enter: "async_enter demo_framework demo_context demo_proxy = (False, demo_context, demo_proxy)"
    by (simp add: async_enter_def fw_do_def fw_call_def demo_framework_def)
  have send: "async_send demo_framework (ctx, hdl, demo_proxy) = Inr (Queued, ctx, hdl, demo_proxy)" for ctx hdl
    by (simp add: async_send_def fw_call_def demo_framework_def)
  have "put_sys (demo_sys True True) demo_proxy = demo_proxy"
    using demo_proxy_psys(1) by (simp add: put_sys_def psys_def demo_proxy_def)
  with alive enter send show ?thesis
    by (simp add: async_tx_start_def deref_handle_def deref_def demo_handle_def GetState_def GetExecutor_of_def demo_waiting_def
        capture_live [of demo_proxy 0 "demo_exec True"]) (simp add: demo_exec_def numeral_2_eq_2)
qed


text \<open>C14: Destroying the handle while its statement waits closes the connection. The statement is not sent: when its task
  runs, the future fails, and the executor is destroyed with the task's reference.\<close>

theorem dropped_handle_fails_queued_statement:
  fixes run :: "('r, 'w) runner"
  assumes start: "async_tx_start F api ctx (Some h) st = Inr (Inr r, ctx1, hdl, st1)"
    and own: "execs (psys st) r = Some e" "refcount e = 1"
  shows "\<exists>s. TransactionHandle_destroy api h (psys st1) = Inr s \<and>
    (\<forall>st2. undisturbed r s (psys st2) \<longrightarrow>
      (\<exists>msg ctx' st'. async_tx_finish F api H run m r (ctx1, hdl, st2) = Inr (Failed msg, ctx', Some h, st') \<and>
        lib (psys st') = lib (psys st2) \<and> execs (psys st') = (execs (psys st2))(r := None)))"
proof -
  obtain d w v where 1: "hdl = Some h" "tx_executor h = Some r" "is_connected e" "mysql e = Some d" "d \<in> mysqls (psys st)"
    "st1 = (put_sys (put_exec r (e\<lparr>refcount := Suc (refcount e)\<rparr>) ((psys st)\<lparr>lib := w\<rparr>)) st)\<lparr>fw := v\<rparr>"
    by (rule async_tx_start_queued [OF start]) (use own(1) in auto)
  let ?f = "e\<lparr>mysql := None, is_connected := False\<rparr>"
  obtain t where c: "Close api r (psys st1) = Inr t" "execs t r = Some (?f\<lparr>refcount := 2\<rparr>)"
    using Close_eq [of "psys st1" r "e\<lparr>refcount := 2\<rparr>" d api] 1 own by simp
  let ?s = "put_exec r (?f\<lparr>refcount := 1\<rparr>) t"
  have "TransactionHandle_destroy api h (psys st1) = Inr ?s"
    using c 1(2) ref_drop_shared [OF c(2)] by (simp add: TransactionHandle_destroy_def)
  moreover have "\<exists>msg ctx' st'. async_tx_finish F api H run m r (ctx1, hdl, st2) = Inr (Failed msg, ctx', Some h, st') \<and>
      lib (psys st') = lib (psys st2) \<and> execs (psys st') = (execs (psys st2))(r := None)"
    if "undisturbed r ?s (psys st2)" for st2
  proof -
    have x: "execs (psys st2) r = Some (?f\<lparr>refcount := 1\<rparr>)" using that by (simp add: undisturbed_def)
    obtain status where e: "connection_error F api r st2 = Inr status"
      using x by (simp add: connection_error_def GetErrorMessage_def GetErrorNumber_def mysql_error_def mysql_errno_def)
    let ?u = "put_sys ((psys st2)\<lparr>execs := (execs (psys st2))(r := None)\<rparr>) st2"
    have "run_task F api H run m (Some r) ctx1 st2 = Inr (Failed (status_msg status), set_status status ctx1, ?u)"
      using x e ref_drop_last [OF x]
      by (simp add: run_task_def async_task_def task_connection_def IsConnected_def drop_ref_def)
    moreover obtain c' w' where "bindE (async_receive F (Failed (status_msg status) :: 'r results future) (set_status status ctx1, Some h, ?u))
        (\<lambda>(fut, a). post_invoke F fut a) = Inr (Failed (status_msg status), c', Some h, ?u\<lparr>fw := w'\<rparr>)"
      using continuations_pass [of "Failed (status_msg status) :: 'r results future" F "set_status status ctx1" "Some h" ?u] by auto
    ultimately have "async_tx_finish F api H run m r (ctx1, hdl, st2) = Inr (Failed (status_msg status), c', Some h, ?u\<lparr>fw := w'\<rparr>)"
      using 1(1) by (simp add: async_tx_finish_def)
    then show ?thesis by (intro exI [of _ "status_msg status"] exI [of _ c'] exI [of _ "?u\<lparr>fw := w'\<rparr>"]) simp
  qed
  ultimately show ?thesis by blast
qed

theorem dropped_handle_fails_queued_statement_witness:
  "\<exists>s msg ctx' st'. TransactionHandle_destroy demo_api demo_handle (psys demo_waiting) = Inr s \<and>
    async_tx_finish demo_framework demo_api demo_map (run_exec demo_api ''delete from t'' [] :: (unit, demo_world) runner) OnlyExec 0
      (demo_context, Some demo_handle, put_sys s demo_waiting) = Inr (Failed msg, ctx', Some demo_handle, st') \<and>
    execs (psys st') 0 = None"
proof -
  have "execs (psys demo_proxy) 0 = Some (demo_exec True)" "refcount (demo_exec True) = 1" by (simp_all add: demo_exec_def)
  from dropped_handle_fails_queued_statement [OF demo_queued this, where run = "run_exec demo_api ''delete from t'' []"
    and H = demo_map and m = OnlyExec]
  obtain s where s: "TransactionHandle_destroy demo_api demo_handle (psys demo_waiting) = Inr s"
    "\<And>st2. undisturbed 0 s (psys st2) \<Longrightarrow> \<exists>msg ctx' st'. async_tx_finish demo_framework demo_api demo_map
      (run_exec demo_api ''delete from t'' [] :: (unit, demo_world) runner) OnlyExec 0 (demo_context, Some demo_handle, st2) =
      Inr (Failed msg, ctx', Some demo_handle, st') \<and> lib (psys st') = lib (psys st2) \<and> execs (psys st') = (execs (psys st2))(0 := None)"
    by blast
  have "undisturbed 0 s (psys (put_sys s demo_waiting))"
    using s(1)
    by (auto simp: undisturbed_def blocks_old_def TransactionHandle_destroy_def demo_handle_def demo_waiting_def Close_def ref_drop_def demo_exec_def
        mysql_close_def demo_sys_def bindE_Inr_iff split: if_splits)
  from s(2) [OF this] s(1) show ?thesis by fastforce
qed

text \<open>The library in the demo records what it is sent.\<close>

lemma demo_late:
  "bindE (Commit demo_framework demo_api demo_map demo_context (Some demo_handle) demo_waiting) (\<lambda>(_, h, st).
   bindE (get_pool 2 (mgr st)) (\<lambda>p.
   bindE (async_tx_finish demo_framework demo_api demo_map (run_exec demo_api ''delete from t'' [] :: (unit, demo_world) runner) OnlyExec 0
      (demo_context, h, st)) (\<lambda>(fut, _, _, st).
     Inr (h, concat (executor_shards p), case fut of Ready res \<Rightarrow> OK res | _ \<Rightarrow> False, seen (lib (psys st)))))) =
   Inr (Some \<lparr>tx_executor = None, tx_state = kCommitted\<rparr>, [0], True, [''commit'', ''delete from t''])"
  by code_simp

lemma ready_iff: "(case fut of Ready res \<Rightarrow> P res | _ \<Rightarrow> False) \<longleftrightarrow> (\<exists>res. fut = Ready res \<and> P res)"
  by (cases fut) auto

text \<open>C38: Nothing ties \<^verbatim>\<open>Commit\<close> to the statements that wait: a transaction is committed before its asynchronous statement
  ran. Its connection is back in a pool, for anyone to take, and the statement runs on it all the same, after
  the commit.\<close>

theorem statement_runs_on_returned_connection:
  "\<exists>ctx1 hdl st1 ctx2 h st2 p res ctx3 hdl3 st3.
    async_tx_start demo_framework demo_api demo_context (Some demo_handle) demo_proxy =
      (Inr (Inr 0, ctx1, hdl, st1) :: ((unit results future + nat) \<times> _) result) \<and>
    Commit demo_framework demo_api demo_map demo_context hdl st1 = Inr (ctx2, Some h, st2) \<and> tx_state h = kCommitted \<and>
    get_pool 2 (mgr st2) = Inr p \<and> 0 \<in> pooled p \<and>
    async_tx_finish demo_framework demo_api demo_map (run_exec demo_api ''delete from t'' [] :: (unit, demo_world) runner) OnlyExec 0
      (ctx1, Some h, st2) = Inr (Ready res, ctx3, hdl3, st3) \<and> seen (lib (psys st3)) = [''commit'', ''delete from t'']"
proof -
  let ?h = "\<lparr>tx_executor = None, tx_state = kCommitted\<rparr>"
  obtain ctx2 st2 p res ctx3 hdl3 st3 where
    1: "Commit demo_framework demo_api demo_map demo_context (Some demo_handle) demo_waiting = Inr (ctx2, Some ?h, st2)"
      "get_pool 2 (mgr st2) = Inr p" "concat (executor_shards p) = [0]"
    and 2: "async_tx_finish demo_framework demo_api demo_map (run_exec demo_api ''delete from t'' [] :: (unit, demo_world) runner)
      OnlyExec 0 (demo_context, Some ?h, st2) = Inr (Ready res, ctx3, hdl3, st3)" "seen (lib (psys st3)) = [''commit'', ''delete from t'']"
    using demo_late by (auto simp: bindE_Inr_iff ready_iff)
  have "0 \<in> set (concat (executor_shards p))" using 1(3) by simp
  then have "0 \<in> pooled p" by (simp add: pooled_def)
  with demo_queued 1(1,2) 2 show ?thesis by (metis tx.select_convs(2))
qed

end
