(* ===== verification/Tx_Waiting.thy ===== *)
theory Tx_Waiting
  imports Tx_Async
begin

text \<open>
  A transaction with any number of asynchronous statements waiting in the thread pool, whose tasks run in any order
  and at any time, while other clients use the proxy: the connection has one reference for the handle and one for each
  waiting task, and every task returns, also when the connection was lost in the meantime.
\<close>

section \<open>The relation\<close>

text \<open>The handle, the waiting statements by number, and the proxy. Others leave the connection alone.\<close>

type_synonym ('m, 'w, 'f) waiting = "tx \<times> (nat \<rightharpoonup> call_context \<times> string \<times> input_arg list) \<times> ('m, 'w, 'f) proxy"

inductive waiting_step ::
  "'f framework \<Rightarrow> 'w mysql_api \<Rightarrow> 'm hashmap_api \<Rightarrow> ('m, 'w, 'f) waiting \<Rightarrow> ('m, 'w, 'f) waiting \<Rightarrow> bool"
  for F :: "'f framework" and api :: "'w mysql_api" and H :: "'m hashmap_api" where
  waiting_queued: "async_tx_start F api ctx (Some h) st = (Inr (Inr r, ctx', Some h', st') :: ((unit results future + nat) \<times> _) result) \<Longrightarrow>
    serves api args \<Longrightarrow> W i = None \<Longrightarrow> waiting_step F api H (h, W, st) (h', W(i \<mapsto> (ctx', sql_str, args)), st')"
| waiting_refused: "async_tx_start F api ctx (Some h) st = (Inr (Inl fut, ctx', Some h', st') :: ((unit results future + nat) \<times> _) result) \<Longrightarrow>
    waiting_step F api H (h, W, st) (h', W, st')"
| waiting_runs: "W i = Some (ctx, sql_str, args) \<Longrightarrow> tx_executor h = Some r \<Longrightarrow>
    async_tx_finish F api H (run_exec api sql_str args :: (unit, 'w) runner) OnlyExec r (ctx, Some h, st) =
      Inr (fut, ctx', Some h', st') \<Longrightarrow> waiting_step F api H (h, W, st) (h', W(i := None), st')"
| waiting_others: "tx_executor h = Some r \<Longrightarrow> undisturbed r (psys st) (psys st') \<Longrightarrow> waiting_step F api H (h, W, st) (h, W, st')"

text \<open>The handle has a connection, the client library's handle of which is live, and the references are counted.\<close>

definition waiting_ok :: "'w mysql_api \<Rightarrow> ('m, 'w, 'f) waiting \<Rightarrow> bool" where
  "waiting_ok api = (\<lambda>(h, W, st).
     finite (dom W) \<and> (\<forall>i ctx sql_str args. W i = Some (ctx, sql_str, args) \<longrightarrow> serves api args) \<and> blocks_old (psys st) \<and>
     (\<exists>r e d. tx_executor h = Some r \<and> execs (psys st) r = Some e \<and> mysql e = Some d \<and> d \<in> mysqls (psys st) \<and>
        refcount e = Suc (card (dom W))))"

definition waiting_start :: "('m, 'w, 'f) waiting \<Rightarrow> bool" where
  "waiting_start = (\<lambda>(h, W, st). W = Map.empty \<and> blocks_old (psys st) \<and>
     (\<exists>r e d. tx_executor h = Some r \<and> execs (psys st) r = Some e \<and> mysql e = Some d \<and> d \<in> mysqls (psys st) \<and> refcount e = 1))"

section \<open>Every step keeps the count\<close>

lemma waiting_okD:
  assumes "waiting_ok api (h, W, st)"
  obtains r e d where "tx_executor h = Some r" and "execs (psys st) r = Some e" and "mysql e = Some d" and "d \<in> mysqls (psys st)"
    and "refcount e = Suc (card (dom W))" and "finite (dom W)" and "blocks_old (psys st)"
  using assms by (auto simp: waiting_ok_def)

text \<open>A call that did not queue its statement: at most it pinged the connection and found it lost.\<close>

lemma tx_done_Inl: "tx_done x = Inr (Inl fut, a) \<longleftrightarrow> x = Inr (fut, a)"
  by (cases x) (auto simp: tx_done_def)

lemma async_reject_psys: "async_reject F m ctx hdl st = Inr (fut, ctx', hdl', st') \<Longrightarrow> hdl' = hdl \<and> psys st' = psys st"
  by (auto simp: async_reject_def fw_call_def split: prod.splits)

lemma post_invoke_psys:
  assumes "post_invoke F fut (ctx, hdl, st) = Inr (fut', ctx', hdl', st')"
  shows "hdl' = hdl \<and> psys st' = psys st"
  using assms
  by (cases fut) (auto simp: post_invoke_def and_then_def async_filters_def RunFilters_def fw_call_def Let_def split: prod.splits)

lemma async_tx_start_refused:
  assumes "async_tx_start F api ctx (Some h) st = Inr (Inl fut, ctx', hdl', st')"
  shows "hdl' = Some h \<and> psys st' = psys st \<or>
    (\<exists>r b s. tx_executor h = Some r \<and> CheckAlive api r (psys st) = Inr (b, s) \<and> psys st' = s \<and>
       hdl' = Some (if b then h else SetState kRollBacked h))"
proof -
  obtain reject ctx2 st2 where 2: "async_enter F ctx st = (reject, ctx2, st2)" by (cases "async_enter F ctx st") auto
  obtain v2 where v2: "st2 = st\<lparr>fw := v2\<rparr>" using async_enter_fw [OF 2] by blast
  show ?thesis
  proof (cases "reject \<or> GetState h \<noteq> kStarted")
    case True
    with assms 2 v2 show ?thesis
      by (auto simp: async_tx_start_def tx_done_Inl deref_handle_def split: if_splits dest!: async_reject_psys)
  next
    case False
    then obtain r b s where r: "tx_executor h = Some r" "CheckAlive api r (psys st) = Inr (b, s)"
      and rest: "(if \<not> b then tx_done (async_reject F ''Connect error. Rollback.'' (set_status (lost_status F) ctx2)
          (Some (SetState kRollBacked h)) (put_sys s st2))
        else bindE (async_send F (ctx2, Some h, put_sys s st2)) (\<lambda>(s, ctx, hdl, st).
          case s of
            Refused msg \<Rightarrow> tx_done (post_invoke F (Failed msg) (ctx, hdl, st))
          | Lost \<Rightarrow> Inr (Inl Pending, ctx, hdl, st)
          | Queued \<Rightarrow> bindE (capture (Some r) st) (\<lambda>st. Inr (Inr r, ctx, hdl, st)))) = Inr (Inl fut, ctx', hdl', st')"
      using assms 2 v2
      by (auto simp: async_tx_start_def bindE_Inr_iff deref_handle_def deref_def GetExecutor_of_def Let_def split: option.splits)
    have "psys st' = s \<and> hdl' = Some (if b then h else SetState kRollBacked h)"
    proof (cases b)
      case False
      with rest show ?thesis by (auto simp: tx_done_Inl dest!: async_reject_psys)
    next
      case True
      obtain x c hdl3 st3 where send: "async_send F (ctx2, Some h, put_sys s st2) = Inr (x, c, hdl3, st3)"
        using rest True by (auto simp: bindE_Inr_iff)
      obtain w where "hdl3 = Some h" "st3 = (put_sys s st2)\<lparr>fw := w\<rparr>" using async_send_state [OF send] by blast
      with rest True send show ?thesis
        by (cases x) (auto simp: tx_done_Inl bindE_Inr_iff dest!: post_invoke_psys)
    qed
    with r show ?thesis by blast
  qed
qed

lemma CheckAlive_keeps_connection:
  assumes "CheckAlive api r s = Inr (b, t)" and "execs s r = Some e"
  obtains e' where "execs t r = Some e'" and "mysql e' = mysql e" and "refcount e' = refcount e" and "mysqls t = mysqls s"
    and "blocks_old t = blocks_old s"
  using assms
  by (auto simp: CheckAlive_def mysql_call_def on_block_Inr bindE_Inr_iff get_exec_Inr blocks_old_def split: if_splits prod.splits)

text \<open>The task of a waiting statement on a connection that was found lost.\<close>

lemma lost_task_returns:
  assumes e: "execs (psys st) r = Some e" "\<not> is_connected e" "mysql e = Some d" "d \<in> mysqls (psys st)" "1 < refcount e"
  shows "\<exists>msg ctx'. run_task F api H run m (Some r) ctx st =
    Inr (Failed msg, ctx', put_sys (put_exec r (e\<lparr>refcount := refcount e - 1\<rparr>) (psys st)) st)"
proof -
  obtain status where "connection_error F api r st = Inr status"
    using e(1,3,4) by (simp add: connection_error_def GetErrorMessage_def GetErrorNumber_def mysql_error_def mysql_errno_def)
  with e(1,2) ref_drop_shared [OF e(1,5), of api] show ?thesis
    by (simp add: run_task_def async_task_def task_connection_def IsConnected_def drop_ref_def drop_ref_None)
qed

lemma waiting_task:
  assumes ok: "waiting_ok api (h, W, st)" and i: "W i = Some (ctx, sql_str, args)" and r: "tx_executor h = Some r"
  shows "\<exists>fut ctx' st'. async_tx_finish F api H (run_exec api sql_str args :: (unit, 'w) runner) OnlyExec r (ctx, Some h, st) =
      Inr (fut, ctx', Some h, st') \<and> fut \<noteq> Pending \<and> waiting_ok api (h, W(i := None), st')"
proof -
  let ?run = "run_exec api sql_str args :: (unit, 'w) runner"
  obtain e d where e: "execs (psys st) r = Some e" "mysql e = Some d" "d \<in> mysqls (psys st)" "refcount e = Suc (card (dom W))"
    "finite (dom W)" "blocks_old (psys st)" by (rule waiting_okD [OF ok]) (use r in auto)
  have sv: "serves api args" using ok i by (auto simp: waiting_ok_def)
  have "i \<in> dom W" using i by auto
  then have card: "card (dom W) = Suc (card (dom W - {i}))" by (rule card.remove [OF e(5)])
  then have two: "1 < refcount e" using e(4) by simp
  let ?e = "e\<lparr>refcount := refcount e - 1\<rparr>"
  obtain fut c st2 where 1: "run_task F api H ?run OnlyExec (Some r) ctx st = Inr (fut, c, st2)" "fut \<noteq> Pending"
    "execs (psys st2) = (execs (psys st))(r \<mapsto> ?e)" "mysqls (psys st2) = mysqls (psys st)" "blocks_old (psys st2)"
  proof (cases "is_connected e")
    case True
    from exec_call.queued_task_returns [OF e(1) True e(2,3) two e(6) sv, where F = F and H = H and ctx = ctx and m = OnlyExec
        and query = sql_str] that show ?thesis by blast
  next
    case False
    from lost_task_returns [OF e(1) False e(2,3) two, of F api H ?run OnlyExec ctx] that e(6) show ?thesis by fastforce
  qed
  obtain fut' c' w' where 2: "bindE (async_receive F fut (c, Some h, st2)) (\<lambda>(fut, a). post_invoke F fut a) =
      Inr (fut', c', Some h, st2\<lparr>fw := w'\<rparr>)" "fut' \<noteq> Pending"
    using continuations_pass [OF 1(2), of F c "Some h" st2] by auto
  have "waiting_ok api (h, W(i := None), st2\<lparr>fw := w'\<rparr>)"
  proof -
    have "\<forall>j c q a. (W(i := None)) j = Some (c, q, a) \<longrightarrow> serves api a" using ok by (auto simp: waiting_ok_def)
    moreover have "finite (dom (W(i := None)))" "card (dom (W(i := None))) = card (dom W - {i})" using e(5) by simp_all
    ultimately show ?thesis using 1(3-5) e(2-4) r card by (simp add: waiting_ok_def)
  qed
  moreover have "async_tx_finish F api H ?run OnlyExec r (ctx, Some h, st) = Inr (fut', c', Some h, st2\<lparr>fw := w'\<rparr>)"
    using 1(1) 2(1) by (simp add: async_tx_finish_def)
  ultimately show ?thesis using 2(2) by blast
qed

lemma waiting_step_ok:
  assumes "waiting_step F api H c c'" and "waiting_ok api c"
  shows "waiting_ok api c'"
  using assms
proof (cases rule: waiting_step.cases)
  case (waiting_queued ctx h st r ctx' h' st' args W i sql_str)
  obtain e d w v where 1: "h' = h" "tx_executor h = Some r" "execs (psys st) r = Some e" "mysql e = Some d" "d \<in> mysqls (psys st)"
    "st' = (put_sys (put_exec r (e\<lparr>refcount := Suc (refcount e)\<rparr>) ((psys st)\<lparr>lib := w\<rparr>)) st)\<lparr>fw := v\<rparr>"
    by (rule async_tx_start_queued [OF waiting_queued(3)]) auto
  have "i \<notin> dom W" using waiting_queued(5) by auto
  with 1 waiting_queued assms(2) show ?thesis by (auto simp: waiting_ok_def card_insert_if)
next
  case (waiting_refused ctx h st fut ctx' h' st' W)
  obtain r e d where 1: "tx_executor h = Some r" "execs (psys st) r = Some e" "mysql e = Some d" "d \<in> mysqls (psys st)"
    "refcount e = Suc (card (dom W))" "finite (dom W)" "blocks_old (psys st)"
    using assms(2) waiting_okD [of api h W st] waiting_refused(1) by metis
  from async_tx_start_refused [OF waiting_refused(3)] show ?thesis
  proof (elim disjE exE conjE)
    assume "Some h' = Some h" "psys st' = psys st"
    with assms(2) waiting_refused(1,2) show ?thesis by (simp add: waiting_ok_def)
  next
    fix q b s assume "tx_executor h = Some q" "CheckAlive api q (psys st) = Inr (b, s)" "psys st' = s"
      "Some h' = Some (if b then h else SetState kRollBacked h)"
    moreover from this obtain e' where "execs s r = Some e'" "mysql e' = mysql e" "refcount e' = refcount e" "mysqls s = mysqls (psys st)"
      "blocks_old s = blocks_old (psys st)" using CheckAlive_keeps_connection [of api r "psys st" b s e] 1(1,2) by auto
    ultimately show ?thesis using assms(2) waiting_refused(1,2) 1 by (auto simp: waiting_ok_def SetState_def)
  qed
next
  case (waiting_runs W i ctx sql_str args h r st fut ctx' h' st')
  with waiting_task [of api h W st i ctx sql_str args r F H] assms(2) show ?thesis by auto
next
  case (waiting_others h r st st' W)
  with assms(2) show ?thesis by (auto simp: waiting_ok_def undisturbed_def)
qed

interpretation waiting_runs: invariant_system waiting_start "waiting_step F api H" "waiting_ok api"
  for F :: "'f framework" and api :: "'w mysql_api" and H :: "'m hashmap_api"
proof unfold_locales
  show "waiting_ok api c" if "waiting_start c" for c :: "('m, 'w, 'f) waiting"
    using that by (auto simp: waiting_start_def waiting_ok_def)
qed (rule waiting_step_ok)



end
