(* ===== verification/Spec2Isabelle.thy ===== *)
theory Spec2Isabelle
  imports Mysql_Codec Progress_Properties Example_Properties Tx_Waiting
begin

text \<open>
  A model of the MySQL client plugin of tRPC-Cpp (\<^verbatim>\<open>src/trpc/client/mysql\<close>), and what is proved of it.

  \<^bold>\<open>The program.\<close> A user calls a \<^verbatim>\<open>MysqlServiceProxy\<close>: \<^verbatim>\<open>Query\<close>, \<^verbatim>\<open>Execute\<close>, their asynchronous
  variants, and transactions (\<^verbatim>\<open>Begin\<close>, \<^verbatim>\<open>Commit\<close>, \<^verbatim>\<open>Rollback\<close>). A call runs the filters of the framework
  and hands a task to a thread pool. The task asks the \<^verbatim>\<open>MysqlExecutorPoolManager\<close> for the pool of
  the target node, takes a connection (\<^verbatim>\<open>MysqlExecutor\<close>) from that \<^verbatim>\<open>MysqlExecutorPool\<close>, runs the
  statement on it through the MySQL C library, and gives the connection back. A
  transaction keeps its connection in a \<^verbatim>\<open>TransactionHandle\<close> between calls. The rows of an answer are
  bound to C++ types by the templates of the binder and stored in a \<^verbatim>\<open>MysqlResults\<close>.

  \<^bold>\<open>The theories.\<close>

  \<^item> \<open>Prelude\<close>: the error monad (\<open>bindE\<close>), reachable states, and the locales \<open>invariant_system\<close>,
    \<open>monotone_system\<close> and \<open>simulation\<close> for transition systems. \<open>Cxx_Std\<close>: the faults of C++ (an operation that
    has undefined behaviour, or fails an assertion, is \<open>Inl\<close> of one), decimal printing, \<^verbatim>\<open>sscanf\<close>.
  \<^item> \<open>Mysql_Type\<close>: \<^verbatim>\<open>executor/mysql_type\<close>, \<^verbatim>\<open>MysqlTime\<close> and \<^verbatim>\<open>MysqlBlob\<close>. Each setter is an interpretation of
    \<open>checked_field\<close>.
  \<^item> \<open>Mysql_Api\<close>: the C library, \<^verbatim>\<open>steady_clock\<close> and \<^verbatim>\<open>sleep_for\<close>: the record \<open>mysql_api\<close> of functions on an opaque
    world; which handles, statements and results are allocated is part of the state, and the use
    of one that is not is a fault.
  \<^item> \<open>Mysql_Executor\<close>: the connection life cycle of \<^verbatim>\<open>executor/mysql_executor\<close>. Executors are objects in a store
    \<open>execs\<close> with their reference counts.
  \<^item> \<open>Mysql_Results\<close>, \<open>Mysql_Statement\<close>, \<open>Mysql_Binder\<close>, \<open>Mysql_Query\<close>: \<^verbatim>\<open>executor/mysql_results.h\<close>,
    \<^verbatim>\<open>mysql_statement\<close>, \<^verbatim>\<open>mysql_binder\<close> and the queries of \<^verbatim>\<open>mysql_executor\<close>: the formatter of native queries,
    \<^verbatim>\<open>QueryAll\<close> with typed and with native rows, and \<^verbatim>\<open>Execute\<close>. \<open>Query_Properties\<close>: what they return
    and free.
  \<^item> \<open>Executor_Pool\<close>: \<^verbatim>\<open>mysql_executor_pool\<close>. A section under a shard's lock is one step; a pool and its
    users are the relation \<open>pool_step\<close>, refined to the lease protocol \<open>lease_step\<close>.
  \<^item> \<open>Pool_Manager\<close>: \<^verbatim>\<open>mysql_executor_pool_manager\<close>. \<^verbatim>\<open>Get\<close> is split between the look-up and the insertion;
    threads that race in it are the relation \<open>get_step\<close>. \<open>Pool_Users\<close>: the invariant of the manager, its pools
    and all their users.
  \<^item> \<open>Client_Conf\<close>: \<^verbatim>\<open>config/mysql_client_conf\<close> and its YAML conversion. \<open>Transaction\<close>: \<^verbatim>\<open>transaction.h\<close>.
    \<open>Mysql_Codec\<close>: the stubs of \<^verbatim>\<open>codec/\<close>.
  \<^item> \<open>Service_Proxy\<close>, \<open>Proxy_Async\<close>: \<^verbatim>\<open>mysql_service_proxy\<close>, synchronous and asynchronous calls, transactions,
    start, stop and reconfiguration.
  \<^item> \<open>Call_Contract\<close>: the locale \<open>connection_user\<close>, the contract of what a call runs on its connection, interpreted
    for \<^verbatim>\<open>Execute\<close>, native queries, and typed ones, which \<open>Typed_Calls\<close> follows on every path, errors included. \<open>Proxy_Properties\<close>, \<open>Transaction_Properties\<close>, \<open>Restart_Properties\<close>,
    \<open>Progress_Properties\<close>: the properties that span components.
  \<^item> \<open>Results_Frame\<close>: what an operation does to the results of others (\<open>frame\<close>): the locale \<open>result_keeper\<close>, interpreted for
    the three kinds of calls.
  \<^item> \<open>Client_Calls\<close>, \<open>Client_Owners\<close>, \<open>Client_System\<close>: the proxy with all its clients, the relation \<open>client_step\<close>: queries,
    asynchronous statements cut at the hand-over to the thread pool, transactions side by side, dropped handles,
    results objects that are filled, moved and destroyed, and reconfiguration, in any order. Each call is a lemma
    that says what it returns and leaves, and the invariant \<open>clients_ok\<close> (who owns which connection and which raw
    result) is proved from these.
  \<^item> \<open>Tx_Async\<close>: the asynchronous statements of a transaction, cut at the hand-over; the task's reference to the
    connection; what becomes of a statement that waits when others leave the connection alone, when the handle is
    destroyed, and when the transaction is committed before it ran. \<open>Tx_Waiting\<close>: any number of waiting statements of one
    transaction, the relation \<open>waiting_step\<close>.
  \<^item> \<open>Example_Table\<close>, \<open>Example_Fiber\<close>, \<open>Example_Future\<close>: the tests of the two example programs under \<^verbatim>\<open>examples/mysql/client\<close>,
    as lists of statements over the proxy, and their table printer with the formatting state of the stream.
    \<open>Example_Properties\<close>: each statement is a step of a client, so the invariant holds for a whole test.

  \<^bold>\<open>What is proved.\<close> Ownership: in every reachable state no executor operation uses a freed handle
  and no connection has two owners; the pool refines a lease protocol; threads that race for a pool get the
  same one; a query gives its connection back, and so do \<^verbatim>\<open>Commit\<close> and \<^verbatim>\<open>Rollback\<close>; clients of one proxy
  never share a connection, the views into their results stay valid whatever the others do, and their calls
  return; the waiting statements of a transaction all complete; the rollback example leaves no connection in use. Function: the rows a
  query returns are those the server sends; the arguments arrive as they were given; buffers are
  not overrun after the check of the columns; \<^verbatim>\<open>Begin\<close> starts a transaction; an ended one stays
  ended; configuration and reconfiguration put the proxy in service. Progress: the
  fetch loop ends, a thread that asks for a pool gets one. Errors: the
  paths on which the code uses freed memory, aborts, or reports the wrong outcome are
  theorems too: the retry of a reconnect, the error of a refused connection, a rejected \<^verbatim>\<open>begin\<close>,
  a commit the filters stop, a commit before the last statement ran, the row after a long value, and what the examples do with results and handles they did not get.

  \<^bold>\<open>Bounds.\<close> Machine integers are words. The two retry loops recurse on their counter, which is the
  code's constant: five attempts in \<^verbatim>\<open>StartReconnect\<close>, three in \<^verbatim>\<open>GetOrCreate\<close>. There is no fuel. The
  fetch loop ends when the library says so: it is a \<open>partial_function\<close>, and \<open>fetch_loop_terminates\<close> gives
  the condition under which it returns. A wait nobody ends is the fault \<open>Diverges\<close>.

  \<^bold>\<open>Parameters.\<close> The client library (\<open>mysql_api\<close>), the framework (\<open>framework\<close>: filters, selector, time-outs,
  statistics, thread pool, status formatting), its \<^verbatim>\<open>LightlyConcurrentHashMap\<close> (\<open>hashmap_api\<close>) and yaml-cpp
  (\<open>yaml_api\<close>). Hypotheses on them: \<open>hashmap_laws\<close> and \<open>yaml_laws\<close>, their documented behaviour; \<open>no_oom\<close>, that
  allocations succeed; \<open>accepts\<close>, \<open>refuses\<close>, that the server takes or refuses connections; \<open>serves\<close>, that it
  answers pings, frees results and asks for no more arguments than the caller has; \<open>answers_typed\<close>, that besides
  a failed call leaves an error number and the rows of a typed query fit the types asked for (the query itself may
  fail at any step); \<open>one_cell_per_field\<close>; \<open>passes\<close>, that the
  framework lets calls through. Each property that uses one has a witness at a concrete library and
  framework.

  \<^bold>\<open>Not modelled.\<close> Logging and \<^verbatim>\<open>MysqlClientConf::Display\<close>; the registration of the plugin
  (\<^verbatim>\<open>mysql_plugin.cc\<close>); the contents of a type-erased framework context beyond its status and address; time
  stamps of statistics. A synchronous call is one sequential run, since the calling fiber waits for
  its task. An asynchronous call is modelled with its task run at once
  (\<open>Proxy_Async\<close>) and at any later time (\<open>async_start\<close> and \<open>async_finish\<close> on the pools, \<open>async_tx_start\<close> and
  \<open>async_tx_finish\<close> in a transaction, which compose to the calls); a task that runs is one step, so two statements of
  one transaction are not run on its connection at the same time. Waiting statements of transactions are in the relation
  \<open>waiting_step\<close>, which takes from the other clients that they leave the connection alone (\<open>undisturbed\<close>), not in
  \<open>client_step\<close>.
  Interleaving is modelled where threads share state: between users of a pool, between the
  halves of \<^verbatim>\<open>Get\<close>, and between the calls of clients. Of the example programs the flags and the start of the runtime
  (\<^verbatim>\<open>ParseClientConfig\<close>, \<^verbatim>\<open>main\<close>) are left out; their futures are seen in the schedule of \<open>Proxy_Async\<close>.
\<close>

end
